(* ===== verification/Ibex_Prelude.thy ===== *)
theory Ibex_Prelude
  imports Main "HOL-Library.Char_ord" "HOL-Library.List_Lexorder" "HOL-Library.Product_Lexorder"
begin

text \<open>
  The vocabulary every component of the development shares: identifiers and clocks, database
  transactions with rollback, the row operations of SQL tables kept as lists, Python's string
  predicates, and two interfaces. \<open>transactional\<close> is the contract of an operation run in a
  session scope (a failure leaves the database as it was); \<open>transactional_inv\<close> adds an
  invariant that successful operations keep.
\<close>

section \<open>Names of the model's types\<close>

text \<open>
  A UUID is a natural number: the code compares UUIDs for equality and sorts them by their
  canonical lower-case hexadecimal text, whose order is the numeric one. Instants and durations
  are integers in microseconds, the resolution of PostgreSQL's \<open>timestamptz\<close>. A Python \<open>str\<close>
  is a \<open>string\<close>, one \<open>char\<close> per code point (code points below 256).
\<close>

type_synonym uuid = nat
type_synonym usec = int
type_synonym bytes = "nat list"

abbreviation second :: usec where
  "second \<equiv> 1000000"

named_theorems tx_simps \<open>unfolding of transactions\<close>
named_theorems row_simps \<open>facts on rows and keys of tables\<close>

section \<open>Transactions\<close>

text \<open>
  A transaction body reads and writes the database and either returns a value or raises. An
  exception carries the database as the body left it, so that a write before a \<open>raise\<close> is
  visible to the scope, which then rolls it back.
\<close>

type_synonym ('s, 'e, 'a) tx = "'s \<Rightarrow> ('e + 'a) \<times> 's"

definition tx_return :: "'a \<Rightarrow> ('s, 'e, 'a) tx" where
  "tx_return a = (\<lambda>s. (Inr a, s))"

definition tx_raise :: "'e \<Rightarrow> ('s, 'e, 'a) tx" where
  "tx_raise e = (\<lambda>s. (Inl e, s))"

definition tx_bind :: "('s, 'e, 'a) tx \<Rightarrow> ('a \<Rightarrow> ('s, 'e, 'b) tx) \<Rightarrow> ('s, 'e, 'b) tx" where
  "tx_bind m f = (\<lambda>s. case m s of (Inl e, s') \<Rightarrow> (Inl e, s') | (Inr a, s') \<Rightarrow> f a s')"

definition tx_get :: "('s \<Rightarrow> 'a) \<Rightarrow> ('s, 'e, 'a) tx" where
  "tx_get f = (\<lambda>s. (Inr (f s), s))"

definition tx_put :: "('s \<Rightarrow> 's) \<Rightarrow> ('s, 'e, unit) tx" where
  "tx_put f = (\<lambda>s. (Inr (), f s))"

definition service_org_session :: "('s, 'e, 'a) tx \<Rightarrow> ('s, 'e, 'a) tx" where
  "service_org_session body = (\<lambda>s. case body s of
     (Inl e, s') \<Rightarrow> (Inl e, s)
   | (Inr a, s') \<Rightarrow> (Inr a, s'))"

definition map_error :: "('e \<Rightarrow> 'f) \<Rightarrow> ('s, 'e, 'a) tx \<Rightarrow> ('s, 'f, 'a) tx" where
  "map_error h m = (\<lambda>s. case m s of (Inl e, s') \<Rightarrow> (Inl (h e), s') | (Inr a, s') \<Rightarrow> (Inr a, s'))"

lemmas tx_defs = tx_return_def tx_raise_def tx_bind_def tx_get_def tx_put_def

lemmas scope_defs = service_org_session_def map_error_def

declare tx_defs [tx_simps]

section \<open>Rows of a table\<close>

definition sql_update :: "('r \<Rightarrow> bool) \<Rightarrow> ('r \<Rightarrow> 'r) \<Rightarrow> 'r list \<Rightarrow> 'r list" where
  "sql_update p f rows = map (\<lambda>r. if p r then f r else r) rows"

definition sql_delete :: "('r \<Rightarrow> bool) \<Rightarrow> 'r list \<Rightarrow> 'r list" where
  "sql_delete p rows = filter (\<lambda>r. \<not> p r) rows"

definition sql_count :: "('r \<Rightarrow> bool) \<Rightarrow> 'r list \<Rightarrow> nat" where
  "sql_count p rows = length (filter p rows)"

definition sql_first :: "('r \<Rightarrow> bool) \<Rightarrow> 'r list \<Rightarrow> 'r option" where
  "sql_first p rows = List.find p rows"

text \<open>\<open>ORDER BY k DESC LIMIT 1\<close>.\<close>

fun sql_max :: "('r \<Rightarrow> 'k :: linorder) \<Rightarrow> 'r list \<Rightarrow> 'r option" where
  "sql_max k [] = None"
| "sql_max k (r # rows) = (case sql_max k rows of
     None \<Rightarrow> Some r
   | Some r' \<Rightarrow> if k r < k r' then Some r' else Some r)"

lemma set_sql_update [row_simps]:
  "set (sql_update p f rows) = {r \<in> set rows. \<not> p r} \<union> f ` {r \<in> set rows. p r}"
  by (auto simp: sql_update_def)

lemma set_sql_delete [row_simps]: "set (sql_delete p rows) = {r \<in> set rows. \<not> p r}"
  by (auto simp: sql_delete_def)

lemma map_sql_update [row_simps]:
  "(\<And>r. r \<in> set rows \<Longrightarrow> p r \<Longrightarrow> k (f r) = k r) \<Longrightarrow> map k (sql_update p f rows) = map k rows"
  by (auto simp: sql_update_def)

lemma distinct_sql_delete:
  "distinct (map k rows) \<Longrightarrow> distinct (map k (sql_delete p rows))"
  unfolding sql_delete_def by (rule distinct_map_filter)

lemma sql_update_none: "\<not> (\<exists>r \<in> set rows. p r) \<Longrightarrow> sql_update p f rows = rows"
  unfolding sql_update_def by (induction rows) auto

lemma sql_count_eq_0: "sql_count p rows = 0 \<longleftrightarrow> (\<forall>r \<in> set rows. \<not> p r)"
  by (simp add: sql_count_def filter_empty_conv)

lemma sql_first_Some: "sql_first p rows = Some r \<Longrightarrow> r \<in> set rows \<and> p r"
  unfolding sql_first_def by (auto simp: find_Some_iff)

lemma sql_first_None: "sql_first p rows = None \<longleftrightarrow> (\<forall>r \<in> set rows. \<not> p r)"
  unfolding sql_first_def by (auto simp: find_None_iff)

lemma sql_max_None [simp]: "sql_max k rows = None \<longleftrightarrow> rows = []"
  by (cases rows) (auto split: option.splits)

lemma sql_max_Some: "sql_max k rows = Some m \<Longrightarrow> m \<in> set rows \<and> (\<forall>r \<in> set rows. k r \<le> k m)"
proof (induction rows arbitrary: m)
  case (Cons r rows)
  show ?case
  proof (cases "sql_max k rows")
    case None
    with Cons.prems show ?thesis by simp
  next
    case (Some r')
    from Cons.IH [OF Some] Cons.prems Some show ?thesis by (auto split: if_splits)
  qed
qed simp

text \<open>A unique key picks one row: the rows with that key are the row itself.\<close>

lemma distinct_key_eq:
  "distinct (map k rows) \<Longrightarrow> r \<in> set rows \<Longrightarrow> r' \<in> set rows \<Longrightarrow> k r = k r' \<Longrightarrow> r = r'"
  by (auto simp: distinct_map dest: inj_onD)

lemma sql_first_unique:
  assumes "distinct (map k rows)" and "r \<in> set rows" and "p r"
    and "\<And>r'. p r' \<Longrightarrow> k r' = k r"
  shows "sql_first p rows = Some r"
proof (cases "sql_first p rows")
  case None
  with assms(2,3) show ?thesis by (auto simp: sql_first_None)
next
  case (Some r')
  then have "r' \<in> set rows" and "p r'" by (auto dest: sql_first_Some)
  have "r' = r"
    by (rule distinct_key_eq [OF assms(1) \<open>r' \<in> set rows\<close> assms(2) assms(4) [OF \<open>p r'\<close>]])
  with Some show ?thesis by simp
qed

lemma filter_unique:
  assumes "distinct (map k rows)" and "r \<in> set rows" and "p r"
    and "\<And>r'. p r' \<Longrightarrow> k r' = k r"
  shows "filter p rows = [r]"
  using assms(1,2)
proof (induction rows)
  case (Cons x rows)
  show ?case
  proof (cases "p x")
    case True
    with Cons.prems assms(4) have "x = r" by (auto simp: image_iff)
    moreover have "\<not> p r'" if "r' \<in> set rows" for r'
      using that Cons.prems(1) assms(4) [of r'] assms(4) [OF True] by (auto simp: image_iff)
    ultimately show ?thesis using True by (simp add: filter_empty_conv)
  next
    case False
    with Cons assms(3) show ?thesis by auto
  qed
qed simp

lemma sql_count_unique:
  assumes "distinct (map k rows)" and "r \<in> set rows" and "p r"
    and "\<And>r'. p r' \<Longrightarrow> k r' = k r"
  shows "sql_count p rows = 1"
proof -
  have "filter p rows = [r]" using assms by (rule filter_unique)
  then show ?thesis by (simp add: sql_count_def)
qed

lemma sql_count_le_1:
  assumes "distinct (map k rows)" and "\<And>r r'. p r \<Longrightarrow> p r' \<Longrightarrow> k r = k r'"
  shows "sql_count p rows \<le> 1"
proof (cases "\<exists>r \<in> set rows. p r")
  case True
  then obtain r where "r \<in> set rows" "p r" by blast
  then have "sql_count p rows = 1"
    by (intro sql_count_unique [OF assms(1)]) (auto intro: assms(2))
  then show ?thesis by simp
next
  case False
  then show ?thesis by (simp add: sql_count_def)
qed

text \<open>A column constraint: SQL's CHECK is met by NULL.\<close>

fun sql_check :: "('a \<Rightarrow> bool) \<Rightarrow> 'a option \<Rightarrow> bool" where
  "sql_check p None = True"
| "sql_check p (Some x) = p x"

text \<open>The pattern of the \<open>request_hash\<close> columns: 64 lower-case hexadecimal digits.\<close>

definition is_hash :: "string \<Rightarrow> bool" where
  "is_hash h \<longleftrightarrow> length h = 64 \<and> list_all (\<lambda>c. c \<in> set ''0123456789abcdef'') h"

section \<open>Operations that run in a transaction\<close>

fun run_all :: "('c \<Rightarrow> 's \<Rightarrow> 'x \<times> 's) \<Rightarrow> 'c list \<Rightarrow> 's \<Rightarrow> 's" where
  "run_all exec [] s = s"
| "run_all exec (c # cs) s = run_all exec cs (snd (exec c s))"

fun committed :: "('c \<Rightarrow> 's \<Rightarrow> ('e + 'r) \<times> 's) \<Rightarrow> 'c list \<Rightarrow> 's \<Rightarrow> 'c list" where
  "committed exec [] s = []"
| "committed exec (c # cs) s = (case exec c s of
     (Inl e, s') \<Rightarrow> committed exec cs s'
   | (Inr r, s') \<Rightarrow> c # committed exec cs s')"

locale transactional =
  fixes exec :: "'c \<Rightarrow> 's \<Rightarrow> ('e + 'r) \<times> 's"
  assumes rollback: "fst (exec c s) = Inl e \<Longrightarrow> snd (exec c s) = s"
begin

text \<open>The database a run ends in is the one its committed operations alone produce.\<close>

lemma run_committed: "run_all exec (committed exec cs s) s = run_all exec cs s"
proof (induction cs arbitrary: s)
  case (Cons c cs)
  obtain res s' where step: "exec c s = (res, s')" by fastforce
  show ?case
  proof (cases res)
    case (Inl e)
    with step have "s' = s" using rollback [of c s e] by simp
    with step Inl Cons.IH [of s] show ?thesis by simp
  next
    case (Inr r)
    with step Cons.IH [of s'] show ?thesis by simp
  qed
qed simp

end

locale transactional_inv = transactional +
  fixes inv :: "'s \<Rightarrow> bool"
  assumes keep: "inv s \<Longrightarrow> fst (exec c s) = Inr r \<Longrightarrow> inv (snd (exec c s))"
begin

lemma inv_exec: "inv s \<Longrightarrow> inv (snd (exec c s))"
  using rollback [of c s] keep [of s c] by (cases "fst (exec c s)") auto

lemma inv_run: "inv s \<Longrightarrow> inv (run_all exec cs s)"
  by (induction cs arbitrary: s) (auto intro: inv_exec)

end

lemma session_rollback:
  "fst (service_org_session body s) = Inl e \<Longrightarrow> snd (service_org_session body s) = s"
  by (auto simp: service_org_session_def split: prod.splits sum.splits)

lemma session_Inr:
  "service_org_session body s = (Inr a, s') \<longleftrightarrow> body s = (Inr a, s')"
  by (auto simp: service_org_session_def split: prod.splits sum.splits)

lemma map_error_rollback:
  "(\<And>e. fst (m s) = Inl e \<Longrightarrow> snd (m s) = s) \<Longrightarrow>
   fst (map_error h m s) = Inl f \<Longrightarrow> snd (map_error h m s) = s"
  by (auto simp: map_error_def split: prod.splits sum.splits)

lemma scoped_rollback:
  "fst (map_error h (service_org_session body) s) = Inl f \<Longrightarrow>
   snd (map_error h (service_org_session body) s) = s"
  by (rule map_error_rollback [OF session_rollback])

lemma bind_return_rollback:
  "fst (tx_bind m (\<lambda>a. tx_return (f a)) s) = Inl y \<Longrightarrow> (fst (m s) = Inl y \<Longrightarrow> snd (m s) = s) \<Longrightarrow>
   snd (tx_bind m (\<lambda>a. tx_return (f a)) s) = s"
  by (auto simp: tx_bind_def tx_return_def split: prod.splits sum.splits)

lemma map_error_Inr: "map_error h m s = (Inr a, s') \<longleftrightarrow> m s = (Inr a, s')"
  by (auto simp: map_error_def split: prod.splits sum.splits)

lemma tx_bind_Inr:
  "tx_bind m f s = (Inr b, s') \<longleftrightarrow> (\<exists>a s1. m s = (Inr a, s1) \<and> f a s1 = (Inr b, s'))"
  by (auto simp: tx_bind_def split: prod.splits sum.splits)

lemma tx_return_eq: "tx_return a s = (r, s') \<longleftrightarrow> r = Inr a \<and> s' = s"
  by (auto simp: tx_return_def)

lemma tx_get_eq: "tx_get f s = (r, s') \<longleftrightarrow> r = Inr (f s) \<and> s' = s"
  by (auto simp: tx_get_def)

lemma tx_raise_eq: "tx_raise e s = (r, s') \<longleftrightarrow> r = Inl e \<and> s' = s"
  by (auto simp: tx_raise_def)

text \<open>Inversion of a transaction body that returned.\<close>

lemmas tx_inv = tx_bind_Inr tx_return_eq tx_get_eq tx_raise_eq map_error_Inr session_Inr

section \<open>Python strings\<close>

definition py_isspace :: "char \<Rightarrow> bool" where
  "py_isspace c = (let n = of_char c :: nat in
     (9 \<le> n \<and> n \<le> 13) \<or> (28 \<le> n \<and> n \<le> 32) \<or> n = 133 \<or> n = 160)"

definition py_lstrip :: "string \<Rightarrow> string" where
  "py_lstrip s = dropWhile py_isspace s"

definition py_strip :: "string \<Rightarrow> string" where
  "py_strip s = rev (py_lstrip (rev (py_lstrip s)))"

definition py_lower :: "string \<Rightarrow> string" where
  "py_lower s = map (\<lambda>c. let n = of_char c :: nat in
     if (65 \<le> n \<and> n \<le> 90) \<or> (192 \<le> n \<and> n \<le> 222 \<and> n \<noteq> 215) then char_of (n + 32) else c) s"

definition utf8_length :: "string \<Rightarrow> nat" where
  "utf8_length s = sum_list (map (\<lambda>c. if of_char c < (128 :: nat) then 1 else 2) s)"

lemma utf8_length_ge: "length s \<le> utf8_length s"
  unfolding utf8_length_def by (induction s) auto

lemma utf8_length_le: "utf8_length s \<le> 2 * length s"
  unfolding utf8_length_def by (induction s) auto

end
