(* ===== verification/Budget_Pricing.thy ===== *)
theory Budget_Pricing
  imports Ibex_Prelude
begin

text \<open>
  The rate-card arithmetic of \<open>services/worker/app/budget_pricing.py\<close>: token heuristics, the
  case-insensitive provider and shell-pattern match on a card's rows, and costs in cents rounded
  up per component. Shell patterns are those of Python's \<open>fnmatch\<close>: a pattern is translated into
  a list of items and the items are matched against the whole name.
\<close>

section \<open>Shell patterns\<close>

text \<open>
  A bracket expression lists ranges of characters (a single character is a range of one; a range
  whose ends are out of order denotes no character), possibly negated.
\<close>

datatype glob_item = Star | AnyChar | Class bool "(char \<times> char) list" | Lit char

fun class_items :: "string \<Rightarrow> (char \<times> char) list" where
  "class_items (a # s # b # cs) =
     (if s = CHR ''-'' then (a, b) # class_items cs else (a, a) # class_items (s # b # cs))"
| "class_items [a, b] = [(a, a), (b, b)]"
| "class_items [a] = [(a, a)]"
| "class_items [] = []"

text \<open>
  The bracket expression after an opening bracket: an optional \<open>!\<close>, an optional \<open>]\<close> taken
  literally, and the text up to the next \<open>]\<close>. Without one the bracket stands for itself.
\<close>

definition class_body :: "string \<Rightarrow> (string \<times> string) option" where
  "class_body cs =
     (let lit = (if take 1 cs = '']'' then '']'' else []);
          rest = drop (length lit) cs;
          body = takeWhile (\<lambda>c. c \<noteq> CHR '']'') rest;
          tail = dropWhile (\<lambda>c. c \<noteq> CHR '']'') rest
      in case tail of [] \<Rightarrow> None | _ # after \<Rightarrow> Some (lit @ body, after))"

definition glob_class :: "string \<Rightarrow> (glob_item \<times> string) option" where
  "glob_class cs =
     (case cs of
        CHR ''!'' # cs' \<Rightarrow> map_option (\<lambda>(body, after). (Class True (class_items body), after)) (class_body cs')
      | _ \<Rightarrow> map_option (\<lambda>(body, after). (Class False (class_items body), after)) (class_body cs))"

lemma class_body_shorter: "class_body cs = Some (b, after) \<Longrightarrow> length after < length cs"
proof -
  assume "class_body cs = Some (b, after)"
  then obtain n c where tl: "dropWhile (\<lambda>c. c \<noteq> CHR '']'') (drop n cs) = c # after"
    unfolding class_body_def Let_def by (auto split: list.splits simp del: One_nat_def)
  have "length (c # after) \<le> length (drop n cs)"
    unfolding tl [symmetric] by (rule length_dropWhile_le)
  then show ?thesis by simp
qed

lemma glob_class_shorter: "glob_class cs = Some (i, after) \<Longrightarrow> length after < length cs"
proof -
  assume g: "glob_class cs = Some (i, after)"
  then obtain ds b where "class_body ds = Some (b, after)" and "length ds \<le> length cs"
    by (auto simp: glob_class_def split: list.splits char.splits bool.splits if_splits)
  then show ?thesis using class_body_shorter [of ds b after] by simp
qed

function (sequential) fnmatch_translate :: "string \<Rightarrow> glob_item list" where
  "fnmatch_translate [] = []"
| "fnmatch_translate (c # cs) =
     (if c = CHR ''*'' then Star # fnmatch_translate cs
      else if c = CHR ''?'' then AnyChar # fnmatch_translate cs
      else if c = CHR ''['' then
        (case glob_class cs of
           None \<Rightarrow> Lit c # fnmatch_translate cs
         | Some (item, after) \<Rightarrow> item # fnmatch_translate after)
      else Lit c # fnmatch_translate cs)"
  by pat_completeness auto
termination
  by (relation "measure length") (auto dest: glob_class_shorter)

fun item_match :: "glob_item \<Rightarrow> char \<Rightarrow> bool" where
  "item_match Star c = False"
| "item_match AnyChar c = True"
| "item_match (Class neg rs) c = (neg \<noteq> list_ex (\<lambda>(a, b). a \<le> c \<and> c \<le> b) rs)"
| "item_match (Lit d) c = (c = d)"

fun glob_match :: "glob_item list \<Rightarrow> string \<Rightarrow> bool" where
  "glob_match [] s = (s = [])"
| "glob_match (Star # is) [] = glob_match is []"
| "glob_match (Star # is) (c # s) = (glob_match is (c # s) \<or> glob_match (Star # is) s)"
| "glob_match (i # is) [] = False"
| "glob_match (i # is) (c # s) = (item_match i c \<and> glob_match is s)"

definition fnmatchcase :: "string \<Rightarrow> string \<Rightarrow> bool" where
  "fnmatchcase name pat = glob_match (fnmatch_translate pat) name"

text \<open>A star stands for any text: the pattern after it matches some suffix.\<close>

lemma glob_match_Star: "glob_match (Star # is) s \<longleftrightarrow> (\<exists>u v. s = u @ v \<and> glob_match is v)"
proof (induction s)
  case (Cons c s)
  have "(\<exists>u v. c # s = u @ v \<and> glob_match is v) \<longleftrightarrow>
      glob_match is (c # s) \<or> (\<exists>u v. s = u @ v \<and> glob_match is v)"
    by (metis append_Cons append_Nil list.inject neq_Nil_conv)
  with Cons.IH show ?case by simp
qed simp

section \<open>Rate cards\<close>

record price_row =
  pr_provider :: string
  pr_model_pattern :: string
  pr_input :: int
  pr_output :: int

record card =
  card_version :: string
  card_prices :: "price_row list"

definition DEFAULT_OUTPUT_TOKENS :: int where "DEFAULT_OUTPUT_TOKENS = 4096"
definition TOKENS_PER_MESSAGE :: int where "TOKENS_PER_MESSAGE = 4"
definition BYTES_PER_TOKEN :: int where "BYTES_PER_TOKEN = 4"

definition heuristic_tokens :: "string \<Rightarrow> int" where
  "heuristic_tokens content =
     (if content = [] then 0
      else max (int (length content)) (int (utf8_length content) div BYTES_PER_TOKEN))"

definition estimate_prompt_tokens :: "string \<Rightarrow> string \<Rightarrow> int \<times> int" where
  "estimate_prompt_tokens system_prompt user_content =
     (heuristic_tokens system_prompt + TOKENS_PER_MESSAGE + heuristic_tokens user_content
        + TOKENS_PER_MESSAGE,
      DEFAULT_OUTPUT_TOKENS)"

definition price_matches :: "string \<Rightarrow> string \<Rightarrow> price_row \<Rightarrow> bool" where
  "price_matches prov m row \<longleftrightarrow>
     py_lower (py_strip (pr_provider row)) = prov \<and>
     (let pattern = py_strip (pr_model_pattern row) in pattern \<noteq> [] \<and> fnmatchcase m pattern)"

fun match_price_loop :: "string \<Rightarrow> string \<Rightarrow> price_row list \<Rightarrow> price_row option" where
  "match_price_loop prov m [] = None"
| "match_price_loop prov m (row # rows) =
     (if py_lower (py_strip (pr_provider row)) \<noteq> prov then match_price_loop prov m rows
      else
        let pattern = py_strip (pr_model_pattern row) in
        if pattern = [] then match_price_loop prov m rows
        else if fnmatchcase m pattern then Some row
        else match_price_loop prov m rows)"

definition match_price :: "price_row list \<Rightarrow> string \<Rightarrow> string \<Rightarrow> price_row option" where
  "match_price prices provider model =
     match_price_loop (py_lower (py_strip provider)) (py_strip model) prices"

definition ceil_mul_div_1k :: "int \<Rightarrow> int \<Rightarrow> int" where
  "ceil_mul_div_1k tokens cents_per_1k =
     (if tokens = 0 \<or> cents_per_1k = 0 then 0 else (tokens * cents_per_1k + 999) div 1000)"

definition cost_from_rates :: "int \<Rightarrow> int \<Rightarrow> int \<Rightarrow> int \<Rightarrow> int option" where
  "cost_from_rates input_cents output_cents input_tokens output_tokens =
     (if input_tokens < 0 \<or> output_tokens < 0 then None
      else if input_cents < 0 \<or> output_cents < 0 then None
      else Some (ceil_mul_div_1k input_tokens input_cents + ceil_mul_div_1k output_tokens output_cents))"

definition estimate_cost :: "card \<Rightarrow> string \<Rightarrow> string \<Rightarrow> int \<Rightarrow> int \<Rightarrow> int option" where
  "estimate_cost c provider model input_tokens output_tokens =
     (if card_version c = [] then None
      else case match_price (card_prices c) provider model of
        None \<Rightarrow> None
      | Some row \<Rightarrow> cost_from_rates (pr_input row) (pr_output row) input_tokens output_tokens)"

section \<open>What the arithmetic guarantees\<close>

lemma match_price_find:
  "match_price prices provider model =
     List.find (price_matches (py_lower (py_strip provider)) (py_strip model)) prices"
proof -
  have "match_price_loop p m rows = List.find (price_matches p m) rows" for p m rows
    by (induction rows) (auto simp: price_matches_def Let_def)
  then show ?thesis by (simp add: match_price_def)
qed

text \<open>The rounded component is the least number of whole cents that covers the exact price.\<close>

lemma ceil_mul_div_1k_least:
  assumes "0 \<le> t" and "0 \<le> c"
  shows "t * c \<le> 1000 * ceil_mul_div_1k t c" and "1000 * ceil_mul_div_1k t c < t * c + 1000"
  using assms by (auto simp: ceil_mul_div_1k_def)

lemma ceil_mul_div_1k_mono:
  assumes "0 \<le> t" and "t \<le> t'" and "0 \<le> c"
  shows "ceil_mul_div_1k t c \<le> ceil_mul_div_1k t' c"
proof -
  have "t * c \<le> t' * c" using assms by (simp add: mult_right_mono)
  moreover have "0 \<le> t * c" using assms by simp
  ultimately show ?thesis
    by (cases "t' * c = 0") (auto simp: ceil_mul_div_1k_def intro!: zdiv_mono1)
qed

lemma ceil_mul_div_1k_nonneg: "0 \<le> t \<Longrightarrow> 0 \<le> c \<Longrightarrow> 0 \<le> ceil_mul_div_1k t c"
  by (simp add: ceil_mul_div_1k_def pos_imp_zdiv_nonneg_iff)

lemma cost_from_rates_nonneg: "cost_from_rates a b i out = Some c \<Longrightarrow> 0 \<le> c"
  by (auto simp: cost_from_rates_def ceil_mul_div_1k_nonneg split: if_splits)

lemma cost_from_rates_mono:
  assumes "cost_from_rates a b i out = Some c" and "cost_from_rates a b i' out' = Some c'"
    and "i \<le> i'" and "out \<le> out'"
  shows "c \<le> c'"
  using assms ceil_mul_div_1k_mono [of i i' a] ceil_mul_div_1k_mono [of out out' b]
  by (auto simp: cost_from_rates_def split: if_splits)

lemma estimate_cost_Some:
  assumes "estimate_cost c provider model i out = Some cents"
  obtains row where "match_price (card_prices c) provider model = Some row"
    and "cost_from_rates (pr_input row) (pr_output row) i out = Some cents"
  using assms by (auto simp: estimate_cost_def split: if_splits option.splits)

text \<open>
  The price of a call is never undercharged and overcharged by less than one cent per
  component: with the tokens and rates it accepts, 1000 times the cost lies between the exact
  product and 2000 above it; negative tokens or rates yield no price; and more tokens never cost
  less.
\<close>

theorem cost_from_rates_tight:
  "(cost_from_rates a b i out = None \<longleftrightarrow> i < 0 \<or> out < 0 \<or> a < 0 \<or> b < 0) \<and>
   (\<forall>c. cost_from_rates a b i out = Some c \<longrightarrow>
      0 \<le> c \<and> i * a + out * b \<le> 1000 * c \<and> 1000 * c < i * a + out * b + 2000 \<and>
      (\<forall>i' out' c'. i \<le> i' \<longrightarrow> out \<le> out' \<longrightarrow> cost_from_rates a b i' out' = Some c' \<longrightarrow> c \<le> c'))"
proof (intro conjI allI impI)
  show "cost_from_rates a b i out = None \<longleftrightarrow> i < 0 \<or> out < 0 \<or> a < 0 \<or> b < 0"
    by (auto simp: cost_from_rates_def)
next
  fix c assume c: "cost_from_rates a b i out = Some c"
  then have dom: "0 \<le> i" "0 \<le> out" "0 \<le> a" "0 \<le> b"
    and c_eq: "c = ceil_mul_div_1k i a + ceil_mul_div_1k out b"
    by (auto simp: cost_from_rates_def split: if_splits)
  note least = ceil_mul_div_1k_least [OF dom(1,3)] ceil_mul_div_1k_least [OF dom(2,4)]
  show "0 \<le> c" by (rule cost_from_rates_nonneg [OF c])
  show "i * a + out * b \<le> 1000 * c" and "1000 * c < i * a + out * b + 2000"
    using least unfolding c_eq distrib_left by simp_all
  show "c \<le> c'" if "i \<le> i'" "out \<le> out'" "cost_from_rates a b i' out' = Some c'" for i' out' c'
    by (rule cost_from_rates_mono [OF c that(3,1,2)])
qed

theorem cost_from_rates_tight_witness:
  "cost_from_rates 15 60 1234 10 = Some 20 \<and> 1234 * 15 + 10 * 60 \<le> (1000 * 20 :: int)"
proof -
  have "cost_from_rates 15 60 1234 10 = Some 20"
    by (simp add: cost_from_rates_def ceil_mul_div_1k_def)
  then show ?thesis using cost_from_rates_tight [of 15 60 1234 10] by simp
qed

end
