(* ===== verification/Budget_Ledger.thy ===== *)
theory Budget_Ledger
  imports Budget_Pricing
begin

text \<open>
  The worker's budget reservation ledger (\<open>services/worker/app/budget_ledger.py\<close>): the billing
  tables it reads, the table \<open>ibex_core.budget_reservations\<close> it writes, every SQL statement as a
  function on them, and \<open>claim\<close>, \<open>finalize\<close>, \<open>release\<close>, \<open>expire_stale\<close> composed as in the
  code. A claim of an organisation runs under its advisory lock and a settlement under its row
  lock, so each operation is one atomic step; the \<open>NOW()\<close> of a transaction is the time it
  started and is not ordered with the commits of others.
\<close>

section \<open>Tables\<close>

datatype reservation_state = BClaimed | BFinalized | BReleased | BExpired

datatype completeness = COMPLETENESS_COMPLETE | COMPLETENESS_ESTIMATED

record reservation =
  br_id :: uuid
  br_org :: uuid
  br_agent :: uuid
  br_period :: uuid
  br_key :: string
  br_hash :: string
  br_state :: reservation_state
  br_estimated :: int
  br_price_in :: "int option"
  br_price_out :: "int option"
  br_final :: "int option"
  br_completeness :: "completeness option"
  br_lease :: "usec option"
  br_version :: int
  br_created :: usec

datatype enforcement_mode = Alert_only | Hard_cap

record budget_period =
  bp_id :: uuid
  bp_org :: uuid
  bp_start :: usec
  bp_end :: usec
  bp_cap :: int
  bp_spent :: int
  bp_mode :: enforcement_mode

text \<open>
  The adapter's exceptions, and what a statement can raise before they are translated. A
  published card version keeps its prices as the result of decoding its JSON: the rows, or the
  exception the decoder raises.
\<close>

datatype budget_error =
    BudgetLedgerError string
  | BudgetLedgerUnavailableError string
  | BudgetLedgerClaimClosedError string
  | BudgetAdmissionDeniedError string "int option"
  | OtherError string

datatype budget_exc = SqlAlchemyExc | BudgetExc budget_error

record rate_card =
  rk_id :: uuid
  rk_org :: uuid
  rk_published :: bool
  rk_updated :: usec

record rate_card_version =
  rv_id :: uuid
  rv_card :: uuid
  rv_org :: uuid
  rv_version :: string
  rv_prices :: "budget_error + price_row list"
  rv_published_at :: usec

record budget_db =
  bd_rows :: "reservation list"
  bd_periods :: "budget_period list"
  bd_cards :: "rate_card list"
  bd_versions :: "rate_card_version list"

text \<open>
  Supplied from outside to one call: the transaction's \<open>NOW()\<close>, the UUID of a new row, the
  organisations and agents the foreign keys know, and whether the connection fails.
\<close>

record budget_env =
  be_now :: usec
  be_uuid :: uuid
  be_orgs :: "uuid list"
  be_agents :: "uuid list"
  be_fault :: bool

record budget_claim_request =
  bq_org :: uuid
  bq_agent :: uuid
  bq_key :: string
  bq_hash :: string
  bq_provider :: string
  bq_model :: string
  bq_input :: int
  bq_output :: int

record budget_claim =
  bc_id :: uuid
  bc_org :: uuid
  bc_agent :: uuid
  bc_key :: string
  bc_hash :: string
  bc_period :: uuid
  bc_provider :: string
  bc_model :: string
  bc_version :: int

record admission =
  ad_request :: budget_claim_request
  ad_period :: uuid
  ad_cap :: int
  ad_spent :: int
  ad_estimated :: int
  ad_price_in :: int
  ad_price_out :: int
  ad_lease :: usec

record row_ref =
  rr_id :: uuid
  rr_version :: int
  rr_org :: uuid
  rr_agent :: uuid
  rr_key :: string

type_synonym 'a budget_tx = "(budget_db, budget_exc, 'a) tx"

text \<open>The CHECK constraints and column widths of the table.\<close>

definition int_column :: "nat \<Rightarrow> int \<Rightarrow> bool" where
  "int_column w x \<longleftrightarrow> 0 \<le> x \<and> x < 2 ^ (w - 1)"

definition br_check :: "reservation \<Rightarrow> bool" where
  "br_check r \<longleftrightarrow>
     br_key r \<noteq> [] \<and> length (br_key r) \<le> 256 \<and> is_hash (br_hash r) \<and>
     int_column 64 (br_estimated r) \<and>
     sql_check (int_column 32) (br_price_in r) \<and> sql_check (int_column 32) (br_price_out r) \<and>
     sql_check (int_column 64) (br_final r) \<and>
     0 < br_version r \<and> br_version r < 2 ^ 63 \<and>
     (if br_state r = BFinalized then br_final r \<noteq> None \<and> br_completeness r \<noteq> None
      else br_final r = None \<and> br_completeness r = None) \<and>
     (br_state r = BClaimed \<longleftrightarrow> br_lease r \<noteq> None) \<and>
     sql_check (\<lambda>l. br_created r < l) (br_lease r)"

section \<open>Statements\<close>

definition reservation_has_key :: "uuid \<Rightarrow> uuid \<Rightarrow> string \<Rightarrow> reservation \<Rightarrow> bool" where
  "reservation_has_key org_id agent_id key r \<longleftrightarrow>
     br_org r = org_id \<and> br_agent r = agent_id \<and> br_key r = key"

definition load_active_period :: "budget_env \<Rightarrow> uuid \<Rightarrow> budget_period option budget_tx" where
  "load_active_period e org_id = tx_get (\<lambda>db. sql_max bp_start (filter
     (\<lambda>p. bp_org p = org_id \<and> bp_start p \<le> be_now e \<and> be_now e < bp_end p \<and> bp_mode p = Hard_cap)
     (bd_periods db)))"

definition load_card_sql :: "uuid \<Rightarrow> budget_db \<Rightarrow> rate_card_version option" where
  "load_card_sql org_id db =
     (case sql_max (\<lambda>k. (rk_updated k, rk_id k))
             (filter (\<lambda>k. rk_org k = org_id \<and> rk_published k) (bd_cards db)) of
        None \<Rightarrow> None
      | Some k \<Rightarrow> sql_max (\<lambda>v. (rv_published_at v, rv_id v))
          (filter (\<lambda>v. rv_card v = rk_id k \<and> rv_org v = org_id) (bd_versions db)))"

definition load_card :: "uuid \<Rightarrow> card budget_tx" where
  "load_card org_id = tx_bind (tx_get (load_card_sql org_id)) (\<lambda>row. case row of
     None \<Rightarrow> tx_return \<lparr>card_version = [], card_prices = []\<rparr>
   | Some v \<Rightarrow> (case rv_prices v of
       Inl err \<Rightarrow> tx_raise (BudgetExc err)
     | Inr prices \<Rightarrow> tx_return \<lparr>card_version = rv_version v, card_prices = prices\<rparr>))"

definition lock_row :: "admission \<Rightarrow> reservation option budget_tx" where
  "lock_row a = (let q = ad_request a in
     tx_get (\<lambda>db. sql_first (reservation_has_key (bq_org q) (bq_agent q) (bq_key q)) (bd_rows db)))"

definition lease_active :: "usec \<Rightarrow> reservation \<Rightarrow> bool" where
  "lease_active now r = (case br_lease r of None \<Rightarrow> False | Some l \<Rightarrow> now < l)"

definition row_retry_after :: "usec \<Rightarrow> reservation \<Rightarrow> int" where
  "row_retry_after now r = (case br_lease r of
     None \<Rightarrow> 1
   | Some l \<Rightarrow> max 1 ((l - now + (second - 1)) div second))"

definition held :: "usec \<Rightarrow> uuid \<Rightarrow> uuid \<Rightarrow> reservation \<Rightarrow> bool" where
  "held now org_id period_id r \<longleftrightarrow>
     br_org r = org_id \<and> br_period r = period_id \<and> br_state r = BClaimed \<and> lease_active now r"

definition active_holds :: "usec \<Rightarrow> uuid \<Rightarrow> uuid \<Rightarrow> uuid option \<Rightarrow> reservation list \<Rightarrow> int" where
  "active_holds now org_id period_id exclude_id rows =
     sum_list (map br_estimated (filter (\<lambda>r. held now org_id period_id r \<and> Some (br_id r) \<noteq> exclude_id) rows))"

text \<open>\<open>UPDATE ... WHERE p RETURNING\<close>: the rows after the update, unless one violates a constraint.\<close>

definition checked_update ::
  "(reservation \<Rightarrow> bool) \<Rightarrow> (reservation \<Rightarrow> reservation) \<Rightarrow> reservation list budget_tx" where
  "checked_update p f = (\<lambda>db.
     let hit = filter p (bd_rows db) in
     if list_all (\<lambda>r. br_check (f r)) hit
     then (Inr (map f hit), db\<lparr>bd_rows := sql_update p f (bd_rows db)\<rparr>)
     else (Inl SqlAlchemyExc, db))"

definition claim_from_row :: "reservation \<Rightarrow> admission \<Rightarrow> budget_claim" where
  "claim_from_row row a = (let q = ad_request a in
     \<lparr>bc_id = br_id row, bc_org = bq_org q, bc_agent = bq_agent q, bc_key = bq_key q,
      bc_hash = bq_hash q, bc_period = ad_period a, bc_provider = bq_provider q,
      bc_model = bq_model q, bc_version = br_version row\<rparr>)"

definition new_reservation :: "budget_env \<Rightarrow> admission \<Rightarrow> reservation" where
  "new_reservation e a = (let q = ad_request a in
     \<lparr>br_id = be_uuid e, br_org = bq_org q, br_agent = bq_agent q, br_period = ad_period a,
      br_key = bq_key q, br_hash = bq_hash q, br_state = BClaimed, br_estimated = ad_estimated a,
      br_price_in = Some (ad_price_in a), br_price_out = Some (ad_price_out a), br_final = None,
      br_completeness = None, br_lease = Some (be_now e + ad_lease a), br_version = 1,
      br_created = be_now e\<rparr>)"

text \<open>
  \<open>INSERT ... ON CONFLICT DO NOTHING RETURNING\<close>: the constraints of the row, the unique key, the primary
  key and the foreign keys.
\<close>

definition insert_reservation :: "budget_env \<Rightarrow> reservation \<Rightarrow> reservation option budget_tx" where
  "insert_reservation e row = (\<lambda>db.
     if \<not> br_check row then (Inl SqlAlchemyExc, db)
     else if \<exists>r \<in> set (bd_rows db). reservation_has_key (br_org row) (br_agent row) (br_key row) r
     then (Inr None, db)
     else if (\<exists>r \<in> set (bd_rows db). br_id r = br_id row) \<or> br_org row \<notin> set (be_orgs e) \<or>
       br_agent row \<notin> set (be_agents e) \<or> br_period row \<notin> bp_id ` set (bd_periods db)
     then (Inl SqlAlchemyExc, db)
     else (Inr (Some row), db\<lparr>bd_rows := bd_rows db @ [row]\<rparr>))"

definition insert_sql :: "budget_env \<Rightarrow> admission \<Rightarrow> reservation option budget_tx" where
  "insert_sql e a = insert_reservation e (new_reservation e a)"

definition reset_fields :: "budget_env \<Rightarrow> admission \<Rightarrow> reservation \<Rightarrow> reservation" where
  "reset_fields e a r = r\<lparr>br_state := BClaimed, br_period := ad_period a,
     br_hash := bq_hash (ad_request a), br_estimated := ad_estimated a,
     br_price_in := Some (ad_price_in a), br_price_out := Some (ad_price_out a),
     br_final := None, br_completeness := None, br_lease := Some (be_now e + ad_lease a),
     br_version := br_version r + 1\<rparr>"

definition reset_guard :: "budget_env \<Rightarrow> admission \<Rightarrow> reservation \<Rightarrow> reservation \<Rightarrow> bool" where
  "reset_guard e a row r \<longleftrightarrow> (let q = ad_request a in
     br_id r = br_id row \<and> reservation_has_key (bq_org q) (bq_agent q) (bq_key q) r \<and>
     br_version r = br_version row \<and>
     (br_state r \<noteq> BClaimed \<or> (case br_lease r of None \<Rightarrow> False | Some l \<Rightarrow> l \<le> be_now e)))"

definition expire_fields :: "reservation \<Rightarrow> reservation" where
  "expire_fields r = r\<lparr>br_state := BExpired, br_lease := None, br_version := br_version r + 1\<rparr>"

definition expire_stale_row :: "row_ref \<Rightarrow> unit budget_tx" where
  "expire_stale_row ref = tx_bind (checked_update
     (\<lambda>r. br_id r = rr_id ref \<and> reservation_has_key (rr_org ref) (rr_agent ref) (rr_key ref) r \<and>
        br_state r = BClaimed \<and> br_version r = rr_version ref) expire_fields) (\<lambda>_. tx_return ())"

section \<open>Admission\<close>

definition validate_claim :: "budget_claim_request \<Rightarrow> budget_error option" where
  "validate_claim q =
     (if bq_key q = [] \<or> 256 < length (bq_key q) then Some (BudgetLedgerError ''invalid budget claim'')
      else if bq_hash q = [] then Some (BudgetLedgerError ''invalid budget claim'')
      else None)"

definition ensure_reusable :: "budget_env \<Rightarrow> reservation \<Rightarrow> budget_claim_request \<Rightarrow> unit budget_tx" where
  "ensure_reusable e row q =
     (if br_hash row \<noteq> bq_hash q then tx_raise (BudgetExc (BudgetAdmissionDeniedError ''conflict'' None))
      else if br_state row = BClaimed \<and> lease_active (be_now e) row
      then tx_raise (BudgetExc (BudgetAdmissionDeniedError ''in_progress''
             (Some (row_retry_after (be_now e) row))))
      else tx_return ())"

definition stale_ref :: "reservation \<Rightarrow> admission \<Rightarrow> row_ref" where
  "stale_ref row a = (let q = ad_request a in
     \<lparr>rr_id = br_id row, rr_version = br_version row, rr_org = bq_org q, rr_agent = bq_agent q,
      rr_key = bq_key q\<rparr>)"

definition exceeds :: "admission \<Rightarrow> int \<Rightarrow> bool" where
  "exceeds a holds \<longleftrightarrow> ad_cap a < ad_spent a + holds + ad_estimated a"

definition build_admission ::
  "usec \<Rightarrow> budget_claim_request \<Rightarrow> budget_period \<Rightarrow> admission budget_tx" where
  "build_admission lease q p = tx_bind (load_card (bq_org q)) (\<lambda>c.
     case (match_price (card_prices c) (bq_provider q) (bq_model q),
           estimate_cost c (bq_provider q) (bq_model q) (bq_input q) (bq_output q)) of
       (Some price, Some estimated) \<Rightarrow> tx_return
         \<lparr>ad_request = q, ad_period = bp_id p, ad_cap = bp_cap p, ad_spent = bp_spent p,
          ad_estimated = estimated, ad_price_in = pr_input price, ad_price_out = pr_output price,
          ad_lease = lease\<rparr>
     | _ \<Rightarrow> tx_raise (BudgetExc (BudgetAdmissionDeniedError ''no_rate_card'' None)))"

definition insert_row :: "budget_env \<Rightarrow> admission \<Rightarrow> budget_claim budget_tx" where
  "insert_row e a =
     tx_bind (tx_get (\<lambda>db. active_holds (be_now e) (bq_org (ad_request a)) (ad_period a) None (bd_rows db)))
       (\<lambda>holds. if exceeds a holds
          then tx_raise (BudgetExc (BudgetAdmissionDeniedError ''exceeded'' None))
          else tx_bind (insert_sql e a) (\<lambda>inserted. case inserted of
            None \<Rightarrow> tx_raise (BudgetExc (BudgetAdmissionDeniedError ''in_progress'' (Some 1)))
          | Some row \<Rightarrow> tx_return (claim_from_row row a)))"

definition reset_row :: "budget_env \<Rightarrow> reservation \<Rightarrow> admission \<Rightarrow> budget_claim budget_tx" where
  "reset_row e row a = tx_bind (checked_update (reset_guard e a row) (reset_fields e a)) (\<lambda>updated.
     case updated of
       [] \<Rightarrow> tx_raise (BudgetExc (BudgetLedgerError ''budgetledger: reset reservation failed''))
     | r # _ \<Rightarrow> tx_return (claim_from_row r a))"

definition claim_row :: "budget_env \<Rightarrow> admission \<Rightarrow> budget_claim budget_tx" where
  "claim_row e a = tx_bind (lock_row a) (\<lambda>found. case found of
     None \<Rightarrow> insert_row e a
   | Some row \<Rightarrow> tx_bind (ensure_reusable e row (ad_request a)) (\<lambda>_.
       tx_bind (tx_get (\<lambda>db. active_holds (be_now e) (bq_org (ad_request a)) (ad_period a)
                  (Some (br_id row)) (bd_rows db))) (\<lambda>holds.
       if exceeds a holds then
         tx_bind (if br_state row = BClaimed then expire_stale_row (stale_ref row a) else tx_return ())
           (\<lambda>_. tx_raise (BudgetExc (BudgetAdmissionDeniedError ''exceeded'' None)))
       else reset_row e row a)))"

fun budget_handler :: "string \<Rightarrow> budget_exc \<Rightarrow> budget_error" where
  "budget_handler msg SqlAlchemyExc = BudgetLedgerUnavailableError msg"
| "budget_handler msg (BudgetExc err) = err"

definition with_connection :: "budget_env \<Rightarrow> 'a budget_tx \<Rightarrow> 'a budget_tx" where
  "with_connection e m = (if be_fault e then tx_raise SqlAlchemyExc else m)"

text \<open>The adapter's constructor keeps a lease of at least one second.\<close>

definition lease_seconds :: "usec \<Rightarrow> usec" where
  "lease_seconds configured = max second configured"

definition claim ::
  "usec \<Rightarrow> budget_env \<Rightarrow> budget_claim_request \<Rightarrow> (budget_db, budget_error, budget_claim option) tx" where
  "claim lease e q = (case validate_claim q of
     Some err \<Rightarrow> tx_raise err
   | None \<Rightarrow> map_error (budget_handler ''budget ledger claim failed'') (service_org_session (with_connection e
       (tx_bind (load_active_period e (bq_org q)) (\<lambda>period. case period of
          None \<Rightarrow> tx_return None
        | Some p \<Rightarrow> tx_bind (build_admission (lease_seconds lease) q p) (\<lambda>a.
            tx_bind (claim_row e a) (\<lambda>c. tx_return (Some c))))))))"

section \<open>Settlement\<close>

definition claim_closed :: budget_error where
  "claim_closed = BudgetLedgerClaimClosedError ''claim is no longer owned''"

definition load_claim_row :: "budget_claim \<Rightarrow> reservation option budget_tx" where
  "load_claim_row c = tx_get (\<lambda>db. sql_first
     (\<lambda>r. br_id r = bc_id c \<and> reservation_has_key (bc_org c) (bc_agent c) (bc_key c) r) (bd_rows db))"

definition stored_rates :: "reservation \<Rightarrow> (int \<times> int) option" where
  "stored_rates row = (case (br_price_in row, br_price_out row) of
     (Some i, Some out) \<Rightarrow> Some (i, out)
   | _ \<Rightarrow> None)"

definition settle_amount :: "reservation \<Rightarrow> int \<Rightarrow> int \<Rightarrow> int \<times> completeness" where
  "settle_amount row input_tokens output_tokens =
     (let fallback = (br_estimated row, COMPLETENESS_ESTIMATED) in
      case stored_rates row of
        None \<Rightarrow> fallback
      | Some (rate_in, rate_out) \<Rightarrow>
          if 0 < input_tokens + output_tokens then
            (case cost_from_rates rate_in rate_out input_tokens output_tokens of
               None \<Rightarrow> fallback
             | Some measured \<Rightarrow> (measured, COMPLETENESS_COMPLETE))
          else fallback)"

definition claim_params :: "budget_claim \<Rightarrow> reservation \<Rightarrow> bool" where
  "claim_params c r \<longleftrightarrow>
     br_id r = bc_id c \<and> reservation_has_key (bc_org c) (bc_agent c) (bc_key c) r \<and>
     br_hash r = bc_hash c \<and> br_version r = bc_version c \<and> br_state r = BClaimed"

definition finalize_fields :: "int \<Rightarrow> completeness \<Rightarrow> reservation \<Rightarrow> reservation" where
  "finalize_fields amount quality r = r\<lparr>br_state := BFinalized, br_final := Some amount,
     br_completeness := Some quality, br_lease := None, br_version := br_version r + 1\<rparr>"

definition release_fields :: "reservation \<Rightarrow> reservation" where
  "release_fields r = r\<lparr>br_state := BReleased, br_lease := None, br_version := br_version r + 1\<rparr>"

definition expect_one :: "reservation list budget_tx \<Rightarrow> unit budget_tx" where
  "expect_one m = tx_bind m (\<lambda>hit.
     if length hit \<noteq> 1 then tx_raise (BudgetExc claim_closed) else tx_return ())"

definition write_finalized :: "budget_claim \<Rightarrow> int \<Rightarrow> completeness \<Rightarrow> unit budget_tx" where
  "write_finalized c amount quality = expect_one (checked_update (claim_params c) (finalize_fields amount quality))"

definition write_released :: "budget_claim \<Rightarrow> unit budget_tx" where
  "write_released c = expect_one (checked_update (claim_params c) release_fields)"

definition replay_finalized ::
  "reservation \<Rightarrow> budget_claim \<Rightarrow> int \<Rightarrow> completeness \<Rightarrow> completeness budget_tx" where
  "replay_finalized row c amount quality =
     (if br_version row = bc_version c + 1 \<and> br_final row = Some amount \<and> br_completeness row = Some quality
      then tx_return quality else tx_raise (BudgetExc claim_closed))"

definition verify_release_replay :: "reservation \<Rightarrow> budget_claim \<Rightarrow> unit budget_tx" where
  "verify_release_replay row c =
     (if br_version row \<noteq> bc_version c + 1 then tx_raise (BudgetExc claim_closed) else tx_return ())"

definition finalize ::
  "budget_env \<Rightarrow> budget_claim \<Rightarrow> int \<Rightarrow> int \<Rightarrow> (budget_db, budget_error, completeness) tx" where
  "finalize e c input_tokens output_tokens =
     map_error (budget_handler ''budget ledger finalize failed'') (service_org_session (with_connection e
       (tx_bind (load_claim_row c) (\<lambda>found. case found of
          None \<Rightarrow> tx_raise (BudgetExc claim_closed)
        | Some row \<Rightarrow>
            let (amount, quality) = settle_amount row input_tokens output_tokens in
            if br_state row = BFinalized then replay_finalized row c amount quality
            else if br_state row \<noteq> BClaimed \<or> br_version row \<noteq> bc_version c
            then tx_raise (BudgetExc claim_closed)
            else tx_bind (write_finalized c amount quality) (\<lambda>_. tx_return quality)))))"

definition release :: "budget_env \<Rightarrow> budget_claim \<Rightarrow> (budget_db, budget_error, unit) tx" where
  "release e c =
     map_error (budget_handler ''budget ledger release failed'') (service_org_session (with_connection e
       (tx_bind (load_claim_row c) (\<lambda>found. case found of
          None \<Rightarrow> tx_raise (BudgetExc claim_closed)
        | Some row \<Rightarrow>
            if br_state row = BReleased then verify_release_replay row c
            else if br_state row \<noteq> BClaimed \<or> br_version row \<noteq> bc_version c
            then tx_raise (BudgetExc claim_closed)
            else write_released c))))"

section \<open>The reaper\<close>

definition validate_sweep :: "int \<Rightarrow> int \<Rightarrow> budget_error option" where
  "validate_sweep grace_seconds batch_limit =
     (if grace_seconds < 0 then Some (BudgetLedgerError ''invalid reaper grace'')
      else if batch_limit \<le> 0 then Some (BudgetLedgerError ''invalid reaper batch limit'')
      else None)"

definition stale_at :: "usec \<Rightarrow> reservation \<Rightarrow> bool" where
  "stale_at deadline r \<longleftrightarrow>
     br_state r = BClaimed \<and> (case br_lease r of None \<Rightarrow> False | Some l \<Rightarrow> l \<le> deadline)"

definition lease_order :: "reservation \<Rightarrow> usec" where
  "lease_order r = (case br_lease r of None \<Rightarrow> 0 | Some l \<Rightarrow> l)"

definition stale_batch :: "usec \<Rightarrow> int \<Rightarrow> reservation list \<Rightarrow> (uuid \<times> int) list" where
  "stale_batch deadline batch_limit rows = map (\<lambda>r. (br_id r, br_version r))
     (take (nat batch_limit) (sort_key lease_order (filter (stale_at deadline) rows)))"

definition expire_stale ::
  "budget_env \<Rightarrow> int \<Rightarrow> int \<Rightarrow> (budget_db, budget_error, nat) tx" where
  "expire_stale e grace_seconds batch_limit = (case validate_sweep grace_seconds batch_limit of
     Some err \<Rightarrow> tx_raise err
   | None \<Rightarrow> map_error (budget_handler ''budget ledger sweep failed'') (service_org_session (with_connection e
       (let deadline = be_now e - grace_seconds * second in
        tx_bind (tx_get (\<lambda>db. stale_batch deadline batch_limit (bd_rows db))) (\<lambda>stale.
        tx_bind (checked_update (\<lambda>r. (br_id r, br_version r) \<in> set stale \<and> stale_at deadline r) expire_fields)
          (\<lambda>expired. tx_return (length expired)))))))"

text \<open>\<open>ping\<close>: table existence and the privileges, all of which must hold.\<close>

definition ping :: "bool list \<Rightarrow> (budget_db, budget_error, unit) tx" where
  "ping probe = service_org_session
     (if list_all (\<lambda>b. b) probe then tx_return ()
      else tx_raise (BudgetLedgerError ''budget reservation ledger is not ready''))"

end
