(* ===== verification/Budget_Effects.thy ===== *)
theory Budget_Effects
  imports Budget_Ledger
begin

text \<open>
  What the clients of \<open>ibex_core.budget_reservations\<close> share: the table's invariant, the live holds
  of a period, and the effects a committed operation may have on the table. The worker
  (\<open>services/worker/app/budget_ledger.py\<close>) and the proxy (\<open>packages/budgetledger/ledger.go\<close>) are
  two clients of the interface \<open>budget_client\<close>: whatever an operation does, it is one of the effects, so
  that every run, of either or of both, keeps the invariant, the cap and the versions.
\<close>

section \<open>The table's invariant\<close>

definition reservation_key :: "reservation \<Rightarrow> uuid \<times> uuid \<times> string" where
  "reservation_key r = (br_org r, br_agent r, br_key r)"

definition budget_inv :: "budget_db \<Rightarrow> bool" where
  "budget_inv db \<longleftrightarrow> distinct (map br_id (bd_rows db)) \<and> distinct (map reservation_key (bd_rows db)) \<and>
     (\<forall>r \<in> set (bd_rows db). br_check r) \<and> distinct (map bp_id (bd_periods db))"

lemma budget_invD:
  assumes "budget_inv db"
  shows "distinct (map br_id (bd_rows db))" and "distinct (map reservation_key (bd_rows db))"
    and "r \<in> set (bd_rows db) \<Longrightarrow> br_check r" and "distinct (map bp_id (bd_periods db))"
  using assms by (auto simp: budget_inv_def)

lemma same_reservation:
  assumes "budget_inv db" and "r \<in> set (bd_rows db)" and "r' \<in> set (bd_rows db)" and "br_id r = br_id r'"
  shows "r = r'"
  by (rule distinct_key_eq [OF budget_invD(1) [OF assms(1)] assms(2-4)])

lemma has_key_reservation: "reservation_has_key org agent key r \<longleftrightarrow> reservation_key r = (org, agent, key)"
  by (auto simp: reservation_has_key_def reservation_key_def)

lemma budget_inv_update:
  assumes "budget_inv db"
    and "\<And>r. r \<in> set (bd_rows db) \<Longrightarrow> p r \<Longrightarrow>
      br_id (f r) = br_id r \<and> reservation_key (f r) = reservation_key r \<and> br_check (f r)"
  shows "budget_inv (db\<lparr>bd_rows := sql_update p f (bd_rows db)\<rparr>)"
proof -
  have "map br_id (sql_update p f (bd_rows db)) = map br_id (bd_rows db)"
    and "map reservation_key (sql_update p f (bd_rows db)) = map reservation_key (bd_rows db)"
    using assms(2) by (simp_all add: map_sql_update)
  with assms show ?thesis by (auto simp: budget_inv_def set_sql_update)
qed

lemma checked_update_Inr:
  "checked_update p f db = (Inr rs, db') \<longleftrightarrow>
     rs = map f (filter p (bd_rows db)) \<and> db' = db\<lparr>bd_rows := sql_update p f (bd_rows db)\<rparr> \<and>
     (\<forall>r \<in> set (bd_rows db). p r \<longrightarrow> br_check (f r))"
  by (auto simp: checked_update_def Let_def list_all_iff)

lemma insert_reservation_Some:
  assumes "insert_reservation e new db = (Inr (Some row), db')"
  shows "row = new" and "br_check row" and "db' = db\<lparr>bd_rows := bd_rows db @ [row]\<rparr>"
    and "br_id row \<notin> br_id ` set (bd_rows db)"
    and "\<forall>r \<in> set (bd_rows db). \<not> reservation_has_key (br_org row) (br_agent row) (br_key row) r"
    and "reservation_key row \<notin> reservation_key ` set (bd_rows db)"
  using assms by (auto simp: insert_reservation_def reservation_has_key_def reservation_key_def image_iff split: if_splits)

section \<open>Live holds\<close>

definition hold :: "usec \<Rightarrow> uuid \<Rightarrow> uuid \<Rightarrow> reservation \<Rightarrow> int" where
  "hold t org_id period_id r = (if held t org_id period_id r then br_estimated r else 0)"

lemma active_holds_sum:
  "active_holds t org per x rows = sum_list (map (\<lambda>r. if Some (br_id r) = x then 0 else hold t org per r) rows)"
  unfolding active_holds_def by (induction rows) (auto simp: hold_def)

lemma active_holds_None: "active_holds t org per None rows = sum_list (map (hold t org per) rows)"
  by (simp add: active_holds_sum)

lemma br_check_estimated: "br_check r \<Longrightarrow> 0 \<le> br_estimated r"
  by (simp add: br_check_def int_column_def)

text \<open>Holds only run out: with the rows unchanged a later reading is never larger.\<close>

lemma hold_antimono: "t \<le> t' \<Longrightarrow> br_check r \<Longrightarrow> hold t' org per r \<le> hold t org per r"
  by (auto simp: hold_def held_def lease_active_def br_check_estimated split: option.splits)

lemma active_holds_antimono:
  assumes "budget_inv db" and "t \<le> t'"
  shows "active_holds t' org per x (bd_rows db) \<le> active_holds t org per x (bd_rows db)"
  unfolding active_holds_sum
  by (rule sum_list_mono) (simp add: assms(2) hold_antimono budget_invD(3) [OF assms(1)])

lemma sum_list_at_most_one:
  assumes "distinct (map k rows)" and "0 \<le> (c :: int)"
  shows "sum_list (map (\<lambda>r. if k r = x then c else 0) rows) \<le> c"
  using assms(1)
proof (induction rows)
  case (Cons r rows)
  have "sum_list (map (\<lambda>r. if k r = x then c else 0) rows) = 0" if "k r = x"
    using Cons.prems that by (induction rows) auto
  with Cons assms(2) show ?case by auto
qed (simp add: assms(2))

text \<open>A row rewritten to \<open>f row\<close> holds at most its new estimate; the other rows hold what they held.\<close>

lemma active_holds_rewrite:
  assumes "budget_inv db" and "row \<in> set (bd_rows db)" and "0 \<le> br_estimated (f row)" and "br_id (f row) = br_id row"
  shows "active_holds t org per None (sql_update (\<lambda>r. br_id r = br_id row) f (bd_rows db))
    \<le> active_holds t org per (Some (br_id row)) (bd_rows db) +
        (if br_org (f row) = org \<and> br_period (f row) = per then br_estimated (f row) else 0)"
    (is "_ \<le> _ + ?c")
proof -
  have "hold t org per (f r) \<le> (if br_id r = br_id row then ?c else 0)"
    if "r \<in> set (bd_rows db)" "br_id r = br_id row" for r
    using same_reservation [OF assms(1) that(1) assms(2) that(2)] assms(3)
    by (auto simp: hold_def held_def)
  then have "active_holds t org per None (sql_update (\<lambda>r. br_id r = br_id row) f (bd_rows db))
      \<le> sum_list (map (\<lambda>r. (if Some (br_id r) = Some (br_id row) then 0 else hold t org per r) +
           (if br_id r = br_id row then ?c else 0)) (bd_rows db))"
    unfolding active_holds_None sql_update_def map_map by (intro sum_list_mono) auto
  also have "\<dots> \<le> active_holds t org per (Some (br_id row)) (bd_rows db) + ?c"
    unfolding active_holds_sum sum_list_addf
    using sum_list_at_most_one [OF budget_invD(1) [OF assms(1)], of ?c "br_id row"] assms(3) by simp
  finally show ?thesis .
qed

lemma active_holds_exclude:
  assumes "budget_inv db"
  shows "active_holds t org per x (bd_rows db) \<le> active_holds t org per None (bd_rows db)"
  unfolding active_holds_sum
  by (rule sum_list_mono) (auto simp: hold_def br_check_estimated dest: budget_invD(3) [OF assms])

definition cap_kept :: "usec \<Rightarrow> budget_db \<Rightarrow> bool" where
  "cap_kept t db \<longleftrightarrow> (\<forall>p \<in> set (bd_periods db).
     active_holds t (bp_org p) (bp_id p) None (bd_rows db) \<le> max 0 (bp_cap p - bp_spent p))"

section \<open>Effects\<close>

text \<open>
  A committed operation leaves the table as it was, adds one row for which the period has room,
  readmits one row within the room the other holds leave, or closes claimed rows. Every rewritten
  row gets the next version.
\<close>

definition room :: "usec \<Rightarrow> budget_period \<Rightarrow> uuid option \<Rightarrow> reservation \<Rightarrow> budget_db \<Rightarrow> bool" where
  "room now p exclude_id row db \<longleftrightarrow> p \<in> set (bd_periods db) \<and> br_org row = bp_org p \<and> br_period row = bp_id p \<and>
     bp_spent p + active_holds now (bp_org p) (bp_id p) exclude_id (bd_rows db) + br_estimated row \<le> bp_cap p"

definition adds :: "usec \<Rightarrow> budget_period \<Rightarrow> reservation \<Rightarrow> budget_db \<Rightarrow> budget_db \<Rightarrow> bool" where
  "adds now p row db db' \<longleftrightarrow> room now p None row db \<and> br_check row \<and>
     db' = db\<lparr>bd_rows := bd_rows db @ [row]\<rparr> \<and> br_id row \<notin> br_id ` set (bd_rows db) \<and>
     reservation_key row \<notin> reservation_key ` set (bd_rows db)"

definition readmits ::
  "usec \<Rightarrow> budget_period \<Rightarrow> reservation \<Rightarrow> (reservation \<Rightarrow> reservation) \<Rightarrow> budget_db \<Rightarrow> budget_db \<Rightarrow> bool" where
  "readmits now p row f db db' \<longleftrightarrow> room now p (Some (br_id row)) (f row) db \<and> row \<in> set (bd_rows db) \<and>
     br_check (f row) \<and> br_id (f row) = br_id row \<and> reservation_key (f row) = reservation_key row \<and>
     br_version (f row) = br_version row + 1 \<and>
     db' = db\<lparr>bd_rows := sql_update (\<lambda>r. br_id r = br_id row) f (bd_rows db)\<rparr>"

definition closes ::
  "(reservation \<Rightarrow> bool) \<Rightarrow> (reservation \<Rightarrow> reservation) \<Rightarrow> budget_db \<Rightarrow> budget_db \<Rightarrow> bool" where
  "closes p f db db' \<longleftrightarrow> db' = db\<lparr>bd_rows := sql_update p f (bd_rows db)\<rparr> \<and>
     (\<forall>r \<in> set (bd_rows db). p r \<longrightarrow> br_state r = BClaimed \<and> br_state (f r) \<noteq> BClaimed \<and>
        br_id (f r) = br_id r \<and> reservation_key (f r) = reservation_key r \<and> br_check (f r) \<and>
        br_hash (f r) = br_hash r \<and> br_version (f r) = br_version r + 1)"


inductive effect :: "usec \<Rightarrow> budget_db \<Rightarrow> budget_db \<Rightarrow> bool" for now where
  same: "effect now db db"
| added: "adds now p row db db' \<Longrightarrow> effect now db db'"
| rewritten: "readmits now p row f db db' \<Longrightarrow> effect now db db'"
| closed: "closes p f db db' \<Longrightarrow> effect now db db'"

lemma effect_inv:
  assumes "effect now db db'" and "budget_inv db"
  shows "budget_inv db' \<and> bd_periods db' = bd_periods db"
  using assms
proof (cases rule: effect.cases)
  case (added p row)
  with assms(2) show ?thesis by (auto simp: adds_def budget_inv_def)
next
  case (rewritten p row f)
  have "br_id (f r) = br_id r \<and> reservation_key (f r) = reservation_key r \<and> br_check (f r)"
    if "r \<in> set (bd_rows db)" and "br_id r = br_id row" for r
    using rewritten same_reservation [OF assms(2) that(1) _ that(2)] by (simp add: readmits_def)
  from budget_inv_update [OF assms(2) this] rewritten show ?thesis by (simp add: readmits_def)
next
  case (closed p f)
  then show ?thesis by (simp add: closes_def budget_inv_update [OF assms(2)])
qed (use assms(2) in simp)

lemma cap_kept_period:
  assumes "budget_inv db" and "cap_kept t db" and "now \<le> t" and "room now p x row db" and "bd_periods db' = bd_periods db"
    and "\<And>org per. active_holds t org per None (bd_rows db') \<le> active_holds t org per x (bd_rows db)
      + (if br_org row = org \<and> br_period row = per then br_estimated row else 0)"
  shows "cap_kept t db'"
  unfolding cap_kept_def
proof
  fix p' assume "p' \<in> set (bd_periods db')"
  then have mem: "p' \<in> set (bd_periods db)" by (simp add: assms(5))
  show "active_holds t (bp_org p') (bp_id p') None (bd_rows db') \<le> max 0 (bp_cap p' - bp_spent p')"
  proof (cases "p' = p")
    case True
    then show ?thesis
      using assms(4) assms(6) [of "bp_org p" "bp_id p"] active_holds_antimono [OF assms(1,3), of "bp_org p" "bp_id p" x]
      unfolding room_def by (simp only: if_True simp_thms) linarith
  next
    case False
    then have "bp_id p' \<noteq> bp_id p"
      using assms(4) mem distinct_key_eq [OF budget_invD(4) [OF assms(1)], of p' p] by (auto simp: room_def)
    then have "active_holds t (bp_org p') (bp_id p') None (bd_rows db') \<le> active_holds t (bp_org p') (bp_id p') x (bd_rows db)"
      using assms(4) assms(6) [of "bp_org p'" "bp_id p'"] by (simp add: room_def)
    also have "\<dots> \<le> active_holds t (bp_org p') (bp_id p') None (bd_rows db)" by (rule active_holds_exclude [OF assms(1)])
    finally show ?thesis using assms(2) mem by (auto simp: cap_kept_def)
  qed
qed

lemma active_holds_closes:
  assumes "closes p f db db'" and "budget_inv db"
  shows "active_holds t org per None (bd_rows db') \<le> active_holds t org per None (bd_rows db)"
proof -
  have "hold t org per (if p r then f r else r) \<le> hold t org per r" if "r \<in> set (bd_rows db)" for r
    using assms that br_check_estimated [OF budget_invD(3) [OF assms(2) that]]
    by (auto simp: closes_def hold_def held_def)
  with assms(1) show ?thesis
    by (simp add: closes_def active_holds_None sql_update_def o_def sum_list_mono)
qed

lemma effect_cap_kept:
  assumes "effect now db db'" and "budget_inv db" and "cap_kept t db" and "now \<le> t"
  shows "cap_kept t db'"
  using assms(1)
proof (cases rule: effect.cases)
  case (added p row)
  then have "active_holds t org per None (bd_rows db') \<le> active_holds t org per None (bd_rows db)
      + (if br_org row = org \<and> br_period row = per then br_estimated row else 0)" for org per
    using br_check_estimated [of row] by (auto simp: adds_def active_holds_None hold_def held_def)
  moreover have "room now p None row db" "bd_periods db' = bd_periods db" using added by (simp_all add: adds_def)
  ultimately show ?thesis by (intro cap_kept_period [OF assms(2-4)])
next
  case (rewritten p row f)
  then have "active_holds t org per None (bd_rows db') \<le> active_holds t org per (Some (br_id row)) (bd_rows db)
      + (if br_org (f row) = org \<and> br_period (f row) = per then br_estimated (f row) else 0)" for org per
    using active_holds_rewrite [OF assms(2), of row f] br_check_estimated [of "f row"] by (simp add: readmits_def)
  moreover have "room now p (Some (br_id row)) (f row) db" "bd_periods db' = bd_periods db"
    using rewritten by (simp_all add: readmits_def)
  ultimately show ?thesis by (intro cap_kept_period [OF assms(2-4)])
next
  case (closed p f)
  then have "bd_periods db' = bd_periods db" by (simp add: closes_def)
  with assms(3) active_holds_closes [OF closed assms(2)] show ?thesis
    unfolding cap_kept_def by (metis order_trans)
qed (use assms(3) in simp)

section \<open>Versions\<close>

text \<open>
  Rows are never removed, and a row is rewritten only together with a larger version: a row seen
  later with the same version is the same row.
\<close>

definition row_follows :: "reservation \<Rightarrow> reservation \<Rightarrow> bool" where
  "row_follows r r' \<longleftrightarrow> br_id r' = br_id r \<and> reservation_key r' = reservation_key r \<and>
     (r' = r \<or> br_version r < br_version r')"

definition follows :: "budget_db \<Rightarrow> budget_db \<Rightarrow> bool" where
  "follows db db' \<longleftrightarrow> (\<forall>r \<in> set (bd_rows db). \<exists>r' \<in> set (bd_rows db'). row_follows r r')"

lemma row_follows_trans: "row_follows r r' \<Longrightarrow> row_follows r' r'' \<Longrightarrow> row_follows r r''"
  by (auto simp: row_follows_def)

lemma follows_refl: "follows db db"
  by (auto simp: follows_def row_follows_def)

lemma follows_trans: "follows db db' \<Longrightarrow> follows db' db'' \<Longrightarrow> follows db db''"
  unfolding follows_def by (meson row_follows_trans)

lemma follows_update:
  assumes "db' = db\<lparr>bd_rows := sql_update p f (bd_rows db)\<rparr>"
    and "\<And>r. r \<in> set (bd_rows db) \<Longrightarrow> p r \<Longrightarrow> row_follows r (f r)"
  shows "follows db db'"
  unfolding follows_def
proof
  fix r assume r: "r \<in> set (bd_rows db)"
  show "\<exists>r' \<in> set (bd_rows db'). row_follows r r'"
  proof (cases "p r")
    case True
    with r assms show ?thesis by (intro bexI [of _ "f r"]) (auto simp: set_sql_update)
  next
    case False
    with r assms(1) show ?thesis
      by (intro bexI [of _ r]) (auto simp: set_sql_update row_follows_def)
  qed
qed

lemma effect_follows:
  assumes "effect now db db'" and "budget_inv db"
  shows "follows db db'"
  using assms(1)
proof (cases rule: effect.cases)
  case same
  then show ?thesis by (simp add: follows_refl)
next
  case (added p row)
  then show ?thesis by (auto simp: adds_def follows_def row_follows_def)
next
  case (rewritten p row f)
  have "row_follows r (f r)" if "r \<in> set (bd_rows db)" and "br_id r = br_id row" for r
    using rewritten same_reservation [OF assms(2) that(1) _ that(2)] by (simp add: readmits_def row_follows_def)
  then show ?thesis using rewritten
    by (intro follows_update [where p = "\<lambda>r. br_id r = br_id row" and f = f]) (simp_all add: readmits_def)
next
  case (closed p f)
  then show ?thesis
    by (intro follows_update [where p = p and f = f]) (simp_all add: closes_def row_follows_def)
qed

section \<open>The interface of a client\<close>

text \<open>
  A client runs commands: a command has the clock of its transaction, a failed one leaves the table alone,
  and a committed one has one of the effects, provided it is legal in the state it runs in.
\<close>

fun run_legal :: "('c \<Rightarrow> budget_db \<Rightarrow> bool) \<Rightarrow> ('c \<Rightarrow> budget_db \<Rightarrow> 'x \<times> budget_db) \<Rightarrow> 'c list \<Rightarrow> budget_db \<Rightarrow> bool" where
  "run_legal legal exec [] db = True"
| "run_legal legal exec (c # cs) db \<longleftrightarrow> legal c db \<and> run_legal legal exec cs (snd (exec c db))"

locale budget_client = transactional exec
  for exec :: "'c \<Rightarrow> budget_db \<Rightarrow> ('e + 'r) \<times> budget_db" +
  fixes clock :: "'c \<Rightarrow> usec" and legal :: "'c \<Rightarrow> budget_db \<Rightarrow> bool"
  assumes commit: "budget_inv db \<Longrightarrow> legal c db \<Longrightarrow> exec c db = (Inr r, db') \<Longrightarrow> effect (clock c) db db'"
begin

lemma exec_effect:
  assumes "budget_inv db" and "legal c db"
  shows "effect (clock c) db (snd (exec c db))"
proof (cases "fst (exec c db)")
  case (Inl x)
  then show ?thesis by (simp add: rollback [OF Inl] same)
next
  case (Inr r)
  then show ?thesis by (intro commit [OF assms, of r]) (simp add: prod_eq_iff)
qed

lemma run_keeps:
  assumes "budget_inv db" and "run_legal legal exec cs db"
  shows "budget_inv (run_all exec cs db) \<and> bd_periods (run_all exec cs db) = bd_periods db \<and>
    follows db (run_all exec cs db)"
  using assms
proof (induction cs arbitrary: db)
  case (Cons c cs)
  from Cons.prems have e: "effect (clock c) db (snd (exec c db))" by (intro exec_effect) simp_all
  note step = effect_inv [OF e Cons.prems(1)] effect_follows [OF e Cons.prems(1)]
  have "run_legal legal exec cs (snd (exec c db))" using Cons.prems(2) by simp
  from Cons.IH [OF _ this] step follows_trans show ?case by auto
qed (simp add: follows_refl)

lemma run_cap_kept:
  assumes "budget_inv db" and "run_legal legal exec cs db" and "cap_kept t db" and "\<forall>c \<in> set cs. clock c \<le> t"
  shows "cap_kept t (run_all exec cs db)"
  using assms
proof (induction cs arbitrary: db)
  case (Cons c cs)
  from Cons.prems have e: "effect (clock c) db (snd (exec c db))" by (intro exec_effect) simp_all
  have "cap_kept t (snd (exec c db))" "budget_inv (snd (exec c db))"
    using effect_cap_kept [OF e Cons.prems(1,3)] effect_inv [OF e Cons.prems(1)] Cons.prems(4) by simp_all
  with Cons.IH Cons.prems(2,4) show ?case by simp
qed simp

end

end
