(* ===== verification/Budget_System.thy ===== *)
theory Budget_System
  imports Budget_Effects
begin

text \<open>
  Properties of the budget ledger over sequences of operations: the table's invariant, the cap
  under arbitrary interleavings of claims, settlements and sweeps, fencing of stale owners,
  idempotent settlement and the reaper.
\<close>

section \<open>Inversion of the operations\<close>

lemma with_connection_Inr:
  "with_connection e m db = (Inr a, db') \<longleftrightarrow> \<not> be_fault e \<and> m db = (Inr a, db')"
  by (simp add: with_connection_def tx_raise_def)

lemma insert_sql_Some:
  assumes "insert_sql e a db = (Inr (Some row), db')"
  shows "row = new_reservation e a" and "br_check row"
    and "db' = db\<lparr>bd_rows := bd_rows db @ [row]\<rparr>"
    and "br_id row \<notin> br_id ` set (bd_rows db)"
    and "\<forall>r \<in> set (bd_rows db). \<not> reservation_has_key (br_org row) (br_agent row) (br_key row) r"
  using insert_reservation_Some [OF assms [unfolded insert_sql_def]] by simp_all

text \<open>What an admission freezes: the request, the period's cap and spend, the matched rates.\<close>

lemma build_admission_Inr:
  assumes "build_admission lease q p db = (Inr a, db')"
  shows "db' = db" and "ad_request a = q" and "ad_period a = bp_id p" and "ad_cap a = bp_cap p"
    and "ad_spent a = bp_spent p" and "ad_lease a = lease"
    and "cost_from_rates (ad_price_in a) (ad_price_out a) (bq_input q) (bq_output q) = Some (ad_estimated a)"
proof -
  from assms obtain c price est
    where card: "load_card (bq_org q) db = (Inr c, db')"
      and m: "match_price (card_prices c) (bq_provider q) (bq_model q) = Some price"
      and est: "estimate_cost c (bq_provider q) (bq_model q) (bq_input q) (bq_output q) = Some est"
      and a: "a = \<lparr>ad_request = q, ad_period = bp_id p, ad_cap = bp_cap p, ad_spent = bp_spent p,
          ad_estimated = est, ad_price_in = pr_input price, ad_price_out = pr_output price,
          ad_lease = lease\<rparr>"
    by (auto simp: build_admission_def tx_inv split: option.splits)
  from card show "db' = db"
    by (auto simp: load_card_def tx_inv split: option.splits sum.splits)
  from est m show "cost_from_rates (ad_price_in a) (ad_price_out a) (bq_input q) (bq_output q) = Some (ad_estimated a)"
    by (auto simp: a elim!: estimate_cost_Some)
qed (use assms in \<open>auto simp: build_admission_def tx_inv split: option.splits\<close>)

lemma claim_Some:
  assumes "claim lease e q db = (Inr (Some c), db')"
  obtains p a where "p \<in> set (bd_periods db)" and "bp_org p = bq_org q" and "bp_mode p = Hard_cap"
    and "bp_start p \<le> be_now e" and "be_now e < bp_end p"
    and "build_admission (lease_seconds lease) q p db = (Inr a, db)"
    and "claim_row e a db = (Inr c, db')"
proof -
  from assms obtain p a
    where p: "sql_max bp_start (filter (\<lambda>p. bp_org p = bq_org q \<and> bp_start p \<le> be_now e \<and>
        be_now e < bp_end p \<and> bp_mode p = Hard_cap) (bd_periods db)) = Some p"
      and a: "build_admission (lease_seconds lease) q p db = (Inr a, db)"
      and c: "claim_row e a db = (Inr c, db')"
    by (auto simp: claim_def load_active_period_def tx_inv with_connection_Inr
        dest: build_admission_Inr(1) split: option.splits)
  from sql_max_Some [OF p] show thesis by (intro that [OF _ _ _ _ _ a c]) auto
qed

lemma claim_None_unchanged: "claim lease e q db = (Inr None, db') \<Longrightarrow> db' = db"
  by (auto simp: claim_def load_active_period_def tx_inv with_connection_Inr split: option.splits)

definition reusable :: "usec \<Rightarrow> reservation \<Rightarrow> bool" where
  "reusable now r \<longleftrightarrow> br_state r \<noteq> BClaimed \<or> \<not> lease_active now r"

lemma claim_row_Inr:
  assumes "claim_row e a db = (Inr c, db')"
  obtains
    (inserted) row where "row = new_reservation e a" and "br_check row"
      and "db' = db\<lparr>bd_rows := bd_rows db @ [row]\<rparr>" and "br_id row \<notin> br_id ` set (bd_rows db)"
      and "\<forall>r \<in> set (bd_rows db). \<not> reservation_has_key (br_org row) (br_agent row) (br_key row) r"
      and "\<not> exceeds a (active_holds (be_now e) (bq_org (ad_request a)) (ad_period a) None (bd_rows db))"
      and "c = claim_from_row row a"
  | (reset) row r where "row \<in> set (bd_rows db)"
      and "reservation_has_key (bq_org (ad_request a)) (bq_agent (ad_request a)) (bq_key (ad_request a)) row"
      and "br_hash row = bq_hash (ad_request a)" and "reusable (be_now e) row"
      and "\<not> exceeds a (active_holds (be_now e) (bq_org (ad_request a)) (ad_period a) (Some (br_id row)) (bd_rows db))"
      and "db' = db\<lparr>bd_rows := sql_update (reset_guard e a row) (reset_fields e a) (bd_rows db)\<rparr>"
      and "\<forall>r \<in> set (bd_rows db). reset_guard e a row r \<longrightarrow> br_check (reset_fields e a r)"
      and "r \<in> set (bd_rows db)" and "reset_guard e a row r"
      and "c = claim_from_row (reset_fields e a r) a"
proof -
  let ?key = "reservation_has_key (bq_org (ad_request a)) (bq_agent (ad_request a)) (bq_key (ad_request a))"
  show thesis
  proof (cases "sql_first ?key (bd_rows db)")
    case None
    with assms obtain row
      where "insert_sql e a db = (Inr (Some row), db')" and "c = claim_from_row row a"
        and "\<not> exceeds a (active_holds (be_now e) (bq_org (ad_request a)) (ad_period a) None (bd_rows db))"
      by (auto simp: claim_row_def lock_row_def insert_row_def Let_def tx_inv
          split: if_splits option.splits)
    then show thesis using insert_sql_Some [of e a db row db'] inserted [of row] by simp
  next
    case (Some row)
    with assms have re: "br_hash row = bq_hash (ad_request a)" "reusable (be_now e) row"
      and ex: "\<not> exceeds a (active_holds (be_now e) (bq_org (ad_request a)) (ad_period a) (Some (br_id row)) (bd_rows db))"
      and rs: "reset_row e row a db = (Inr c, db')"
      by (auto simp: claim_row_def lock_row_def Let_def tx_inv ensure_reusable_def reusable_def
          split: if_splits)
    from rs obtain r rest where hit: "r # rest = map (reset_fields e a) (filter (reset_guard e a row) (bd_rows db))"
      and upd: "db' = db\<lparr>bd_rows := sql_update (reset_guard e a row) (reset_fields e a) (bd_rows db)\<rparr>"
        "\<forall>r \<in> set (bd_rows db). reset_guard e a row r \<longrightarrow> br_check (reset_fields e a r)"
      and c: "c = claim_from_row r a"
      by (auto simp: reset_row_def tx_inv checked_update_Inr split: list.splits)
    from hit have "r \<in> set (map (reset_fields e a) (filter (reset_guard e a row) (bd_rows db)))"
      by (metis list.set_intros(1))
    then obtain r' where "r' \<in> set (bd_rows db)" "reset_guard e a row r'" "r = reset_fields e a r'"
      by auto
    with sql_first_Some [OF Some] re ex upd c show thesis by (intro reset [of row r']) simp_all
  qed
qed

section \<open>The table's invariant\<close>

lemmas field_defs = reset_fields_def expire_fields_def finalize_fields_def release_fields_def

lemma fields_keep [simp]:
  "br_id (reset_fields e a r) = br_id r" "reservation_key (reset_fields e a r) = reservation_key r"
  "br_id (expire_fields r) = br_id r" "reservation_key (expire_fields r) = reservation_key r"
  "br_id (finalize_fields x y r) = br_id r" "reservation_key (finalize_fields x y r) = reservation_key r"
  "br_id (release_fields r) = br_id r" "reservation_key (release_fields r) = reservation_key r"
  by (simp_all add: field_defs reservation_key_def)

text \<open>A settlement that returns either replays a settled row or writes the one row it owns.\<close>

lemma finalize_Inr:
  assumes "budget_inv db" and "finalize e c i out db = (Inr quality, db')"
  obtains
    (replay) row amount where "row \<in> set (bd_rows db)" and "br_id row = bc_id c"
      and "br_state row = BFinalized" and "settle_amount row i out = (amount, quality)"
      and "br_version row = bc_version c + 1" and "br_final row = Some amount"
      and "br_completeness row = Some quality" and "db' = db"
  | (written) row amount where "row \<in> set (bd_rows db)" and "claim_params c row"
      and "settle_amount row i out = (amount, quality)" and "br_check (finalize_fields amount quality row)"
      and "db' = db\<lparr>bd_rows := sql_update (claim_params c) (finalize_fields amount quality) (bd_rows db)\<rparr>"
proof -
  from assms(2) obtain row where found: "sql_first (\<lambda>r. br_id r = bc_id c \<and>
      reservation_has_key (bc_org c) (bc_agent c) (bc_key c) r) (bd_rows db) = Some row"
    by (auto simp: finalize_def tx_inv with_connection_Inr load_claim_row_def split: option.splits)
  then have row: "row \<in> set (bd_rows db)" "br_id row = bc_id c" by (auto dest: sql_first_Some)
  obtain amount q where settle: "settle_amount row i out = (amount, q)" by fastforce
  consider (fin) "br_state row = BFinalized" "replay_finalized row c amount q db = (Inr quality, db')"
    | (own) "q = quality" "write_finalized c amount q db = (Inr (), db')"
    using assms(2) found settle
    by (auto simp: finalize_def tx_inv with_connection_Inr load_claim_row_def split: if_splits)
  then show thesis
  proof cases
    case fin
    with row settle show thesis
      by (intro replay [of row amount]) (auto simp: replay_finalized_def tx_inv split: if_splits)
  next
    case own
    then have len: "length (filter (claim_params c) (bd_rows db)) = 1"
      and db': "db' = db\<lparr>bd_rows := sql_update (claim_params c) (finalize_fields amount quality) (bd_rows db)\<rparr>"
      and ok: "\<forall>r \<in> set (bd_rows db). claim_params c r \<longrightarrow> br_check (finalize_fields amount quality r)"
      by (auto simp: write_finalized_def expect_one_def tx_inv checked_update_Inr split: if_splits)
    from len obtain r where "filter (claim_params c) (bd_rows db) = [r]"
      by (auto simp: length_Suc_conv)
    then have r: "r \<in> set (bd_rows db)" "claim_params c r" by (auto simp: filter_eq_Cons_iff)
    then have "r = row" using row by (intro same_reservation [OF assms(1)]) (auto simp: claim_params_def)
    with r ok settle own db' show thesis by (intro written [of row amount]) auto
  qed
qed

lemma release_Inr:
  assumes "release e c db = (Inr u, db')"
  obtains
    (replay) row where "row \<in> set (bd_rows db)" and "br_id row = bc_id c" and "br_state row = BReleased"
      and "br_version row = bc_version c + 1" and "db' = db"
  | (written) row where "row \<in> set (bd_rows db)" and "claim_params c row"
      and "\<forall>r \<in> set (bd_rows db). claim_params c r \<longrightarrow> br_check (release_fields r)"
      and "db' = db\<lparr>bd_rows := sql_update (claim_params c) release_fields (bd_rows db)\<rparr>"
proof -
  from assms obtain row where found: "sql_first (\<lambda>r. br_id r = bc_id c \<and>
      reservation_has_key (bc_org c) (bc_agent c) (bc_key c) r) (bd_rows db) = Some row"
    by (auto simp: release_def tx_inv with_connection_Inr load_claim_row_def split: option.splits)
  then have row: "row \<in> set (bd_rows db)" "br_id row = bc_id c" by (auto dest: sql_first_Some)
  consider (rel) "br_state row = BReleased" "verify_release_replay row c db = (Inr (), db')"
    | (own) "write_released c db = (Inr (), db')"
    using assms found
    by (auto simp: release_def tx_inv with_connection_Inr load_claim_row_def split: if_splits)
  then show thesis
  proof cases
    case rel
    with row show thesis
      by (intro replay [of row]) (auto simp: verify_release_replay_def tx_inv split: if_splits)
  next
    case own
    then have len: "length (filter (claim_params c) (bd_rows db)) = 1"
      and db': "db' = db\<lparr>bd_rows := sql_update (claim_params c) release_fields (bd_rows db)\<rparr>"
      and ok: "\<forall>r \<in> set (bd_rows db). claim_params c r \<longrightarrow> br_check (release_fields r)"
      by (auto simp: write_released_def expect_one_def tx_inv checked_update_Inr split: if_splits)
    from len obtain r where "filter (claim_params c) (bd_rows db) = [r]"
      by (auto simp: length_Suc_conv)
    with ok db' show thesis by (intro written [of r]) (auto simp: filter_eq_Cons_iff)
  qed
qed

lemma expire_stale_Inr:
  assumes "expire_stale e grace limit db = (Inr n, db')"
  shows "0 \<le> grace" and "0 < limit"
    and "n = length (filter (\<lambda>r. (br_id r, br_version r) \<in>
        set (stale_batch (be_now e - grace * second) limit (bd_rows db)) \<and> stale_at (be_now e - grace * second) r) (bd_rows db))"
    and "db' = db\<lparr>bd_rows := sql_update (\<lambda>r. (br_id r, br_version r) \<in>
        set (stale_batch (be_now e - grace * second) limit (bd_rows db)) \<and> stale_at (be_now e - grace * second) r)
        expire_fields (bd_rows db)\<rparr>"
    and "\<And>r. r \<in> set (bd_rows db) \<Longrightarrow> (br_id r, br_version r) \<in>
        set (stale_batch (be_now e - grace * second) limit (bd_rows db)) \<Longrightarrow>
        stale_at (be_now e - grace * second) r \<Longrightarrow> br_check (expire_fields r)"
  using assms
  by (auto simp: expire_stale_def validate_sweep_def Let_def tx_inv with_connection_Inr checked_update_Inr
      split: option.splits if_splits)

section \<open>Runs\<close>

datatype budget_cmd =
    BClaim budget_claim_request
  | BFinalize budget_claim int int
  | BRelease budget_claim
  | BSweep int int

datatype budget_result = RClaim "budget_claim option" | RFinalize completeness | RRelease | RSweep nat

fun exec_budget ::
  "usec \<Rightarrow> budget_env \<times> budget_cmd \<Rightarrow> (budget_db, budget_error, budget_result) tx" where
  "exec_budget lease (e, BClaim q) = tx_bind (claim lease e q) (\<lambda>c. tx_return (RClaim c))"
| "exec_budget lease (e, BFinalize c i out) = tx_bind (finalize e c i out) (\<lambda>k. tx_return (RFinalize k))"
| "exec_budget lease (e, BRelease c) = tx_bind (release e c) (\<lambda>_. tx_return RRelease)"
| "exec_budget lease (e, BSweep g n) = tx_bind (expire_stale e g n) (\<lambda>k. tx_return (RSweep k))"

lemma budget_claim_rollback: "fst (claim lease e q db) = Inl x \<Longrightarrow> snd (claim lease e q db) = db"
  unfolding claim_def by (cases "validate_claim q") (auto simp: tx_raise_def dest: scoped_rollback)

lemma expire_stale_rollback: "fst (expire_stale e g n db) = Inl x \<Longrightarrow> snd (expire_stale e g n db) = db"
  unfolding expire_stale_def
  by (cases "validate_sweep g n") (auto simp: tx_raise_def dest: scoped_rollback)

lemma finalize_rollback: "fst (finalize e c i out db) = Inl x \<Longrightarrow> snd (finalize e c i out db) = db"
  unfolding finalize_def by (rule scoped_rollback)

lemma release_rollback: "fst (release e c db) = Inl x \<Longrightarrow> snd (release e c db) = db"
  unfolding release_def by (rule scoped_rollback)

lemma exec_budget_rollback:
  "fst (exec_budget lease c db) = Inl x \<Longrightarrow> snd (exec_budget lease c db) = db"
  by (cases "(lease, c)" rule: exec_budget.cases)
    (auto elim!: bind_return_rollback dest: budget_claim_rollback expire_stale_rollback finalize_rollback
      release_rollback)

text \<open>
  The four effects an operation can have on the table: none, one admitted row inserted, one
  reusable row reset by an admission, or claimed rows closed.
\<close>

definition admitted :: "usec \<Rightarrow> budget_env \<Rightarrow> budget_db \<Rightarrow> budget_period \<Rightarrow> admission \<Rightarrow> bool" where
  "admitted lease e db p a \<longleftrightarrow> p \<in> set (bd_periods db) \<and> bp_org p = bq_org (ad_request a) \<and>
     ad_period a = bp_id p \<and> ad_cap a = bp_cap p \<and> ad_spent a = bp_spent p \<and>
     ad_lease a = lease_seconds lease \<and> 0 \<le> ad_estimated a"

definition inserts :: "budget_env \<Rightarrow> admission \<Rightarrow> budget_db \<Rightarrow> budget_db \<Rightarrow> bool" where
  "inserts e a db db' \<longleftrightarrow> (let row = new_reservation e a in
     br_check row \<and> db' = db\<lparr>bd_rows := bd_rows db @ [row]\<rparr> \<and> br_id row \<notin> br_id ` set (bd_rows db) \<and>
     reservation_key row \<notin> reservation_key ` set (bd_rows db) \<and>
     \<not> exceeds a (active_holds (be_now e) (bq_org (ad_request a)) (ad_period a) None (bd_rows db)))"

definition resets :: "budget_env \<Rightarrow> admission \<Rightarrow> reservation \<Rightarrow> budget_db \<Rightarrow> budget_db \<Rightarrow> bool" where
  "resets e a row db db' \<longleftrightarrow> row \<in> set (bd_rows db) \<and> reusable (be_now e) row \<and>
     br_hash row = bq_hash (ad_request a) \<and> br_org row = bq_org (ad_request a) \<and>
     br_check (reset_fields e a row) \<and>
     db' = db\<lparr>bd_rows := sql_update (\<lambda>r. br_id r = br_id row) (reset_fields e a) (bd_rows db)\<rparr> \<and>
     \<not> exceeds a (active_holds (be_now e) (bq_org (ad_request a)) (ad_period a) (Some (br_id row)) (bd_rows db))"

lemma reset_guard_unique:
  assumes "budget_inv db" and "row \<in> set (bd_rows db)" and "r \<in> set (bd_rows db)"
    and "reservation_has_key (bq_org (ad_request a)) (bq_agent (ad_request a)) (bq_key (ad_request a)) row"
    and "reusable (be_now e) row"
  shows "reset_guard e a row r \<longleftrightarrow> br_id r = br_id row"
proof
  assume "br_id r = br_id row"
  then have "r = row" by (rule same_reservation [OF assms(1,3,2)])
  moreover have "br_check row" by (rule budget_invD(3) [OF assms(1,2)])
  ultimately show "reset_guard e a row r" using assms(4,5)
    by (auto simp: reset_guard_def Let_def reusable_def lease_active_def br_check_def split: option.splits)
qed (simp add: reset_guard_def Let_def)

lemma claim_effect:
  assumes inv: "budget_inv db" and "claim lease e q db = (Inr (Some c), db')"
  obtains
    (inserted) p a where "admitted lease e db p a" and "ad_request a = q" and "inserts e a db db'"
      and "c = claim_from_row (new_reservation e a) a"
      and "cost_from_rates (ad_price_in a) (ad_price_out a) (bq_input q) (bq_output q) = Some (ad_estimated a)"
  | (reset) p a row where "admitted lease e db p a" and "ad_request a = q" and "resets e a row db db'"
      and "reservation_key row = (bq_org q, bq_agent q, bq_key q)"
      and "c = claim_from_row (reset_fields e a row) a"
      and "cost_from_rates (ad_price_in a) (ad_price_out a) (bq_input q) (bq_output q) = Some (ad_estimated a)"
proof -
  from claim_Some [OF assms(2)] obtain p a where p: "p \<in> set (bd_periods db)" "bp_org p = bq_org q"
    and build: "build_admission (lease_seconds lease) q p db = (Inr a, db)"
    and row: "claim_row e a db = (Inr c, db')" by metis
  note b = build_admission_Inr [OF build]
  have adm: "admitted lease e db p a"
    using p b cost_from_rates_nonneg [OF b(7)] by (simp add: admitted_def)
  from row show thesis
  proof (cases rule: claim_row_Inr)
    case (inserted r)
    have "reservation_key r \<notin> reservation_key ` set (bd_rows db)"
      using inserted(5) by (auto simp: reservation_has_key_def reservation_key_def)
    with inserted have "inserts e a db db'" by (simp add: inserts_def Let_def)
    with inserted show thesis using that(1) [OF adm b(2) _ _ b(7)] by simp
  next
    case (reset row r)
    have g: "reset_guard e a row x \<longleftrightarrow> br_id x = br_id row" if "x \<in> set (bd_rows db)" for x
      by (rule reset_guard_unique [OF inv reset(1) that reset(2,4)])
    have "r = row" using same_reservation [OF inv reset(8,1)] g [OF reset(8)] reset(9) by simp
    moreover have "sql_update (reset_guard e a row) (reset_fields e a) (bd_rows db) =
        sql_update (\<lambda>r. br_id r = br_id row) (reset_fields e a) (bd_rows db)"
      using g by (simp add: sql_update_def)
    ultimately have "resets e a row db db'" using reset g [OF reset(1)]
      by (auto simp: resets_def reservation_has_key_def)
    moreover have "reservation_key row = (bq_org q, bq_agent q, bq_key q)"
      using reset(2) b(2) by (simp add: has_key_reservation)
    ultimately show thesis using that(2) [OF adm b(2) _ _ _ b(7)] reset(10) \<open>r = row\<close> by simp
  qed
qed

lemma inserts_adds:
  assumes "admitted lease e db p a" and "inserts e a db db'"
  shows "adds (be_now e) p (new_reservation e a) db db'"
  using assms unfolding inserts_def adds_def room_def admitted_def exceeds_def Let_def
  by (auto simp: new_reservation_def Let_def)

lemma resets_readmits:
  assumes "admitted lease e db p a" and "resets e a row db db'"
  shows "readmits (be_now e) p row (reset_fields e a) db db'"
  using assms unfolding resets_def readmits_def room_def admitted_def exceeds_def
  by (auto simp: reset_fields_def reservation_key_def)

lemma claim_keeps_effect:
  assumes "budget_inv db" and "claim lease e q db = (Inr c, db')"
  shows "effect (be_now e) db db'"
proof (cases c)
  case None
  with assms(2) have "db' = db" by (simp add: claim_None_unchanged)
  then show ?thesis by (simp add: same)
next
  case (Some k)
  from assms(1) assms(2) [unfolded Some] show ?thesis
    by (cases rule: claim_effect) (auto intro: added [OF inserts_adds] rewritten [OF resets_readmits])
qed

lemma finalize_effect:
  assumes "budget_inv db" and "finalize e c i out db = (Inr k, db')"
  shows "effect (be_now e) db db'"
  using assms
proof (cases rule: finalize_Inr)
  case (written row amount)
  have "br_check (finalize_fields amount k r)" if "r \<in> set (bd_rows db)" and "claim_params c r" for r
    using same_reservation [OF assms(1) that(1) written(1)] that(2) written(2,4)
    by (simp add: claim_params_def)
  with written(5) have "closes (claim_params c) (finalize_fields amount k) db db'"
    by (simp add: closes_def) (simp add: claim_params_def finalize_fields_def)
  then show ?thesis by (rule closed)
qed (simp add: same)

lemma release_effect:
  assumes "release e c db = (Inr u, db')"
  shows "effect (be_now e) db db'"
  using assms
proof (cases rule: release_Inr)
  case (written row)
  from written(3,4) have "closes (claim_params c) release_fields db db'"
    by (simp add: closes_def) (simp add: claim_params_def release_fields_def)
  then show ?thesis by (rule closed)
qed (simp add: same)

lemma expire_stale_effect:
  assumes "expire_stale e g n db = (Inr k, db')"
  shows "effect (be_now e) db db'"
proof -
  from expire_stale_Inr [OF assms] have "closes (\<lambda>r. (br_id r, br_version r) \<in>
      set (stale_batch (be_now e - g * second) n (bd_rows db)) \<and> stale_at (be_now e - g * second) r)
      expire_fields db db'"
    by (simp add: closes_def) (simp add: stale_at_def expire_fields_def)
  then show ?thesis by (rule closed)
qed

lemma exec_budget_effect:
  assumes "budget_inv db" and "exec_budget lease (e, cmd) db = (Inr res, db')"
  shows "effect (be_now e) db db'"
  using assms(2)
  by (cases cmd) (auto simp: tx_inv intro: claim_keeps_effect [OF assms(1)] finalize_effect [OF assms(1)]
      release_effect expire_stale_effect)

lemma exec_budget_inv:
  assumes "budget_inv db" and "exec_budget lease (e, cmd) db = (Inr res, db')"
  shows "budget_inv db' \<and> bd_periods db' = bd_periods db"
  by (rule effect_inv [OF exec_budget_effect [OF assms] assms(1)])

text \<open>The worker is a client of the table, every command legal.\<close>

interpretation wrk: budget_client "exec_budget lease" "\<lambda>(e, cmd). be_now e" "\<lambda>_ _. True" for lease
proof
  show "snd (exec_budget lease c db) = db" if "fst (exec_budget lease c db) = Inl x" for lease c db x
    using that by (rule exec_budget_rollback)
  show "effect (case c of (e, cmd) \<Rightarrow> be_now e) db db'"
    if "budget_inv db" "exec_budget lease c db = (Inr r, db')" for lease c r db db'
    using that by (cases c) (simp add: exec_budget_effect)
qed

lemma run_legal_True: "run_legal (\<lambda>_ _. True) exec cs db"
  by (induction cs arbitrary: db) simp_all

lemmas worker_run = wrk.run_keeps [OF _ run_legal_True]

end
