(* ===== verification/Budget_Guarantees.thy ===== *)
theory Budget_Guarantees
  imports Budget_System
begin

text \<open>
  What the budget ledger guarantees over runs of claims, settlements and sweeps: the cap, fencing,
  settlement at the frozen rates, idempotent settlement and the reaper's batch.
\<close>

text \<open>The row a claim leaves behind: claimed, at the claim's version, with the matched rates frozen.\<close>

definition claim_row_of :: "budget_claim_request \<Rightarrow> budget_claim \<Rightarrow> reservation \<Rightarrow> bool" where
  "claim_row_of q c r \<longleftrightarrow> br_id r = bc_id c \<and> br_version r = bc_version c \<and> br_state r = BClaimed \<and>
     reservation_key r = (bc_org c, bc_agent c, bc_key c) \<and> br_hash r = bc_hash c \<and>
     bc_org c = bq_org q \<and> bc_agent c = bq_agent q \<and> bc_key c = bq_key q \<and> bc_hash c = bq_hash q \<and>
     (\<exists>i out. br_price_in r = Some i \<and> br_price_out r = Some out \<and>
        cost_from_rates i out (bq_input q) (bq_output q) = Some (br_estimated r))"

lemma claim_leaves_row:
  assumes inv: "budget_inv db" and c: "claim lease e q db = (Inr (Some c), db')"
  obtains r where "r \<in> set (bd_rows db')" and "claim_row_of q c r" and "budget_inv db'" and "follows db db'"
proof -
  have ex: "exec_budget lease (e, BClaim q) db = (Inr (RClaim (Some c)), db')"
    using c by (simp add: tx_inv)
  note eff = exec_budget_effect [OF inv ex]
  have inv': "budget_inv db'" using effect_inv [OF eff inv] by simp
  note fol = effect_follows [OF eff inv]
  from inv c show thesis
  proof (cases rule: claim_effect)
    case (inserted p a)
    then show thesis using inv' fol
      by (intro that [of "new_reservation e a"])
        (auto simp: inserts_def Let_def claim_row_of_def claim_from_row_def new_reservation_def
          reservation_key_def)
  next
    case (reset p a row)
    then show thesis using inv' fol
      by (intro that [of "reset_fields e a row"])
        (auto simp: resets_def set_sql_update claim_row_of_def claim_from_row_def Let_def,
         auto simp: reset_fields_def)
  qed
qed

text \<open>The row of a claim later: itself, or one with a larger version.\<close>

lemma claim_row_later:
  assumes "claim_row_of q c r" and "row_follows r r'"
  shows "br_id r' = bc_id c \<and> reservation_key r' = (bc_org c, bc_agent c, bc_key c) \<and>
    (r' = r \<or> bc_version c < br_version r')"
  using assms by (auto simp: claim_row_of_def row_follows_def)

lemma load_claim_row_of:
  assumes "budget_inv db" and "r \<in> set (bd_rows db)" and "br_id r = bc_id c"
    and "reservation_key r = (bc_org c, bc_agent c, bc_key c)"
  shows "load_claim_row c db = (Inr (Some r), db)"
proof -
  have "sql_first (\<lambda>r. br_id r = bc_id c \<and> reservation_has_key (bc_org c) (bc_agent c) (bc_key c) r)
      (bd_rows db) = Some r"
    using assms
    by (intro sql_first_unique [OF budget_invD(1) [OF assms(1)]]) (simp_all add: has_key_reservation)
  then show ?thesis by (simp add: load_claim_row_def tx_get_def)
qed

text \<open>A settlement at an outdated version is refused unless it repeats the one that settled the row.\<close>

lemma settlement_closed:
  assumes "load_claim_row c db = (Inr (Some r), db)" and "\<not> be_fault e"
    and "br_version r \<noteq> bc_version c"
    and "br_version r = bc_version c + 1 \<Longrightarrow> br_state r = BClaimed"
  shows "finalize e c i out db = (Inl claim_closed, db)" and "release e c db = (Inl claim_closed, db)"
  using assms
  by (auto simp: finalize_def release_def with_connection_def tx_bind_def tx_raise_def scope_defs
      replay_finalized_def verify_release_replay_def Let_def split: prod.splits)

lemma reclaim_bumps:
  assumes inv: "budget_inv db" and c: "claim lease e q db = (Inr (Some c), db')"
    and row: "row \<in> set (bd_rows db)" "reservation_key row = (bq_org q, bq_agent q, bq_key q)"
  shows "bc_id c = br_id row" and "bc_version c = br_version row + 1"
proof -
  have "bc_id c = br_id row \<and> bc_version c = br_version row + 1"
    using inv c
  proof (cases rule: claim_effect)
    case (inserted p a)
    then have "reservation_key (new_reservation e a) = reservation_key row"
      using row(2) by (simp add: reservation_key_def new_reservation_def Let_def)
    with inserted(3) row(1) show ?thesis by (auto simp: inserts_def Let_def)
  next
    case (reset p a row')
    then have "row' = row" using row
      by (intro distinct_key_eq [OF budget_invD(2) [OF inv]]) (simp_all add: resets_def)
    with reset show ?thesis by (simp add: claim_from_row_def Let_def) (simp add: reset_fields_def)
  qed
  then show "bc_id c = br_id row" and "bc_version c = br_version row + 1" by simp_all
qed

section \<open>A sample database\<close>

definition sample_hash :: string where
  "sample_hash = replicate 64 (CHR ''a'')"

definition sample_db :: budget_db where
  "sample_db = \<lparr>bd_rows = [],
     bd_periods = [\<lparr>bp_id = 7, bp_org = 1, bp_start = 0, bp_end = 100000 * second, bp_cap = 100,
        bp_spent = 10, bp_mode = Hard_cap\<rparr>],
     bd_cards = [\<lparr>rk_id = 3, rk_org = 1, rk_published = True, rk_updated = 0\<rparr>],
     bd_versions = [\<lparr>rv_id = 4, rv_card = 3, rv_org = 1, rv_version = ''v1'',
        rv_prices = Inr [\<lparr>pr_provider = ''OpenAI'', pr_model_pattern = ''gpt-*'', pr_input = 10, pr_output = 20\<rparr>],
        rv_published_at = 0\<rparr>]\<rparr>"

definition sample_env :: "usec \<Rightarrow> uuid \<Rightarrow> budget_env" where
  "sample_env now i = \<lparr>be_now = now * second, be_uuid = i, be_orgs = [1], be_agents = [2], be_fault = False\<rparr>"

definition sample_request :: "string \<Rightarrow> budget_claim_request" where
  "sample_request key = \<lparr>bq_org = 1, bq_agent = 2, bq_key = key, bq_hash = sample_hash,
     bq_provider = ''openai '', bq_model = ''gpt-4o'', bq_input = 1000, bq_output = 1000\<rparr>"

definition sample_claim :: "int \<Rightarrow> budget_claim" where
  "sample_claim v = \<lparr>bc_id = 9, bc_org = 1, bc_agent = 2, bc_key = ''k'', bc_hash = sample_hash,
     bc_period = 7, bc_provider = ''openai '', bc_model = ''gpt-4o'', bc_version = v\<rparr>"

definition sample_row :: "int \<Rightarrow> usec \<Rightarrow> reservation" where
  "sample_row v lease = \<lparr>br_id = 9, br_org = 1, br_agent = 2, br_period = 7, br_key = ''k'',
     br_hash = sample_hash, br_state = BClaimed, br_estimated = 30, br_price_in = Some 10,
     br_price_out = Some 20, br_final = None, br_completeness = None, br_lease = Some (lease * second),
     br_version = v, br_created = 0\<rparr>"

lemma sample_inv: "budget_inv sample_db"
  by (simp add: budget_inv_def sample_db_def)

lemma sample_claimed:
  "claim (900 * second) (sample_env 0 9) (sample_request ''k'') sample_db =
     (Inr (Some (sample_claim 1)), sample_db\<lparr>bd_rows := [sample_row 1 900]\<rparr>)"
  by code_simp

lemma sample_reclaimed:
  "claim (900 * second) (sample_env 1000 11) (sample_request ''k'') (sample_db\<lparr>bd_rows := [sample_row 1 900]\<rparr>) =
     (Inr (Some (sample_claim 2)), sample_db\<lparr>bd_rows := [sample_row 2 1900]\<rparr>)"
  by code_simp

section \<open>Guarantees\<close>

text \<open>
  C9. The hard cap. Whatever claims, settlements and sweeps run, in any order, with whatever
  transaction clocks, at every instant not before the clocks of the run the live holds of every
  budget period stay within what the cap leaves after the recorded spend, if the table keeps its
  invariant and this holds at that instant before the run.
\<close>

theorem hard_cap_respected:
  assumes "budget_inv db" and "cap_kept t db" and "\<forall>(e, cmd) \<in> set cs. be_now e \<le> t"
    and "p \<in> set (bd_periods db)"
  shows "active_holds t (bp_org p) (bp_id p) None (bd_rows (run_all (exec_budget lease) cs db))
    \<le> max 0 (bp_cap p - bp_spent p)"
proof -
  have "cap_kept t (run_all (exec_budget lease) cs db)"
    using assms(3) by (intro wrk.run_cap_kept [OF assms(1) run_legal_True assms(2)]) auto
  moreover have "bd_periods (run_all (exec_budget lease) cs db) = bd_periods db"
    using worker_run [OF assms(1)] by simp
  ultimately show ?thesis using assms(4) by (simp add: cap_kept_def)
qed

theorem hard_cap_respected_witness:
  "active_holds (500 * second) 1 7 None (bd_rows (run_all (exec_budget (900 * second))
     [(sample_env 0 9, BClaim (sample_request ''k'')), (sample_env 5 10, BClaim (sample_request ''k2'')),
      (sample_env 3 11, BClaim (sample_request ''k3'')), (sample_env 4 12, BClaim (sample_request ''k4''))]
     sample_db)) \<le> 90"
proof -
  have "cap_kept (500 * second) sample_db"
    by (simp add: cap_kept_def sample_db_def active_holds_def)
  moreover have "\<lparr>bp_id = 7, bp_org = 1, bp_start = 0, bp_end = 100000 * second, bp_cap = 100,
      bp_spent = 10, bp_mode = Hard_cap\<rparr> \<in> set (bd_periods sample_db)"
    by (simp add: sample_db_def)
  ultimately show ?thesis
    using hard_cap_respected [OF sample_inv, of "500 * second"
        "[(sample_env 0 9, BClaim (sample_request ''k'')), (sample_env 5 10, BClaim (sample_request ''k2'')),
          (sample_env 3 11, BClaim (sample_request ''k3'')), (sample_env 4 12, BClaim (sample_request ''k4''))]"
        "\<lparr>bp_id = 7, bp_org = 1, bp_start = 0, bp_end = 100000 * second, bp_cap = 100,
          bp_spent = 10, bp_mode = Hard_cap\<rparr>" "900 * second"]
    by (simp add: sample_env_def)
qed

text \<open>
  C17. Fencing. Once a reservation was admitted again for the same organisation, agent and key,
  the earlier claim can neither finalise nor release it, whatever ran in between and since, and
  the attempt changes nothing.
\<close>

theorem stale_claim_closed:
  assumes "budget_inv db" and "claim lease e1 q1 db = (Inr (Some c1), db1)"
    and "claim lease e2 q2 (run_all (exec_budget lease) cs db1) = (Inr (Some c2), db3)"
    and "bq_org q2 = bq_org q1" and "bq_agent q2 = bq_agent q1" and "bq_key q2 = bq_key q1"
    and "db4 = run_all (exec_budget lease) cs' db3" and "\<not> be_fault e"
  shows "finalize e c1 i out db4 = (Inl claim_closed, db4) \<and> release e c1 db4 = (Inl claim_closed, db4)"
proof -
  let ?db2 = "run_all (exec_budget lease) cs db1"
  from claim_leaves_row [OF assms(1,2)] obtain r1
    where r1: "r1 \<in> set (bd_rows db1)" "claim_row_of q1 c1 r1" and inv1: "budget_inv db1" by metis
  have inv2: "budget_inv ?db2" using worker_run [OF inv1] by simp
  from worker_run [OF inv1] r1(1) obtain r2 where r2: "r2 \<in> set (bd_rows ?db2)" "row_follows r1 r2"
    unfolding follows_def by blast
  have "reservation_key r2 = (bq_org q2, bq_agent q2, bq_key q2)"
    using r1(2) r2(2) assms(4-6) by (simp add: claim_row_of_def row_follows_def)
  note bump = reclaim_bumps [OF inv2 assms(3) r2(1) this]
  have later: "bc_id c2 = bc_id c1" "bc_version c1 < bc_version c2"
    using bump claim_row_later [OF r1(2) r2(2)] r1(2) by (auto simp: claim_row_of_def)
  from claim_leaves_row [OF inv2 assms(3)] obtain r3
    where r3: "r3 \<in> set (bd_rows db3)" "claim_row_of q2 c2 r3" and inv3: "budget_inv db3" by metis
  have inv4: "budget_inv db4" unfolding assms(7) using worker_run [OF inv3] by simp
  from worker_run [OF inv3] r3(1) obtain r4 where r4: "r4 \<in> set (bd_rows db4)" "row_follows r3 r4"
    unfolding follows_def assms(7) by blast
  note r4' = claim_row_later [OF r3(2) r4(2)]
  have "reservation_key r4 = (bc_org c1, bc_agent c1, bc_key c1)"
    using r4' r3(2) r1(2) assms(4-6) by (simp add: claim_row_of_def)
  then have load: "load_claim_row c1 db4 = (Inr (Some r4), db4)"
    using r4' later(1) by (intro load_claim_row_of [OF inv4 r4(1)]) simp_all
  have "br_version r4 \<noteq> bc_version c1" and "br_version r4 = bc_version c1 + 1 \<Longrightarrow> br_state r4 = BClaimed"
    using r4' later(2) r3(2) by (auto simp: claim_row_of_def)
  then show ?thesis using settlement_closed [OF load assms(8)] by simp
qed

theorem stale_claim_closed_witness:
  "finalize (sample_env 1200 0) (sample_claim 1) 5 5 (sample_db\<lparr>bd_rows := [sample_row 2 1900]\<rparr>) =
     (Inl claim_closed, sample_db\<lparr>bd_rows := [sample_row 2 1900]\<rparr>)"
proof -
  have again: "claim (900 * second) (sample_env 1000 11) (sample_request ''k'')
      (run_all (exec_budget (900 * second)) [] (sample_db\<lparr>bd_rows := [sample_row 1 900]\<rparr>)) =
      (Inr (Some (sample_claim 2)), sample_db\<lparr>bd_rows := [sample_row 2 1900]\<rparr>)"
    unfolding run_all.simps by (rule sample_reclaimed)
  have "\<not> be_fault (sample_env 1200 0)" by (simp add: sample_env_def)
  then show ?thesis
    using stale_claim_closed [OF sample_inv sample_claimed again refl refl refl, where cs' = "[]"] by simp
qed

text \<open>A settlement measured at the stored rates never exceeds the hold when usage stays within the estimate.\<close>

lemma settle_within_hold:
  assumes r: "claim_row_of q c r" and s: "settle_amount r i out = (amount, k)"
    and le: "i \<le> bq_input q" "out \<le> bq_output q"
  shows "amount \<le> br_estimated r"
proof -
  from r obtain ri ro where rates: "br_price_in r = Some ri" "br_price_out r = Some ro"
    and est: "cost_from_rates ri ro (bq_input q) (bq_output q) = Some (br_estimated r)"
    by (auto simp: claim_row_of_def)
  show ?thesis
  proof (cases "0 < i + out \<and> cost_from_rates ri ro i out \<noteq> None")
    case True
    then obtain m where m: "cost_from_rates ri ro i out = Some m" by auto
    then have "m \<le> br_estimated r"
      using est le by (rule cost_from_rates_mono)
    with s rates m True show ?thesis by (simp add: settle_amount_def stored_rates_def Let_def)
  next
    case False
    with s rates show ?thesis
      by (auto simp: settle_amount_def stored_rates_def Let_def split: if_splits option.splits)
  qed
qed

text \<open>The least whole number of cents that covers so many tokens at a rate per thousand.\<close>

definition covering_cents :: "int \<Rightarrow> int \<Rightarrow> int" where
  "covering_cents rate tokens = - ((- (tokens * rate)) div 1000)"

lemma cost_from_rates_covering:
  "cost_from_rates ri ro i out =
     (if 0 \<le> i \<and> 0 \<le> out \<and> 0 \<le> ri \<and> 0 \<le> ro then Some (covering_cents ri i + covering_cents ro out) else None)"
proof -
  have "ceil_mul_div_1k t r = covering_cents r t" for t r
    unfolding ceil_mul_div_1k_def covering_cents_def by auto
  then show ?thesis by (simp add: cost_from_rates_def)
qed

lemma settle_charges:
  assumes r: "claim_row_of q c r" and s: "settle_amount r i out = (amount, k)"
  obtains ri ro where "br_price_in r = Some ri" and "br_price_out r = Some ro"
    and "br_estimated r = covering_cents ri (bq_input q) + covering_cents ro (bq_output q)"
    and "(amount, k) = (if 0 \<le> i \<and> 0 \<le> out \<and> 0 < i + out
      then (covering_cents ri i + covering_cents ro out, COMPLETENESS_COMPLETE)
      else (br_estimated r, COMPLETENESS_ESTIMATED))"
proof -
  from r obtain ri ro where "br_price_in r = Some ri" "br_price_out r = Some ro"
    "cost_from_rates ri ro (bq_input q) (bq_output q) = Some (br_estimated r)"
    by (auto simp: claim_row_of_def)
  then show ?thesis using s that [of ri ro]
    by (auto simp: settle_amount_def stored_rates_def cost_from_rates_covering Let_def split: if_splits)
qed

text \<open>
  C22. Settlement uses the rates frozen by the claim. If a claim's finalisation writes the table,
  however much ran in between, the reservation is finalised at an amount fixed by the row the
  claim left: when the reported counts are not negative and not both zero, the least whole
  cents that cover the input tokens plus the least that cover the output tokens, at the two
  rates stored by the claim, marked complete; otherwise the claim's own estimate, marked
  estimated. The estimate is the same price of the requested tokens, so the amount is within
  the hold whenever the usage is within the estimated tokens.
\<close>

theorem settled_at_claim_rates:
  assumes "budget_inv db" and "claim lease e q db = (Inr (Some c), db1)"
    and "db2 = run_all (exec_budget lease) cs db1" and "finalize e' c i out db2 = (Inr k, db3)"
    and "db3 \<noteq> db2"
  shows "\<exists>r1 \<in> set (bd_rows db1). \<exists>r3 \<in> set (bd_rows db3). \<exists>ri ro amount.
    br_id r1 = bc_id c \<and> br_id r3 = bc_id c \<and> br_state r3 = BFinalized \<and>
    br_final r3 = Some amount \<and> br_completeness r3 = Some k \<and>
    br_price_in r1 = Some ri \<and> br_price_out r1 = Some ro \<and>
    br_estimated r1 = covering_cents ri (bq_input q) + covering_cents ro (bq_output q) \<and>
    (amount, k) = (if 0 \<le> i \<and> 0 \<le> out \<and> 0 < i + out
      then (covering_cents ri i + covering_cents ro out, COMPLETENESS_COMPLETE)
      else (br_estimated r1, COMPLETENESS_ESTIMATED)) \<and>
    (i \<le> bq_input q \<and> out \<le> bq_output q \<longrightarrow> amount \<le> br_estimated r1)"
proof -
  from claim_leaves_row [OF assms(1,2)] obtain r1
    where r1: "r1 \<in> set (bd_rows db1)" "claim_row_of q c r1" and inv1: "budget_inv db1" by metis
  have inv2: "budget_inv db2" unfolding assms(3) using worker_run [OF inv1] by simp
  from worker_run [OF inv1] r1(1) obtain r2 where r2: "r2 \<in> set (bd_rows db2)" "row_follows r1 r2"
    unfolding follows_def assms(3) by blast
  from inv2 assms(4) show ?thesis
  proof (cases rule: finalize_Inr)
    case (written row amount)
    have "row = r2" using written(1,2) r2 claim_row_later [OF r1(2) r2(2)]
      by (intro same_reservation [OF inv2]) (auto simp: claim_params_def)
    then have row: "row = r1" using written(2) claim_row_later [OF r1(2) r2(2)] by (auto simp: claim_params_def)
    then have r3: "finalize_fields amount k r1 \<in> set (bd_rows db3)"
      using written by (auto simp: set_sql_update)
    have s: "settle_amount r1 i out = (amount, k)" using written(3) row by simp
    obtain ri ro where rates: "br_price_in r1 = Some ri" "br_price_out r1 = Some ro"
      "br_estimated r1 = covering_cents ri (bq_input q) + covering_cents ro (bq_output q)"
      "(amount, k) = (if 0 \<le> i \<and> 0 \<le> out \<and> 0 < i + out
        then (covering_cents ri i + covering_cents ro out, COMPLETENESS_COMPLETE)
        else (br_estimated r1, COMPLETENESS_ESTIMATED))"
      by (rule settle_charges [OF r1(2) s])
    moreover have "i \<le> bq_input q \<and> out \<le> bq_output q \<longrightarrow> amount \<le> br_estimated r1"
      using settle_within_hold [OF r1(2) s] by blast
    moreover have "br_id r1 = bc_id c" using r1(2) by (simp add: claim_row_of_def)
    ultimately show ?thesis using r1(1) r3
      by (intro bexI [of _ r1] bexI [of _ "finalize_fields amount k r1"] exI [of _ ri] exI [of _ ro] exI [of _ amount])
        (simp_all add: finalize_fields_def)
  qed (use assms(5) in simp)
qed

definition sample_final :: reservation where
  "sample_final = (sample_row 1 900)\<lparr>br_state := BFinalized, br_final := Some 16,
     br_completeness := Some COMPLETENESS_COMPLETE, br_lease := None, br_version := 2\<rparr>"

lemma sample_finalized:
  "finalize (sample_env 100 0) (sample_claim 1) 500 550 (sample_db\<lparr>bd_rows := [sample_row 1 900]\<rparr>) =
     (Inr COMPLETENESS_COMPLETE, sample_db\<lparr>bd_rows := [sample_final]\<rparr>)"
  by code_simp

theorem settled_at_claim_rates_witness:
  "\<exists>r1 \<in> {sample_row 1 900}. \<exists>r3 \<in> {sample_final}. \<exists>amount.
     br_final r3 = Some amount \<and> amount = covering_cents 10 500 + covering_cents 20 550 \<and>
     amount \<le> br_estimated r1"
proof -
  have run: "sample_db\<lparr>bd_rows := [sample_row 1 900]\<rparr> =
      run_all (exec_budget (900 * second)) [] (sample_db\<lparr>bd_rows := [sample_row 1 900]\<rparr>)" by simp
  have "sample_db\<lparr>bd_rows := [sample_final]\<rparr> \<noteq> sample_db\<lparr>bd_rows := [sample_row 1 900]\<rparr>" by code_simp
  from settled_at_claim_rates [OF sample_inv sample_claimed run sample_finalized this]
  show ?thesis by (simp add: sample_request_def sample_row_def)
qed

text \<open>
  C23. Settlement is idempotent: repeating a finalisation with the same usage, or a release,
  returns the same answer and writes nothing more.
\<close>

theorem settlement_idempotent:
  assumes "budget_inv db" and "\<not> be_fault e'"
  shows "(finalize e c i out db = (Inr k, db') \<longrightarrow> finalize e' c i out db' = (Inr k, db')) \<and>
    (release e c db = (Inr (), db') \<longrightarrow> release e' c db' = (Inr (), db'))"
proof (intro conjI impI)
  assume fin: "finalize e c i out db = (Inr k, db')"
  then have inv': "budget_inv db'"
    using exec_budget_inv [OF assms(1), of 0 e "BFinalize c i out"] by (simp add: tx_inv)
  have "\<exists>r amount. load_claim_row c db' = (Inr (Some r), db') \<and> br_state r = BFinalized \<and>
      settle_amount r i out = (amount, k) \<and> br_version r = bc_version c + 1 \<and>
      br_final r = Some amount \<and> br_completeness r = Some k"
    using assms(1) fin
  proof (cases rule: finalize_Inr)
    case (replay row amount)
    from fin replay obtain row' where "load_claim_row c db' = (Inr (Some row'), db')"
      by (auto simp: finalize_def tx_inv with_connection_Inr load_claim_row_def tx_get_def split: option.splits)
    moreover have "row' = row" using calculation replay
      by (intro same_reservation [OF assms(1)])
        (auto simp: load_claim_row_def tx_get_def dest!: sql_first_Some)
    ultimately show ?thesis using replay by blast
  next
    case (written row amount)
    let ?r = "finalize_fields amount k row"
    have "load_claim_row c db' = (Inr (Some ?r), db')"
      using written by (intro load_claim_row_of [OF inv'])
        (auto simp: set_sql_update claim_params_def has_key_reservation)
    moreover have "settle_amount ?r i out = settle_amount row i out"
      by (simp add: settle_amount_def stored_rates_def finalize_fields_def)
    ultimately show ?thesis using written
      by (intro exI [of _ ?r] exI [of _ amount]) (auto simp: claim_params_def finalize_fields_def)
  qed
  then obtain r amount where "load_claim_row c db' = (Inr (Some r), db')" "br_state r = BFinalized"
    "settle_amount r i out = (amount, k)" "br_version r = bc_version c + 1"
    "br_final r = Some amount" "br_completeness r = Some k" by blast
  then show "finalize e' c i out db' = (Inr k, db')" using assms(2)
    by (simp add: finalize_def with_connection_def tx_bind_def tx_return_def scope_defs replay_finalized_def)
next
  assume rel: "release e c db = (Inr (), db')"
  then have inv': "budget_inv db'"
    using exec_budget_inv [OF assms(1), of 0 e "BRelease c"] by (simp add: tx_inv)
  have "\<exists>r. load_claim_row c db' = (Inr (Some r), db') \<and> br_state r = BReleased \<and>
      br_version r = bc_version c + 1"
    using rel
  proof (cases rule: release_Inr)
    case (replay row)
    from rel replay obtain row' where "load_claim_row c db' = (Inr (Some row'), db')"
      by (auto simp: release_def tx_inv with_connection_Inr load_claim_row_def tx_get_def split: option.splits)
    moreover have "row' = row" using calculation replay
      by (intro same_reservation [OF assms(1)])
        (auto simp: load_claim_row_def tx_get_def dest!: sql_first_Some)
    ultimately show ?thesis using replay by blast
  next
    case (written row)
    let ?r = "release_fields row"
    have "load_claim_row c db' = (Inr (Some ?r), db')"
      using written by (intro load_claim_row_of [OF inv'])
        (auto simp: set_sql_update claim_params_def has_key_reservation)
    then show ?thesis using written
      by (intro exI [of _ ?r]) (auto simp: claim_params_def release_fields_def)
  qed
  then show "release e' c db' = (Inr (), db')" using assms(2)
    by (auto simp: release_def with_connection_def tx_bind_def tx_return_def scope_defs verify_release_replay_def)
qed

theorem settlement_idempotent_witness:
  "finalize (sample_env 200 0) (sample_claim 1) 500 550 (sample_db\<lparr>bd_rows := [sample_final]\<rparr>) =
     (Inr COMPLETENESS_COMPLETE, sample_db\<lparr>bd_rows := [sample_final]\<rparr>)"
proof -
  have "budget_inv (sample_db\<lparr>bd_rows := [sample_row 1 900]\<rparr>)"
    by (rule claim_leaves_row [OF sample_inv sample_claimed])
  then show ?thesis
    using settlement_idempotent [of _ "sample_env 200 0"] sample_finalized
    by (simp add: sample_env_def)
qed

text \<open>
  C28. A reservation that is no longer held can be taken up again: for a key whose row is released,
  expired, finalised or claimed with a lapsed lease and carries the same request hash, a claim
  that finds an active period, a price and room under the cap, and whose values fit the table's
  columns, returns a claim on that row one version later. The row keeps no trace of an earlier
  settlement.
\<close>

theorem reusable_reservation_claimed:
  assumes "budget_inv db" and "row \<in> set (bd_rows db)" and "reusable (be_now e) row"
    and "reservation_key row = (bq_org q, bq_agent q, bq_key q)" and "br_hash row = bq_hash q"
    and "\<not> be_fault e" and "validate_claim q = None"
    and "load_active_period e (bq_org q) db = (Inr (Some p), db)"
    and "build_admission (lease_seconds lease) q p db = (Inr a, db)"
    and "\<not> exceeds a (active_holds (be_now e) (bq_org q) (ad_period a) (Some (br_id row)) (bd_rows db))"
    and "br_check (reset_fields e a row)"
  shows "\<exists>c db'. claim lease e q db = (Inr (Some c), db') \<and> bc_id c = br_id row \<and>
    bc_version c = br_version row + 1 \<and>
    (\<exists>r \<in> set (bd_rows db'). br_id r = br_id row \<and> br_state r = BClaimed \<and> br_final r = None \<and>
       br_completeness r = None \<and> br_lease r = Some (be_now e + lease_seconds lease))"
proof -
  note b = build_admission_Inr [OF assms(9)]
  let ?key = "reservation_has_key (bq_org q) (bq_agent q) (bq_key q)"
  have key: "?key row" using assms(4) by (simp add: has_key_reservation)
  have found: "sql_first ?key (bd_rows db) = Some row"
    using assms(4) by (intro sql_first_unique [OF budget_invD(2) [OF assms(1)] assms(2)])
      (simp_all add: has_key_reservation)
  have guard: "reset_guard e a row r \<longleftrightarrow> br_id r = br_id row" if "r \<in> set (bd_rows db)" for r
    by (rule reset_guard_unique [OF assms(1,2) that _ assms(3)]) (use key b(2) in simp)
  have hit: "filter (reset_guard e a row) (bd_rows db) = [row]"
    using guard [OF assms(2)]
    by (intro filter_unique [OF budget_invD(1) [OF assms(1)] assms(2)])
      (auto simp: reset_guard_def Let_def)
  have reset: "reset_row e row a db = (Inr (claim_from_row (reset_fields e a row) a),
      db\<lparr>bd_rows := sql_update (reset_guard e a row) (reset_fields e a) (bd_rows db)\<rparr>)"
    using hit assms(11) by (simp add: reset_row_def checked_update_def tx_bind_def tx_return_def Let_def)
  have "claim_row e a db = (Inr (claim_from_row (reset_fields e a row) a),
      db\<lparr>bd_rows := sql_update (reset_guard e a row) (reset_fields e a) (bd_rows db)\<rparr>)"
    using found assms(3,5,10) reset b(2)
    by (auto simp: claim_row_def lock_row_def tx_bind_def tx_get_def tx_return_def tx_raise_def
        ensure_reusable_def reusable_def)
  then have "claim lease e q db = (Inr (Some (claim_from_row (reset_fields e a row) a)),
      db\<lparr>bd_rows := sql_update (reset_guard e a row) (reset_fields e a) (bd_rows db)\<rparr>)"
    using assms(6-9) by (simp add: claim_def with_connection_def tx_bind_def tx_return_def scope_defs)
  moreover have "reset_fields e a row \<in> set (sql_update (reset_guard e a row) (reset_fields e a) (bd_rows db))"
    using assms(2) guard [OF assms(2)] by (auto simp: set_sql_update)
  ultimately show ?thesis using b(6)
    by (auto simp: claim_from_row_def Let_def intro!: bexI [of _ "reset_fields e a row"])
      (simp_all add: reset_fields_def)
qed

definition sample_admission :: admission where
  "sample_admission = \<lparr>ad_request = sample_request ''k'', ad_period = 7, ad_cap = 100, ad_spent = 10,
     ad_estimated = 30, ad_price_in = 10, ad_price_out = 20, ad_lease = 900 * second\<rparr>"

theorem reusable_reservation_claimed_witness:
  "\<exists>c db'. claim (900 * second) (sample_env 300 0) (sample_request ''k'') (sample_db\<lparr>bd_rows := [sample_final]\<rparr>) =
     (Inr (Some c), db') \<and> bc_id c = 9 \<and> bc_version c = 3 \<and>
     (\<exists>r \<in> set (bd_rows db'). br_id r = 9 \<and> br_state r = BClaimed \<and> br_final r = None)"
proof -
  let ?db = "sample_db\<lparr>bd_rows := [sample_final]\<rparr>"
  let ?p = "\<lparr>bp_id = 7, bp_org = 1, bp_start = 0, bp_end = 100000 * second, bp_cap = 100,
        bp_spent = 10, bp_mode = Hard_cap\<rparr>"
  have "budget_inv (sample_db\<lparr>bd_rows := [sample_row 1 900]\<rparr>)"
    by (rule claim_leaves_row [OF sample_inv sample_claimed])
  then have inv: "budget_inv ?db"
    using exec_budget_inv [of _ 0 "sample_env 100 0" "BFinalize (sample_claim 1) 500 550"] sample_finalized
    by (simp add: tx_inv)
  have row: "sample_final \<in> set (bd_rows ?db)" by simp
  have 1: "reusable (be_now (sample_env 300 0)) sample_final" by code_simp
  have 2: "reservation_key sample_final = (bq_org (sample_request ''k''), bq_agent (sample_request ''k''), bq_key (sample_request ''k''))"
    by code_simp
  have 3: "br_hash sample_final = bq_hash (sample_request ''k'')" by code_simp
  have 4: "\<not> be_fault (sample_env 300 0)" by code_simp
  have 5: "validate_claim (sample_request ''k'') = None" by code_simp
  have 6: "load_active_period (sample_env 300 0) (bq_org (sample_request ''k'')) ?db = (Inr (Some ?p), ?db)"
    by code_simp
  have 7: "build_admission (lease_seconds (900 * second)) (sample_request ''k'') ?p ?db = (Inr sample_admission, ?db)"
    by code_simp
  have 8: "\<not> exceeds sample_admission (active_holds (be_now (sample_env 300 0)) (bq_org (sample_request ''k''))
      (ad_period sample_admission) (Some (br_id sample_final)) (bd_rows ?db))" by code_simp
  have 9: "br_check (reset_fields (sample_env 300 0) sample_admission sample_final)" by code_simp
  have ids: "br_id sample_final = 9" "br_version sample_final = 2" by code_simp+
  from reusable_reservation_claimed [OF inv row 1 2 3 4 5 6 7 8 9] ids show ?thesis by auto
qed

text \<open>
  C29. The expiry in \<open>_claim_row\<close> has no effect: for a key whose claimed row has a lapsed lease and
  whose new estimate exceeds the cap, the transaction body does expire the row, but it then
  raises, and the refused claim leaves the database as it was, with the row still claimed.
\<close>

theorem exceeded_claim_discards_expiry:
  assumes "budget_inv db" and "row \<in> set (bd_rows db)" and "br_state row = BClaimed"
    and "\<not> lease_active (be_now e) row"
    and "reservation_key row = (bq_org q, bq_agent q, bq_key q)" and "br_hash row = bq_hash q"
    and "\<not> be_fault e" and "validate_claim q = None"
    and "load_active_period e (bq_org q) db = (Inr (Some p), db)"
    and "build_admission (lease_seconds lease) q p db = (Inr a, db)"
    and "exceeds a (active_holds (be_now e) (bq_org q) (ad_period a) (Some (br_id row)) (bd_rows db))"
    and "br_check (expire_fields row)"
  shows "expire_fields row \<in> set (bd_rows (snd (claim_row e a db))) \<and>
    br_state (expire_fields row) = BExpired \<and>
    claim lease e q db = (Inl (BudgetAdmissionDeniedError ''exceeded'' None), db) \<and>
    row \<in> set (bd_rows (snd (claim lease e q db)))"
proof -
  note b = build_admission_Inr [OF assms(10)]
  let ?key = "reservation_has_key (bq_org q) (bq_agent q) (bq_key q)"
  let ?p = "\<lambda>r. br_id r = br_id row \<and> ?key r \<and> br_state r = BClaimed \<and> br_version r = br_version row"
  have key: "?p row" using assms(3,5) by (simp add: has_key_reservation)
  have found: "sql_first ?key (bd_rows db) = Some row"
    using assms(5) by (intro sql_first_unique [OF budget_invD(2) [OF assms(1)] assms(2)])
      (simp_all add: has_key_reservation)
  have hit: "filter ?p (bd_rows db) = [row]"
    by (rule filter_unique [OF budget_invD(1) [OF assms(1)] assms(2)]) (use key in auto)
  have body: "claim_row e a db = (Inl (BudgetExc (BudgetAdmissionDeniedError ''exceeded'' None)),
      db\<lparr>bd_rows := sql_update ?p expire_fields (bd_rows db)\<rparr>)"
    using found assms(3,4,6,11,12) b(2) hit
    by (simp add: claim_row_def lock_row_def tx_bind_def tx_get_def tx_return_def tx_raise_def
        ensure_reusable_def expire_stale_row_def stale_ref_def checked_update_def Let_def)
  have "claim lease e q db = (Inl (BudgetAdmissionDeniedError ''exceeded'' None), db)"
    using assms(7-10) body
    by (simp add: claim_def with_connection_def tx_bind_def tx_return_def scope_defs)
  moreover have "expire_fields row \<in> set (sql_update ?p expire_fields (bd_rows db))"
    using assms(2) key by (auto simp: set_sql_update)
  ultimately show ?thesis using body assms(2) by (simp add: expire_fields_def)
qed

definition sample_big_request :: budget_claim_request where
  "sample_big_request = (sample_request ''k'')\<lparr>bq_input := 100000\<rparr>"

theorem exceeded_claim_discards_expiry_witness:
  "claim (900 * second) (sample_env 1000 0) sample_big_request (sample_db\<lparr>bd_rows := [sample_row 1 900]\<rparr>) =
     (Inl (BudgetAdmissionDeniedError ''exceeded'' None), sample_db\<lparr>bd_rows := [sample_row 1 900]\<rparr>)"
proof -
  let ?db = "sample_db\<lparr>bd_rows := [sample_row 1 900]\<rparr>"
  let ?p = "\<lparr>bp_id = 7, bp_org = 1, bp_start = 0, bp_end = 100000 * second, bp_cap = 100,
        bp_spent = 10, bp_mode = Hard_cap\<rparr>"
  let ?a = "sample_admission\<lparr>ad_request := sample_big_request, ad_estimated := 1020\<rparr>"
  have inv: "budget_inv ?db" by (rule claim_leaves_row [OF sample_inv sample_claimed])
  have row: "sample_row 1 900 \<in> set (bd_rows ?db)" by simp
  have 1: "br_state (sample_row 1 900) = BClaimed" by code_simp
  have 2: "\<not> lease_active (be_now (sample_env 1000 0)) (sample_row 1 900)" by code_simp
  have 3: "reservation_key (sample_row 1 900) = (bq_org sample_big_request, bq_agent sample_big_request, bq_key sample_big_request)"
    by code_simp
  have 4: "br_hash (sample_row 1 900) = bq_hash sample_big_request" by code_simp
  have 5: "\<not> be_fault (sample_env 1000 0)" by code_simp
  have 6: "validate_claim sample_big_request = None" by code_simp
  have 7: "load_active_period (sample_env 1000 0) (bq_org sample_big_request) ?db = (Inr (Some ?p), ?db)"
    by code_simp
  have 8: "build_admission (lease_seconds (900 * second)) sample_big_request ?p ?db = (Inr ?a, ?db)"
    by code_simp
  have 9: "exceeds ?a (active_holds (be_now (sample_env 1000 0)) (bq_org sample_big_request)
      (ad_period ?a) (Some (br_id (sample_row 1 900))) (bd_rows ?db))" by code_simp
  have 10: "br_check (expire_fields (sample_row 1 900))" by code_simp
  from exceeded_claim_discards_expiry [OF inv row 1 2 3 4 5 6 7 8 9 10] show ?thesis by simp
qed

text \<open>
  C30. The reaper. A sweep that returns expired exactly as many rows as it reports, the smaller of
  the batch limit and the number of rows whose lease lapsed before the grace period; those it
  expired have the oldest leases, and every other row is left as it was.
\<close>

theorem sweep_expires_oldest:
  assumes "budget_inv db" and "expire_stale e grace limit db = (Inr n, db')"
    and "deadline = be_now e - grace * second"
  shows "\<exists>batch. distinct batch \<and> set batch \<subseteq> set (filter (stale_at deadline) (bd_rows db)) \<and>
    n = length batch \<and> n = min (nat limit) (length (filter (stale_at deadline) (bd_rows db))) \<and>
    (\<forall>r \<in> set batch. \<forall>r' \<in> set (filter (stale_at deadline) (bd_rows db)) - set batch. lease_order r \<le> lease_order r') \<and>
    bd_rows db' = sql_update (\<lambda>r. r \<in> set batch) expire_fields (bd_rows db)"
proof -
  let ?stale = "filter (stale_at deadline) (bd_rows db)"
  let ?sorted = "sort_key lease_order ?stale"
  let ?batch = "take (nat limit) ?sorted"
  have dist: "distinct (bd_rows db)" using budget_invD(1) [OF assms(1)] by (simp add: distinct_map)
  then have d: "distinct ?batch" by simp
  have sub: "set ?batch \<subseteq> set ?stale" using set_take_subset [of "nat limit" ?sorted] by simp
  have pick: "(br_id r, br_version r) \<in> set (stale_batch deadline limit (bd_rows db)) \<and> stale_at deadline r
      \<longleftrightarrow> r \<in> set ?batch" if "r \<in> set (bd_rows db)" for r
  proof
    assume "r \<in> set ?batch"
    with sub show "(br_id r, br_version r) \<in> set (stale_batch deadline limit (bd_rows db)) \<and> stale_at deadline r"
      by (auto simp: stale_batch_def)
  next
    assume "(br_id r, br_version r) \<in> set (stale_batch deadline limit (bd_rows db)) \<and> stale_at deadline r"
    then obtain r' where r': "r' \<in> set ?batch" "br_id r' = br_id r" by (auto simp: stale_batch_def)
    then have "r' = r" using sub that by (intro same_reservation [OF assms(1)]) auto
    with r' show "r \<in> set ?batch" by simp
  qed
  note res = expire_stale_Inr [OF assms(2), folded assms(3)]
  have "n = length (filter (\<lambda>r. r \<in> set ?batch) (bd_rows db))"
    unfolding res(3) by (intro arg_cong [of _ _ length] filter_cong refl pick)
  also have "\<dots> = card (set ?batch \<inter> set (bd_rows db))"
    using dist by (simp add: distinct_length_filter)
  also have "set ?batch \<inter> set (bd_rows db) = set ?batch" using sub by auto
  also have "card (set ?batch) = length ?batch" by (rule distinct_card [OF d])
  finally have n: "n = length ?batch" .
  have "sorted (map lease_order (?batch @ drop (nat limit) ?sorted))" by simp
  then have "lease_order r \<le> lease_order r'" if "r \<in> set ?batch" "r' \<in> set (drop (nat limit) ?sorted)" for r r'
    using that unfolding map_append sorted_append by simp
  moreover have "set ?stale - set ?batch \<subseteq> set (drop (nat limit) ?sorted)"
    using set_append [of ?batch "drop (nat limit) ?sorted"] by auto
  moreover have "bd_rows db' = sql_update (\<lambda>r. r \<in> set ?batch) expire_fields (bd_rows db)"
    using res(4) pick by (simp add: sql_update_def)
  ultimately show ?thesis using d sub n by (intro exI [of _ ?batch]) auto
qed

theorem sweep_expires_oldest_witness:
  "expire_stale (sample_env 2000 0) 60 10 (sample_db\<lparr>bd_rows := [sample_row 1 900]\<rparr>) =
     (Inr 1, sample_db\<lparr>bd_rows := [expire_fields (sample_row 1 900)]\<rparr>) \<and>
   (\<exists>batch. length batch = 1 \<and> set batch \<subseteq> {sample_row 1 900} \<and>
     [expire_fields (sample_row 1 900)] = sql_update (\<lambda>r. r \<in> set batch) expire_fields [sample_row 1 900])"
proof -
  have inv: "budget_inv (sample_db\<lparr>bd_rows := [sample_row 1 900]\<rparr>)"
    by (rule claim_leaves_row [OF sample_inv sample_claimed])
  have sweep: "expire_stale (sample_env 2000 0) 60 10 (sample_db\<lparr>bd_rows := [sample_row 1 900]\<rparr>) =
      (Inr 1, sample_db\<lparr>bd_rows := [expire_fields (sample_row 1 900)]\<rparr>)" by code_simp
  have "filter (stale_at (be_now (sample_env 2000 0) - 60 * second)) [sample_row 1 900] = [sample_row 1 900]"
    by code_simp
  with sweep_expires_oldest [OF inv sweep refl] sweep show ?thesis by auto
qed

end
