(* ===== verification/Rate_Limit.thy ===== *)
theory Rate_Limit
  imports Ibex_Prelude
begin

text \<open>
  The calendar-minute rate limiter of \<open>packages/mcp_runtime\<close> (\<open>ratelimit.py\<close>) and its use by the
  two MCP services. Redis is a store of counters with expiry times read on the server's clock;
  the Lua script increments a counter and sets its time to live when it creates it. Times here
  are whole seconds.
\<close>

section \<open>Redis counters\<close>

text \<open>The key \<open>ratelimit:<org>:<scope>:<minute>\<close>, by its three fields.\<close>

datatype redis_key = redis_key (rk_org: uuid) (rk_scope: string) (rk_minute: int)

type_synonym redis = "redis_key \<Rightarrow> (int \<times> int option) option"

definition KEY_TTL_SECONDS :: int where "KEY_TTL_SECONDS = 90"

text \<open>A key whose expiry has come is absent.\<close>

definition redis_live :: "int \<Rightarrow> redis \<Rightarrow> redis_key \<Rightarrow> (int \<times> int option) option" where
  "redis_live t r k = (case r k of
     Some (n, Some ex) \<Rightarrow> if ex \<le> t then None else Some (n, Some ex)
   | other \<Rightarrow> other)"

definition redis_incr :: "int \<Rightarrow> redis_key \<Rightarrow> redis \<Rightarrow> int \<times> redis" where
  "redis_incr t k r = (case redis_live t r k of
     None \<Rightarrow> (1, r(k \<mapsto> (1, None)))
   | Some (n, ex) \<Rightarrow> (n + 1, r(k \<mapsto> (n + 1, ex))))"

definition redis_expire :: "int \<Rightarrow> redis_key \<Rightarrow> int \<Rightarrow> redis \<Rightarrow> redis" where
  "redis_expire t k ttl r = (case redis_live t r k of
     None \<Rightarrow> r
   | Some (n, ex) \<Rightarrow> r(k \<mapsto> (n, Some (t + ttl))))"

definition incr_expire_lua :: "int \<Rightarrow> redis_key \<Rightarrow> int \<Rightarrow> redis \<Rightarrow> int \<times> redis" where
  "incr_expire_lua t k ttl r =
     (let (n, r') = redis_incr t k r in
      if n = 1 then (n, redis_expire t k ttl r') else (n, r'))"

section \<open>The limiter\<close>

record rate_limit_result =
  rl_allowed :: bool
  rl_limit :: int
  rl_remaining :: int
  rl_reset_unix :: int

record limiter_config =
  lc_key_scope :: string
  lc_default_rpm :: int
  lc_org_overrides :: "(uuid \<times> int) list"
  lc_fail_closed :: bool

datatype rate_limit_error = RateLimitUnavailableError

text \<open>
  Supplied from outside to one check: Python's \<open>int(time.time())\<close>, the Redis server's clock, and
  whether the connection fails.
\<close>

record limiter_env =
  le_now :: int
  le_redis_time :: int
  le_fault :: bool

definition effective_limit :: "limiter_config \<Rightarrow> uuid \<Rightarrow> int" where
  "effective_limit cfg org_id = (case map_of (lc_org_overrides cfg) org_id of
     Some override \<Rightarrow> if 0 < override then override else max 1 (lc_default_rpm cfg)
   | None \<Rightarrow> max 1 (lc_default_rpm cfg))"

definition limiter_key :: "limiter_config \<Rightarrow> uuid \<Rightarrow> int \<Rightarrow> redis_key" where
  "limiter_key cfg org_id unix_minute = redis_key org_id (lc_key_scope cfg) unix_minute"

definition check ::
  "limiter_config \<Rightarrow> limiter_env \<Rightarrow> uuid \<Rightarrow> redis \<Rightarrow> (rate_limit_error + rate_limit_result) \<times> redis" where
  "check cfg e org_id r =
     (let limit = effective_limit cfg org_id;
          unix_minute = le_now e div 60;
          reset_unix = (unix_minute + 1) * 60;
          key = limiter_key cfg org_id unix_minute
      in if le_fault e then
           (if lc_fail_closed cfg then (Inl RateLimitUnavailableError, r)
            else (Inr \<lparr>rl_allowed = True, rl_limit = limit, rl_remaining = limit,
                     rl_reset_unix = reset_unix\<rparr>, r))
         else
           let (count, r') = incr_expire_lua (le_redis_time e) key KEY_TTL_SECONDS r;
               remaining = max 0 (limit - count)
           in if limit < count then
                (Inr \<lparr>rl_allowed = False, rl_limit = limit, rl_remaining = 0, rl_reset_unix = reset_unix\<rparr>, r')
              else
                (Inr \<lparr>rl_allowed = True, rl_limit = limit, rl_remaining = remaining,
                   rl_reset_unix = reset_unix\<rparr>, r'))"

text \<open>The limiter used without a Redis URL.\<close>

definition noop_check :: "int \<Rightarrow> limiter_env \<Rightarrow> uuid \<Rightarrow> rate_limit_result" where
  "noop_check default_rpm e org_id =
     (let reset = (le_now e div 60 + 1) * 60; rpm = max 1 default_rpm in
      \<lparr>rl_allowed = True, rl_limit = rpm, rl_remaining = rpm, rl_reset_unix = reset\<rparr>)"

text \<open>
  The configurations the services build: the operator gateway and the memory MCP service differ
  in their key scope; an empty URL selects the limiter that always allows.
\<close>

datatype limiter = NoopLimiter int | RedisLimiter limiter_config

definition build_operator_rate_limiter ::
  "string \<Rightarrow> int \<Rightarrow> (uuid \<times> int) list \<Rightarrow> bool \<Rightarrow> limiter" where
  "build_operator_rate_limiter redis_url default_rpm org_overrides fail_closed =
     (if py_strip redis_url = [] then NoopLimiter default_rpm
      else RedisLimiter \<lparr>lc_key_scope = ''mcp_operator'', lc_default_rpm = default_rpm,
        lc_org_overrides = org_overrides, lc_fail_closed = fail_closed\<rparr>)"

definition build_mcp_rate_limiter ::
  "string \<Rightarrow> int \<Rightarrow> (uuid \<times> int) list \<Rightarrow> bool \<Rightarrow> limiter" where
  "build_mcp_rate_limiter redis_url default_rpm org_overrides fail_closed =
     (if py_strip redis_url = [] then NoopLimiter default_rpm
      else RedisLimiter \<lparr>lc_key_scope = ''mcp'', lc_default_rpm = default_rpm,
        lc_org_overrides = org_overrides, lc_fail_closed = fail_closed\<rparr>)"

fun limiter_check ::
  "limiter \<Rightarrow> limiter_env \<Rightarrow> uuid \<Rightarrow> redis \<Rightarrow> (rate_limit_error + rate_limit_result) \<times> redis" where
  "limiter_check (NoopLimiter rpm) e org_id r = (Inr (noop_check rpm e org_id), r)"
| "limiter_check (RedisLimiter cfg) e org_id r = check cfg e org_id r"

section \<open>Sequences of checks\<close>

type_synonym limiter_call = "limiter_env \<times> uuid"

fun run_checks ::
  "limiter_config \<Rightarrow> limiter_call list \<Rightarrow> redis \<Rightarrow> (rate_limit_error + rate_limit_result) list \<times> redis" where
  "run_checks cfg [] r = ([], r)"
| "run_checks cfg ((e, org_id) # calls) r =
     (let (res, r') = check cfg e org_id r; (rest, r'') = run_checks cfg calls r' in (res # rest, r''))"

definition in_window :: "uuid \<Rightarrow> int \<Rightarrow> limiter_call \<Rightarrow> bool" where
  "in_window org_id minute c \<longleftrightarrow> snd c = org_id \<and> le_now (fst c) div 60 = minute \<and> \<not> le_fault (fst c)"

definition admitted :: "rate_limit_error + rate_limit_result \<Rightarrow> bool" where
  "admitted res = (case res of Inl err \<Rightarrow> False | Inr x \<Rightarrow> rl_allowed x)"

text \<open>
  The Redis clock at a call differs from the caller's by a constant, of either sign, and at most
  30 seconds more: the calls of one calendar minute then reach Redis within 89 seconds of each
  other, before the counter's 90 seconds are over. Callers whose clocks drift apart by more can
  have their counter expire within the minute.
\<close>

definition clocks_ok :: "int \<Rightarrow> limiter_call \<Rightarrow> bool" where
  "clocks_ok skew c \<longleftrightarrow>
     skew \<le> le_redis_time (fst c) - le_now (fst c) \<and> le_redis_time (fst c) - le_now (fst c) \<le> skew + 30"

text \<open>The counter of a window after \<open>n\<close> calls: absent, or \<open>n\<close> with an expiry after the window's last call.\<close>

definition counts :: "int \<Rightarrow> limiter_config \<Rightarrow> uuid \<Rightarrow> int \<Rightarrow> nat \<Rightarrow> redis \<Rightarrow> bool" where
  "counts skew cfg org_id minute n r \<longleftrightarrow>
     (if n = 0 then r (limiter_key cfg org_id minute) = None
      else \<exists>ex. r (limiter_key cfg org_id minute) = Some (int n, Some ex) \<and> skew + 60 * minute + 90 \<le> ex)"

lemma effective_limit_pos: "1 \<le> effective_limit cfg org_id"
  by (auto simp: effective_limit_def split: option.splits)

lemma window_time:
  assumes "clocks_ok skew (e, org_id)" and "le_now e div 60 = minute"
  shows "skew + 60 * minute \<le> le_redis_time e" and "le_redis_time e < skew + 60 * minute + 90"
  using assms by (auto simp: clocks_ok_def)

lemma check_counts:
  assumes "clocks_ok skew (e, org_id')" and "counts skew cfg org_id minute n r"
  shows "counts skew cfg org_id minute (if in_window org_id minute (e, org_id') then Suc n else n)
    (snd (check cfg e org_id' r))"
proof (cases "in_window org_id minute (e, org_id')")
  case True
  then have w: "org_id' = org_id" "le_now e div 60 = minute" "\<not> le_fault e"
    by (simp_all add: in_window_def)
  note t = window_time [OF assms(1) w(2)]
  show ?thesis
  proof (cases n)
    case 0
    with assms(2) have "r (limiter_key cfg org_id minute) = None" by (simp add: counts_def)
    with True 0 w t show ?thesis
      by (simp add: check_def counts_def incr_expire_lua_def redis_incr_def redis_expire_def
          redis_live_def KEY_TTL_SECONDS_def Let_def)
  next
    case (Suc m)
    with assms(2) obtain ex where "r (limiter_key cfg org_id minute) = Some (int n, Some ex)"
      and "skew + 60 * minute + 90 \<le> ex" by (auto simp: counts_def)
    with True Suc w t show ?thesis
      by (simp add: check_def counts_def incr_expire_lua_def redis_incr_def redis_live_def Let_def)
  qed
next
  case False
  have same: "snd (check cfg e org_id' r) (limiter_key cfg org_id minute) = r (limiter_key cfg org_id minute)"
    using False
    by (auto simp: check_def Let_def incr_expire_lua_def redis_incr_def redis_expire_def redis_live_def
        in_window_def limiter_key_def split: option.splits prod.splits if_splits)
  with assms(2) False show ?thesis by (simp add: counts_def)
qed

lemma check_admits:
  assumes "clocks_ok skew (e, org_id)" and "counts skew cfg org_id minute n r" and "in_window org_id minute (e, org_id)"
  shows "admitted (fst (check cfg e org_id r)) \<longleftrightarrow> int (Suc n) \<le> effective_limit cfg org_id"
proof -
  from assms(3) have w: "le_now e div 60 = minute" "\<not> le_fault e" by (simp_all add: in_window_def)
  note t = window_time [OF assms(1) w(1)]
  have "fst (incr_expire_lua (le_redis_time e) (limiter_key cfg org_id minute) KEY_TTL_SECONDS r) = int (Suc n)"
    using assms(2) t
    by (cases n) (auto simp: counts_def incr_expire_lua_def redis_incr_def redis_live_def
        Let_def split: if_splits)
  then show ?thesis using w
    by (auto simp: check_def admitted_def Let_def split: prod.splits)
qed

text \<open>The answers to the calls of a window, in order.\<close>

definition window_answers :: "uuid \<Rightarrow> int \<Rightarrow> limiter_call list \<Rightarrow> (rate_limit_error + rate_limit_result) list \<Rightarrow> bool list" where
  "window_answers org_id minute calls results =
     map (\<lambda>(c, res). admitted res) (filter (\<lambda>(c, res). in_window org_id minute c) (zip calls results))"

lemma run_checks_window:
  assumes "\<forall>c \<in> set calls. clocks_ok skew c" and "counts skew cfg org_id minute n r"
  shows "window_answers org_id minute calls (fst (run_checks cfg calls r))
    = map (\<lambda>i. int i < effective_limit cfg org_id) [n..<n + length (filter (in_window org_id minute) calls)]"
  using assms
proof (induction calls arbitrary: r n)
  case (Cons c calls)
  obtain e o' where c: "c = (e, o')" by fastforce
  let ?r' = "snd (check cfg e o' r)"
  let ?n' = "if in_window org_id minute (e, o') then Suc n else n"
  have ok: "clocks_ok skew (e, o')" using Cons.prems(1) c by simp
  have "counts skew cfg org_id minute ?n' ?r'" by (rule check_counts [OF ok Cons.prems(2)])
  then have IH: "window_answers org_id minute calls (fst (run_checks cfg calls ?r'))
      = map (\<lambda>i. int i < effective_limit cfg org_id) [?n'..<?n' + length (filter (in_window org_id minute) calls)]"
    using Cons.prems(1) by (intro Cons.IH) simp_all
  have zip: "zip (c # calls) (fst (run_checks cfg (c # calls) r)) =
      (c, fst (check cfg e o' r)) # zip calls (fst (run_checks cfg calls ?r'))"
    by (simp add: c Let_def split: prod.splits)
  show ?case
  proof (cases "in_window org_id minute (e, o')")
    case True
    then have "o' = org_id" by (simp add: in_window_def)
    with check_admits [of skew e org_id cfg minute n r] ok Cons.prems(2) True
    have "admitted (fst (check cfg e o' r)) \<longleftrightarrow> int n < effective_limit cfg org_id" by auto
    moreover have "[n..<n + Suc k] = n # [Suc n..<Suc n + k]" for k by (simp add: upt_conv_Cons del: upt_Suc)
    ultimately show ?thesis using True IH c unfolding window_answers_def zip by (simp del: upt_Suc)
  next
    case False
    with IH c show ?thesis unfolding window_answers_def zip by simp
  qed
qed (simp add: window_answers_def)

lemma below_limit_count: "length (filter (\<lambda>b. b) (map (\<lambda>i. int i < m) [0..<k])) = min k (nat m)"
  by (induction k) (auto simp: min_def)

text \<open>
  C27. The limiter admits exactly the first calls of a calendar minute. When the Redis clock
  differs from the callers' by a constant of either sign and at most 30 seconds more, and the
  minute's counter is absent at the start, the calls an organisation makes in that minute and
  that reach Redis are admitted in order until its limit is reached and refused from then on, so
  that the smaller of their number and the limit is admitted, whatever other organisations do
  and whatever calls fail in between.
\<close>

theorem limiter_admits_limit:
  assumes "\<forall>c \<in> set calls. clocks_ok skew c" and "r (limiter_key cfg org_id minute) = None"
    and "n = length (filter (in_window org_id minute) calls)"
  shows "window_answers org_id minute calls (fst (run_checks cfg calls r))
      = map (\<lambda>i. int i < effective_limit cfg org_id) [0..<n] \<and>
    length (filter (\<lambda>ok. ok) (window_answers org_id minute calls (fst (run_checks cfg calls r))))
      = min n (nat (effective_limit cfg org_id))"
  using run_checks_window [OF assms(1), of cfg org_id minute 0 r] assms(2,3)
  by (simp only: counts_def below_limit_count add_0 if_True simp_thms)

definition sample_limiter :: limiter_config where
  "sample_limiter = \<lparr>lc_key_scope = ''mcp'', lc_default_rpm = 120, lc_org_overrides = [(1, 2)],
     lc_fail_closed = True\<rparr>"

definition sample_call :: "int \<Rightarrow> int \<Rightarrow> uuid \<Rightarrow> limiter_call" where
  "sample_call t late org_id = (\<lparr>le_now = t, le_redis_time = t + late, le_fault = False\<rparr>, org_id)"

definition sample_calls :: "limiter_call list" where
  "sample_calls = [sample_call 120 (- 15) 1, sample_call 130 0 2, sample_call 150 15 1, sample_call 179 15 1,
     sample_call 180 0 1]"

theorem limiter_admits_limit_witness:
  "window_answers 1 2 sample_calls (fst (run_checks sample_limiter sample_calls Map.empty)) = [True, True, False]"
proof -
  have "\<forall>c \<in> set sample_calls. clocks_ok (- 15) c"
    by (simp add: sample_calls_def sample_call_def clocks_ok_def)
  moreover have "length (filter (in_window 1 2) sample_calls) = 3" "effective_limit sample_limiter 1 = 2"
    by code_simp+
  ultimately show ?thesis
    using limiter_admits_limit [of sample_calls "- 15" Map.empty sample_limiter 1 2 3] by (simp add: upt_rec)
qed

end
