(* ===== verification/Auth_Breaker.thy ===== *)
theory Auth_Breaker
  imports Ibex_Prelude
begin

text \<open>
  The circuit breaker in front of the authentication service, as written in
  \<open>services/mcp-operator/app/auth_breaker.py\<close> and \<open>services/mcp-memory/app/auth_breaker.py\<close>. The
  two copies differ in one handler: the operator's \<open>validate\<close> treats a cancelled call, the memory
  service's does not. Calls overlap: a call begins under the breaker's lock, waits for the inner
  validator, records its outcome under the lock, and a probe gives its reservation back under the
  lock in a further step, so that other calls run between any two of these.
\<close>

section \<open>The breaker's state and methods\<close>

datatype breaker_state = CLOSED | OPEN | HALF_OPEN

record breaker =
  bk_state :: breaker_state
  bk_failures :: nat
  bk_opened_at :: usec
  bk_probe_inflight :: bool

record breaker_config =
  bk_failure_threshold :: nat
  bk_cooldown :: usec

definition AUTH_BREAKER_FAILURES :: nat where "AUTH_BREAKER_FAILURES = 5"
definition AUTH_BREAKER_COOLDOWN_S :: usec where "AUTH_BREAKER_COOLDOWN_S = 30 * second"

text \<open>The constructor rejects a threshold below one and a cooldown that is not positive.\<close>

definition config_ok :: "breaker_config \<Rightarrow> bool" where
  "config_ok cfg \<longleftrightarrow> 1 \<le> bk_failure_threshold cfg \<and> 0 < bk_cooldown cfg"

definition init_breaker :: breaker where
  "init_breaker = \<lparr>bk_state = CLOSED, bk_failures = 0, bk_opened_at = 0, bk_probe_inflight = False\<rparr>"

definition transition :: "breaker_state \<Rightarrow> breaker \<Rightarrow> breaker" where
  "transition to b = (if to = bk_state b then b else b\<lparr>bk_state := to\<rparr>)"

definition trip_open :: "usec \<Rightarrow> breaker \<Rightarrow> breaker" where
  "trip_open now b = transition OPEN (b\<lparr>bk_opened_at := now\<rparr>)"

definition on_unavailable :: "breaker_config \<Rightarrow> usec \<Rightarrow> breaker \<Rightarrow> breaker" where
  "on_unavailable cfg now b =
     (let b' = b\<lparr>bk_failures := bk_failures b + 1\<rparr> in
      if bk_state b' = HALF_OPEN then trip_open now b'
      else if bk_state b' = CLOSED \<and> bk_failure_threshold cfg \<le> bk_failures b' then trip_open now b'
      else b')"

definition on_success :: "breaker \<Rightarrow> breaker" where
  "on_success b =
     (let b' = b\<lparr>bk_failures := 0\<rparr> in
      if bk_state b' \<noteq> CLOSED then transition CLOSED b' else b')"

definition record_outcome :: "breaker_config \<Rightarrow> usec \<Rightarrow> bool \<Rightarrow> breaker \<Rightarrow> breaker" where
  "record_outcome cfg now success b = (if success then on_success b else on_unavailable cfg now b)"

definition trip_open_if_half_open :: "usec \<Rightarrow> breaker \<Rightarrow> breaker" where
  "trip_open_if_half_open now b = (if bk_state b = HALF_OPEN then trip_open now b else b)"

definition release_probe_reservation :: "breaker \<Rightarrow> breaker" where
  "release_probe_reservation b = b\<lparr>bk_probe_inflight := False\<rparr>"

text \<open>\<open>_reserve_or_reject\<close>: None when it raises \<open>AuthUnavailableError\<close>, else whether the caller is the probe.\<close>

definition reserve_or_reject :: "breaker_config \<Rightarrow> usec \<Rightarrow> breaker \<Rightarrow> bool option \<times> breaker" where
  "reserve_or_reject cfg now b =
     (if bk_state b = OPEN then
        if now - bk_opened_at b < bk_cooldown cfg then (None, b)
        else if bk_probe_inflight b then (None, b)
        else (Some True, transition HALF_OPEN (b\<lparr>bk_probe_inflight := True\<rparr>))
      else if bk_state b = HALF_OPEN then (None, b)
      else (Some False, b))"

text \<open>How the inner validator's call ends.\<close>

datatype inner_outcome = Validated | AuthFailed | AuthUnavailable | OtherException | Cancelled

text \<open>
  \<open>_call_inner\<close>: what each outcome records. A cancellation is not an \<open>Exception\<close> and passes every
  handler of \<open>_call_inner\<close>; what \<open>validate\<close> does with it is the parameter \<open>on_cancel\<close>.
\<close>

fun call_inner ::
  "(usec \<Rightarrow> breaker \<Rightarrow> breaker) \<Rightarrow> breaker_config \<Rightarrow> usec \<Rightarrow> inner_outcome \<Rightarrow> breaker \<Rightarrow> breaker" where
  "call_inner on_cancel cfg now Validated b = record_outcome cfg now True b"
| "call_inner on_cancel cfg now AuthFailed b = record_outcome cfg now True b"
| "call_inner on_cancel cfg now AuthUnavailable b = record_outcome cfg now False b"
| "call_inner on_cancel cfg now OtherException b = trip_open_if_half_open now b"
| "call_inner on_cancel cfg now Cancelled b = on_cancel now b"

definition operator_on_cancel :: "usec \<Rightarrow> breaker \<Rightarrow> breaker" where
  "operator_on_cancel now b = trip_open_if_half_open now b"

definition memory_on_cancel :: "usec \<Rightarrow> breaker \<Rightarrow> breaker" where
  "memory_on_cancel now b = b"

section \<open>Overlapping calls\<close>

text \<open>
  A call in progress waits for the inner validator or, once its outcome is recorded, has its
  \<open>finally\<close> block left to run; both remember whether it is the probe.
\<close>

datatype call_phase = Waiting bool | Leaving bool

record breaker_sys =
  bs_breaker :: breaker
  bs_calls :: "call_phase list"

datatype breaker_event =
    Rejected usec
  | Begun usec bool
  | Recorded usec bool inner_outcome
  | Left bool

inductive breaker_step ::
  "(usec \<Rightarrow> breaker \<Rightarrow> breaker) \<Rightarrow> breaker_config \<Rightarrow> breaker_sys \<Rightarrow> breaker_event \<Rightarrow> breaker_sys \<Rightarrow> bool"
  for on_cancel and cfg where
  reject: "reserve_or_reject cfg now (bs_breaker s) = (None, b) \<Longrightarrow>
     breaker_step on_cancel cfg s (Rejected now) (s\<lparr>bs_breaker := b\<rparr>)"
| begin_call: "reserve_or_reject cfg now (bs_breaker s) = (Some probe, b) \<Longrightarrow>
     breaker_step on_cancel cfg s (Begun now probe)
       \<lparr>bs_breaker = b, bs_calls = Waiting probe # bs_calls s\<rparr>"
| recorded: "bs_calls s = xs @ Waiting probe # ys \<Longrightarrow>
     breaker_step on_cancel cfg s (Recorded now probe out)
       \<lparr>bs_breaker = call_inner on_cancel cfg now out (bs_breaker s), bs_calls = xs @ Leaving probe # ys\<rparr>"
| leave: "bs_calls s = xs @ Leaving probe # ys \<Longrightarrow>
     breaker_step on_cancel cfg s (Left probe)
       \<lparr>bs_breaker = (if probe then release_probe_reservation (bs_breaker s) else bs_breaker s),
        bs_calls = xs @ ys\<rparr>"

inductive_cases breaker_stepE: "breaker_step on_cancel cfg s ev s'"

inductive breaker_run ::
  "(usec \<Rightarrow> breaker \<Rightarrow> breaker) \<Rightarrow> breaker_config \<Rightarrow> breaker_sys \<Rightarrow> breaker_event list \<Rightarrow> breaker_sys \<Rightarrow> bool"
  for on_cancel and cfg and s where
  run_nil: "breaker_run on_cancel cfg s [] s"
| run_snoc: "breaker_run on_cancel cfg s evs s' \<Longrightarrow> breaker_step on_cancel cfg s' ev s'' \<Longrightarrow>
     breaker_run on_cancel cfg s (evs @ [ev]) s''"

definition init_sys :: breaker_sys where
  "init_sys = \<lparr>bs_breaker = init_breaker, bs_calls = []\<rparr>"

fun is_probe :: "call_phase \<Rightarrow> bool" where
  "is_probe (Waiting p) = p"
| "is_probe (Leaving p) = p"

definition probes :: "breaker_sys \<Rightarrow> nat" where
  "probes s = length (filter is_probe (bs_calls s))"

text \<open>Unavailable results since the last answer, event by event.\<close>

fun unavailable_streak :: "nat \<Rightarrow> breaker_event \<Rightarrow> nat" where
  "unavailable_streak n (Recorded now probe Validated) = 0"
| "unavailable_streak n (Recorded now probe AuthFailed) = 0"
| "unavailable_streak n (Recorded now probe AuthUnavailable) = n + 1"
| "unavailable_streak n ev = n"

lemmas breaker_defs = reserve_or_reject_def record_outcome_def on_success_def on_unavailable_def
  trip_open_def trip_open_if_half_open_def transition_def release_probe_reservation_def Let_def

lemma reserve_unchanged: "reserve_or_reject cfg now b = (None, b') \<Longrightarrow> b' = b"
  by (simp add: reserve_or_reject_def split: if_splits)

lemma reserve_granted:
  assumes "reserve_or_reject cfg now b = (Some probe, b')"
  shows "probe \<Longrightarrow> \<not> bk_probe_inflight b \<and> bk_probe_inflight b' \<and> bk_state b = OPEN \<and> bk_state b' = HALF_OPEN"
    and "\<not> probe \<Longrightarrow> b' = b \<and> bk_state b = CLOSED"
  using assms by (auto simp: reserve_or_reject_def transition_def intro: breaker_state.exhaust split: if_splits)

section \<open>What both copies guarantee\<close>

text \<open>
  The contract of the cancellation handler both copies meet: it leaves the reservation flag and
  the failure count alone, does not start a probing phase, and neither closes the breaker nor
  leaves the closed state.
\<close>

locale breaker_variant =
  fixes on_cancel :: "usec \<Rightarrow> breaker \<Rightarrow> breaker"
  assumes cancel_keeps_probe: "bk_probe_inflight (on_cancel now b) = bk_probe_inflight b"
    and cancel_keeps_failures: "bk_failures (on_cancel now b) = bk_failures b"
    and cancel_half_open: "bk_state (on_cancel now b) = HALF_OPEN \<Longrightarrow> bk_state b = HALF_OPEN"
    and cancel_closed: "bk_state (on_cancel now b) = CLOSED \<longleftrightarrow> bk_state b = CLOSED"
begin

lemma call_inner_probe: "bk_probe_inflight (call_inner on_cancel cfg now out b) = bk_probe_inflight b"
  by (cases out) (simp_all add: breaker_defs cancel_keeps_probe)

lemma call_inner_half_open:
  "bk_state (call_inner on_cancel cfg now out b) = HALF_OPEN \<Longrightarrow> bk_state b = HALF_OPEN \<and> out = Cancelled"
  by (cases out) (auto simp: breaker_defs dest: cancel_half_open split: if_splits)

text \<open>The reservation flag counts the probes in progress.\<close>

lemma probes_step:
  assumes "breaker_step on_cancel cfg s ev s'"
    and "probes s = (if bk_probe_inflight (bs_breaker s) then 1 else 0)"
  shows "probes s' = (if bk_probe_inflight (bs_breaker s') then 1 else 0)"
  using assms
proof (cases rule: breaker_step.cases)
  case (reject now b)
  with assms(2) reserve_unchanged [OF reject(3)] show ?thesis by (simp add: probes_def)
next
  case (begin_call now probe b)
  with assms(2) reserve_granted [OF begin_call(3)] show ?thesis
    by (cases probe) (simp_all add: probes_def)
next
  case (recorded xs probe ys now out)
  with assms(2) show ?thesis by (cases probe) (simp_all add: probes_def call_inner_probe)
next
  case (leave xs probe ys)
  show ?thesis
  proof (cases probe)
    case True
    with leave assms(2) have "length (filter is_probe xs) + length (filter is_probe ys) = 0"
      by (cases "bk_probe_inflight (bs_breaker s)") (simp_all add: probes_def)
    with leave True show ?thesis by (simp add: probes_def release_probe_reservation_def)
  next
    case False
    with leave assms(2) show ?thesis by (simp add: probes_def)
  qed
qed

lemma probes_run:
  "breaker_run on_cancel cfg init_sys evs s \<Longrightarrow>
     probes s = (if bk_probe_inflight (bs_breaker s) then 1 else 0)"
proof (induction rule: breaker_run.induct)
  case run_nil
  then show ?case by (simp add: probes_def init_sys_def init_breaker_def)
next
  case (run_snoc evs s' ev s'')
  show ?case by (rule probes_step [OF run_snoc.hyps(2) run_snoc.IH])
qed

text \<open>
  The breaker is closed exactly while fewer than the threshold of unavailable results were
  recorded since the last answer of the service.
\<close>

lemma streak_step:
  assumes "breaker_step on_cancel cfg s ev s'" and "bk_failures (bs_breaker s) = n"
    and "bk_state (bs_breaker s) = CLOSED \<longleftrightarrow> n < bk_failure_threshold cfg"
    and "1 \<le> bk_failure_threshold cfg"
  shows "bk_failures (bs_breaker s') = unavailable_streak n ev \<and>
    (bk_state (bs_breaker s') = CLOSED \<longleftrightarrow> unavailable_streak n ev < bk_failure_threshold cfg)"
  using assms(1)
proof (cases rule: breaker_step.cases)
  case (reject now b)
  with assms(2,3) reserve_unchanged [OF reject(3)] show ?thesis by simp
next
  case (begin_call now probe b)
  have "bk_failures b = n \<and> (bk_state b = CLOSED \<longleftrightarrow> bk_state (bs_breaker s) = CLOSED)"
    using begin_call(3) assms(2) by (auto simp: reserve_or_reject_def transition_def split: if_splits)
  with begin_call assms(3) show ?thesis by simp
next
  case (recorded xs probe ys now out)
  have "bk_failures (call_inner on_cancel cfg now out (bs_breaker s)) = unavailable_streak n ev \<and>
    (bk_state (call_inner on_cancel cfg now out (bs_breaker s)) = CLOSED \<longleftrightarrow>
      unavailable_streak n ev < bk_failure_threshold cfg)"
    using assms(2-4) recorded(1)
    by (cases out; cases "bk_state (bs_breaker s)")
      (auto simp: breaker_defs cancel_keeps_failures cancel_closed)
  with recorded show ?thesis by simp
next
  case (leave xs probe ys)
  with assms(2,3) show ?thesis by (cases probe) (simp_all add: release_probe_reservation_def)
qed

lemma streak_run:
  assumes "breaker_run on_cancel cfg init_sys evs s" and "1 \<le> bk_failure_threshold cfg"
  shows "bk_failures (bs_breaker s) = foldl unavailable_streak 0 evs \<and>
    (bk_state (bs_breaker s) = CLOSED \<longleftrightarrow> foldl unavailable_streak 0 evs < bk_failure_threshold cfg)"
  using assms(1)
proof (induction rule: breaker_run.induct)
  case run_nil
  then show ?case using assms(2) by (simp add: init_sys_def init_breaker_def)
next
  case (run_snoc evs s' ev s'')
  then show ?case using streak_step [OF run_snoc.hyps(2), of "foldl unavailable_streak 0 evs"] assms(2)
    by simp
qed

end

text \<open>A variant whose cancellation handler ends a probing phase does not get stuck in one.\<close>

locale recovering_breaker = breaker_variant +
  assumes cancel_leaves: "bk_state b = HALF_OPEN \<Longrightarrow> bk_state (on_cancel now b) \<noteq> HALF_OPEN"
begin

lemma half_open_step:
  assumes "breaker_step on_cancel cfg s ev s'"
    and "bk_state (bs_breaker s) = HALF_OPEN \<longrightarrow> Waiting True \<in> set (bs_calls s)"
  shows "bk_state (bs_breaker s') = HALF_OPEN \<longrightarrow> Waiting True \<in> set (bs_calls s')"
  using assms(1)
proof (cases rule: breaker_step.cases)
  case (reject now b)
  with assms(2) reserve_unchanged [OF reject(3)] show ?thesis by simp
next
  case (begin_call now probe b)
  with reserve_granted [OF begin_call(3)] show ?thesis by (cases probe) simp_all
next
  case (recorded xs probe ys now out)
  have "bk_state (call_inner on_cancel cfg now out (bs_breaker s)) \<noteq> HALF_OPEN"
    using call_inner_half_open [of cfg now out "bs_breaker s"] cancel_leaves [of "bs_breaker s" now] by auto
  with recorded show ?thesis by simp
next
  case (leave xs probe ys)
  with assms(2) show ?thesis by (cases probe) (auto simp: release_probe_reservation_def)
qed

lemma half_open_run:
  "breaker_run on_cancel cfg init_sys evs s \<Longrightarrow>
     bk_state (bs_breaker s) = HALF_OPEN \<longrightarrow> Waiting True \<in> set (bs_calls s)"
proof (induction rule: breaker_run.induct)
  case run_nil
  then show ?case by (simp add: init_sys_def init_breaker_def)
next
  case (run_snoc evs s' ev s'')
  show ?case by (rule half_open_step [OF run_snoc.hyps(2) run_snoc.IH])
qed

lemma idle_admits:
  assumes "breaker_run on_cancel cfg init_sys evs s" and "bs_calls s = []"
    and "bk_opened_at (bs_breaker s) + bk_cooldown cfg \<le> now"
  obtains probe b where "reserve_or_reject cfg now (bs_breaker s) = (Some probe, b)"
    and "on_success b = b\<lparr>bk_state := CLOSED, bk_failures := 0\<rparr>"
proof -
  have "bk_state (bs_breaker s) \<noteq> HALF_OPEN" using half_open_run [OF assms(1)] assms(2) by auto
  moreover have "\<not> bk_probe_inflight (bs_breaker s)"
    using probes_run [OF assms(1)] assms(2) by (auto simp: probes_def split: if_splits)
  ultimately show thesis using assms(3)
    by (intro that [of "bk_state (bs_breaker s) = OPEN" "snd (reserve_or_reject cfg now (bs_breaker s))"])
      (cases "bk_state (bs_breaker s)"; simp add: breaker_defs)+
qed

end

interpretation mem: breaker_variant memory_on_cancel
  by unfold_locales (simp_all add: memory_on_cancel_def)

interpretation oper: recovering_breaker operator_on_cancel
  by unfold_locales (auto simp: operator_on_cancel_def breaker_defs split: if_splits)

section \<open>One call after another\<close>

datatype validate_result = ShortCircuited | Returned inner_outcome

definition validate ::
  "(usec \<Rightarrow> breaker \<Rightarrow> breaker) \<Rightarrow> breaker_config \<Rightarrow> usec \<Rightarrow> usec \<Rightarrow> inner_outcome \<Rightarrow> breaker \<Rightarrow>
   validate_result \<times> breaker" where
  "validate on_cancel cfg now later out b = (case reserve_or_reject cfg now b of
     (None, b') \<Rightarrow> (ShortCircuited, b')
   | (Some probe, b') \<Rightarrow>
       let b'' = call_inner on_cancel cfg later out b' in
       (Returned out, if probe then release_probe_reservation b'' else b''))"

definition operator_validate ::
  "breaker_config \<Rightarrow> usec \<Rightarrow> usec \<Rightarrow> inner_outcome \<Rightarrow> breaker \<Rightarrow> validate_result \<times> breaker" where
  "operator_validate = validate operator_on_cancel"

definition memory_validate ::
  "breaker_config \<Rightarrow> usec \<Rightarrow> usec \<Rightarrow> inner_outcome \<Rightarrow> breaker \<Rightarrow> validate_result \<times> breaker" where
  "memory_validate = validate memory_on_cancel"

lemma breaker_run_trans:
  "breaker_run oc cfg s' evs' s'' \<Longrightarrow> breaker_run oc cfg s evs s' \<Longrightarrow> breaker_run oc cfg s (evs @ evs') s''"
proof (induction rule: breaker_run.induct)
  case (run_snoc evs' t ev t')
  then show ?case unfolding append_assoc [symmetric] by (intro breaker_run.run_snoc)
qed simp

text \<open>A call that nothing interrupts is a run of the overlapping model.\<close>

lemma validate_run:
  "\<exists>evs. breaker_run oc cfg \<lparr>bs_breaker = b, bs_calls = []\<rparr> evs
     \<lparr>bs_breaker = snd (validate oc cfg now later out b), bs_calls = []\<rparr>"
proof (cases "fst (reserve_or_reject cfg now b)")
  case None
  then have "reserve_or_reject cfg now b = (None, b)"
    using reserve_unchanged [of cfg now b] by (cases "reserve_or_reject cfg now b") auto
  then have "snd (validate oc cfg now later out b) = b" by (simp add: validate_def)
  then show ?thesis using breaker_run.run_nil by metis
next
  case (Some probe)
  then obtain b' where r: "reserve_or_reject cfg now b = (Some probe, b')"
    by (cases "reserve_or_reject cfg now b") auto
  let ?b2 = "call_inner oc cfg later out b'"
  have 1: "breaker_step oc cfg \<lparr>bs_breaker = b, bs_calls = []\<rparr> (Begun now probe)
      \<lparr>bs_breaker = b', bs_calls = [Waiting probe]\<rparr>"
    using breaker_step.begin_call [of cfg now "\<lparr>bs_breaker = b, bs_calls = []\<rparr>" probe b' oc] r by simp
  have 2: "breaker_step oc cfg \<lparr>bs_breaker = b', bs_calls = [Waiting probe]\<rparr> (Recorded later probe out)
      \<lparr>bs_breaker = ?b2, bs_calls = [Leaving probe]\<rparr>"
    using breaker_step.recorded [of "\<lparr>bs_breaker = b', bs_calls = [Waiting probe]\<rparr>" "[]" probe "[]" oc cfg later out]
    by simp
  have 3: "breaker_step oc cfg \<lparr>bs_breaker = ?b2, bs_calls = [Leaving probe]\<rparr> (Left probe)
      \<lparr>bs_breaker = snd (validate oc cfg now later out b), bs_calls = []\<rparr>"
    using breaker_step.leave [of "\<lparr>bs_breaker = ?b2, bs_calls = [Leaving probe]\<rparr>" "[]" probe "[]" oc cfg] r
    by (cases probe) (simp_all add: validate_def Let_def)
  from breaker_run.run_snoc [OF breaker_run.run_snoc [OF breaker_run.run_snoc [OF breaker_run.run_nil 1] 2] 3]
  show ?thesis by blast
qed

lemma outage_opens:
  assumes "n \<le> bk_failure_threshold cfg" and "1 \<le> bk_failure_threshold cfg"
  shows "\<exists>evs. breaker_run oc cfg init_sys evs \<lparr>bs_breaker =
    \<lparr>bk_state = (if n < bk_failure_threshold cfg then CLOSED else OPEN), bk_failures = n, bk_opened_at = 0,
     bk_probe_inflight = False\<rparr>, bs_calls = []\<rparr>"
  using assms(1)
proof (induction n)
  case 0
  with assms(2) show ?case using breaker_run.run_nil [of oc cfg init_sys]
    by (auto simp: init_sys_def init_breaker_def)
next
  case (Suc n)
  let ?b = "\<lparr>bk_state = CLOSED, bk_failures = n, bk_opened_at = 0, bk_probe_inflight = False\<rparr>"
  from Suc obtain evs where "breaker_run oc cfg init_sys evs \<lparr>bs_breaker = ?b, bs_calls = []\<rparr>" by auto
  moreover obtain evs' where "breaker_run oc cfg \<lparr>bs_breaker = ?b, bs_calls = []\<rparr> evs'
      \<lparr>bs_breaker = snd (validate oc cfg 0 0 AuthUnavailable ?b), bs_calls = []\<rparr>"
    using validate_run by blast
  moreover have "snd (validate oc cfg 0 0 AuthUnavailable ?b) =
      \<lparr>bk_state = (if Suc n < bk_failure_threshold cfg then CLOSED else OPEN), bk_failures = Suc n,
       bk_opened_at = 0, bk_probe_inflight = False\<rparr>"
    by (simp add: validate_def breaker_defs)
  ultimately show ?case using breaker_run_trans by metis
qed

definition default_config :: breaker_config where
  "default_config = \<lparr>bk_failure_threshold = AUTH_BREAKER_FAILURES, bk_cooldown = AUTH_BREAKER_COOLDOWN_S\<rparr>"

lemma default_config_ok: "config_ok default_config"
  by (simp add: config_ok_def default_config_def AUTH_BREAKER_FAILURES_def AUTH_BREAKER_COOLDOWN_S_def)

section \<open>Guarantees\<close>

text \<open>
  C26. At most one probe. In every reachable state of either copy, whatever calls overlap, at most
  one caller holds the half-open probe, and the reservation flag is set exactly while one does.
\<close>

theorem breaker_single_probe:
  assumes "on_cancel = operator_on_cancel \<or> on_cancel = memory_on_cancel"
    and "breaker_run on_cancel cfg init_sys evs s"
  shows "probes s \<le> 1 \<and> (probes s = 1 \<longleftrightarrow> bk_probe_inflight (bs_breaker s))"
proof -
  have "probes s = (if bk_probe_inflight (bs_breaker s) then 1 else 0)"
    using assms(1)
  proof
    assume "on_cancel = operator_on_cancel"
    with assms(2) show ?thesis by (intro oper.probes_run) simp
  next
    assume "on_cancel = memory_on_cancel"
    with assms(2) show ?thesis by (intro mem.probes_run) simp
  qed
  then show ?thesis by simp
qed

theorem breaker_single_probe_witness:
  "\<exists>evs s. breaker_run operator_on_cancel default_config init_sys evs s \<and> probes s = 1 \<and>
     bk_probe_inflight (bs_breaker s)"
proof -
  let ?open = "\<lparr>bs_breaker = \<lparr>bk_state = OPEN, bk_failures = 5, bk_opened_at = 0, bk_probe_inflight = False\<rparr>,
      bs_calls = []\<rparr>"
  let ?s = "\<lparr>bs_breaker = \<lparr>bk_state = HALF_OPEN, bk_failures = 5, bk_opened_at = 0, bk_probe_inflight = True\<rparr>,
      bs_calls = [Waiting True]\<rparr>"
  obtain evs where run: "breaker_run operator_on_cancel default_config init_sys evs ?open"
    using outage_opens [of 5 default_config operator_on_cancel]
    by (auto simp: default_config_def AUTH_BREAKER_FAILURES_def)
  have "breaker_step operator_on_cancel default_config ?open (Begun (30 * second) True) ?s"
    using breaker_step.begin_call [of default_config "30 * second" ?open True "bs_breaker ?s" operator_on_cancel]
    by (simp add: reserve_or_reject_def transition_def default_config_def AUTH_BREAKER_COOLDOWN_S_def)
  note go = breaker_run.run_snoc [OF run this]
  have "probes ?s = 1" by (simp add: probes_def)
  with breaker_single_probe [OF disjI1 [OF refl] go] have "bk_probe_inflight (bs_breaker ?s)" by simp
  with go \<open>probes ?s = 1\<close> show ?thesis by blast
qed

text \<open>
  C15. The breaker of either copy is closed exactly while fewer than the configured number of
  unavailable results were recorded since the authentication service last answered, whatever
  calls overlap; rejected tokens count as answers.
\<close>

theorem breaker_opens_on_streak:
  assumes "on_cancel = operator_on_cancel \<or> on_cancel = memory_on_cancel" and "config_ok cfg"
    and "breaker_run on_cancel cfg init_sys evs s"
  shows "bk_state (bs_breaker s) = CLOSED \<longleftrightarrow> foldl unavailable_streak 0 evs < bk_failure_threshold cfg"
  using assms(1)
proof
  assume "on_cancel = operator_on_cancel"
  with assms(2,3) show ?thesis using oper.streak_run [of cfg evs s] by (simp add: config_ok_def)
next
  assume "on_cancel = memory_on_cancel"
  with assms(2,3) show ?thesis using mem.streak_run [of cfg evs s] by (simp add: config_ok_def)
qed

theorem breaker_opens_on_streak_witness:
  "\<exists>evs s. breaker_run operator_on_cancel default_config init_sys evs s \<and> bk_state (bs_breaker s) = OPEN \<and>
     5 \<le> foldl unavailable_streak 0 evs"
proof -
  obtain evs where run: "breaker_run operator_on_cancel default_config init_sys evs \<lparr>bs_breaker =
      \<lparr>bk_state = OPEN, bk_failures = 5, bk_opened_at = 0, bk_probe_inflight = False\<rparr>, bs_calls = []\<rparr>"
    using outage_opens [of 5 default_config operator_on_cancel]
    by (auto simp: default_config_def AUTH_BREAKER_FAILURES_def)
  from breaker_opens_on_streak [OF disjI1 [OF refl] default_config_ok run]
  have "5 \<le> foldl unavailable_streak 0 evs"
    by (simp add: default_config_def AUTH_BREAKER_FAILURES_def)
  with run show ?thesis by fastforce
qed

text \<open>
  C24. The operator's breaker recovers: in every reachable state with no call in progress, once the
  cooldown is over the next call reaches the authentication service, and an answer closes the
  breaker and clears its failure count and reservation.
\<close>

theorem operator_breaker_recovers:
  assumes "breaker_run operator_on_cancel cfg init_sys evs s" and "bs_calls s = []"
    and "bk_opened_at (bs_breaker s) + bk_cooldown cfg \<le> now"
    and "out = Validated \<or> out = AuthFailed"
  shows "fst (operator_validate cfg now later out (bs_breaker s)) = Returned out \<and>
    bk_state (snd (operator_validate cfg now later out (bs_breaker s))) = CLOSED \<and>
    bk_failures (snd (operator_validate cfg now later out (bs_breaker s))) = 0 \<and>
    \<not> bk_probe_inflight (snd (operator_validate cfg now later out (bs_breaker s)))"
proof -
  obtain probe b where r: "reserve_or_reject cfg now (bs_breaker s) = (Some probe, b)"
    and ok: "on_success b = b\<lparr>bk_state := CLOSED, bk_failures := 0\<rparr>"
    by (rule oper.idle_admits [OF assms(1-3)])
  have "call_inner operator_on_cancel cfg later out b = on_success b"
    using assms(4) by (auto simp: record_outcome_def)
  moreover have "\<not> bk_probe_inflight (bs_breaker s)"
    using oper.probes_run [OF assms(1)] assms(2) by (auto simp: probes_def split: if_splits)
  ultimately show ?thesis using r ok reserve_granted [OF r]
    by (cases probe) (simp_all add: operator_validate_def validate_def Let_def release_probe_reservation_def)
qed

theorem operator_breaker_recovers_witness:
  "\<exists>s :: breaker_sys. bk_state (bs_breaker s) = OPEN \<and>
     bk_state (snd (operator_validate default_config (30 * second) (31 * second) Validated (bs_breaker s))) = CLOSED"
proof -
  let ?s = "\<lparr>bs_breaker = \<lparr>bk_state = OPEN, bk_failures = 5, bk_opened_at = 0, bk_probe_inflight = False\<rparr>,
      bs_calls = []\<rparr>"
  obtain evs where run: "breaker_run operator_on_cancel default_config init_sys evs ?s"
    using outage_opens [of 5 default_config operator_on_cancel]
    by (auto simp: default_config_def AUTH_BREAKER_FAILURES_def)
  have "bk_opened_at (bs_breaker ?s) + bk_cooldown default_config \<le> 30 * second"
    by (simp add: default_config_def AUTH_BREAKER_COOLDOWN_S_def)
  from operator_breaker_recovers [OF run _ this, of Validated "31 * second"]
  have "bk_state (snd (operator_validate default_config (30 * second) (31 * second) Validated (bs_breaker ?s))) = CLOSED"
    by simp
  then show ?thesis by (intro exI [of _ ?s] conjI) simp_all
qed

lemma half_open_idle_step:
  assumes "breaker_step on_cancel cfg s ev s'" and "bk_state (bs_breaker s) = HALF_OPEN" and "bs_calls s = []"
  shows "bk_state (bs_breaker s') = HALF_OPEN \<and> bs_calls s' = []"
  using assms(1)
proof (cases rule: breaker_step.cases)
  case (reject now b)
  with assms(2,3) reserve_unchanged [OF reject(3)] show ?thesis by simp
next
  case (begin_call now probe b)
  with assms(2) show ?thesis by (simp add: reserve_or_reject_def)
qed (use assms(3) in simp_all)

text \<open>
  C25. The memory service's breaker can lock itself out: for every configuration there is a run
  (an outage that opens the breaker, then a probe whose task is cancelled) after which no call is
  in progress and the breaker is half-open, and from there on, whatever happens and however much
  time passes, every call is rejected.
\<close>

theorem memory_breaker_locks_out:
  assumes "config_ok cfg"
  shows "\<exists>evs s. breaker_run memory_on_cancel cfg init_sys evs s \<and>
    (\<forall>evs' s'. breaker_run memory_on_cancel cfg s evs' s' \<longrightarrow>
       bk_state (bs_breaker s') = HALF_OPEN \<and> bs_calls s' = [] \<and>
       (\<forall>now later out. memory_validate cfg now later out (bs_breaker s') = (ShortCircuited, bs_breaker s')))"
proof -
  let ?open = "\<lparr>bk_state = OPEN, bk_failures = bk_failure_threshold cfg, bk_opened_at = 0,
     bk_probe_inflight = False\<rparr>"
  let ?b = "snd (validate memory_on_cancel cfg (bk_cooldown cfg) 0 Cancelled ?open)"
  let ?s = "\<lparr>bs_breaker = ?b, bs_calls = []\<rparr>"
  obtain evs where "breaker_run memory_on_cancel cfg init_sys evs \<lparr>bs_breaker = ?open, bs_calls = []\<rparr>"
    using outage_opens [of "bk_failure_threshold cfg" cfg memory_on_cancel] assms by (auto simp: config_ok_def)
  then obtain evs' where run: "breaker_run memory_on_cancel cfg init_sys evs' ?s"
    using validate_run [of memory_on_cancel cfg ?open "bk_cooldown cfg" 0 Cancelled] breaker_run_trans by blast
  have b: "bk_state ?b = HALF_OPEN"
    by (simp add: validate_def breaker_defs memory_on_cancel_def)
  have "bk_state (bs_breaker s') = HALF_OPEN \<and> bs_calls s' = []"
    if "breaker_run memory_on_cancel cfg ?s evs'' s'" for evs'' s'
    using that
  proof (induction rule: breaker_run.induct)
    case (run_snoc evs t ev t')
    then show ?case using half_open_idle_step [OF run_snoc.hyps(2)] by blast
  qed (simp add: b)
  moreover have "memory_validate cfg now later out x = (ShortCircuited, x)" if "bk_state x = HALF_OPEN" for x now later out
    using that by (simp add: memory_validate_def validate_def reserve_or_reject_def)
  ultimately show ?thesis using run by metis
qed

theorem memory_breaker_locks_out_witness:
  "\<exists>evs s. breaker_run memory_on_cancel default_config init_sys evs s \<and> bk_state (bs_breaker s) = HALF_OPEN \<and>
     bs_calls s = []"
proof -
  obtain evs s where "breaker_run memory_on_cancel default_config init_sys evs s"
    and "\<forall>evs' s'. breaker_run memory_on_cancel default_config s evs' s' \<longrightarrow>
       bk_state (bs_breaker s') = HALF_OPEN \<and> bs_calls s' = []"
    using memory_breaker_locks_out [OF default_config_ok] by blast
  then show ?thesis using breaker_run.run_nil by blast
qed

end
