(* ===== verification/Py_Strings.thy ===== *)
theory Py_Strings
  imports Ibex_Prelude
begin

text \<open>
  What the context service uses of Python's standard library: \<open>str.join\<close>, \<open>str.replace\<close>,
  \<open>html.escape\<close>, \<open>secrets.token_urlsafe\<close> (unpadded URL-safe base64 of the random bytes),
  \<open>uuid.UUID\<close> and its printing, and the error monad in which fallible functions are written.
  Strings are sequences of the first 256 code points.
\<close>

section \<open>Results\<close>

definition sum_bind :: "'e + 'a \<Rightarrow> ('a \<Rightarrow> 'e + 'b) \<Rightarrow> 'e + 'b" where
  "sum_bind m f = (case m of Inl e \<Rightarrow> Inl e | Inr a \<Rightarrow> f a)"

lemma sum_bind_simps [simp]: "sum_bind (Inl e) f = Inl e" "sum_bind (Inr a) f = f a"
  by (simp_all add: sum_bind_def)

lemma sum_bind_Inr [simp]: "sum_bind m f = Inr b \<longleftrightarrow> (\<exists>a. m = Inr a \<and> f a = Inr b)"
  by (cases m) auto

lemma sum_bind_Inl: "sum_bind m f = Inl e \<longleftrightarrow> m = Inl e \<or> (\<exists>a. m = Inr a \<and> f a = Inl e)"
  by (cases m) auto

definition sum_guard :: "bool \<Rightarrow> 'e \<Rightarrow> 'e + unit" where
  "sum_guard b e = (if b then Inr () else Inl e)"

lemma sum_guard_simps [simp]: "sum_guard b e = Inr u \<longleftrightarrow> b" "sum_guard b e = Inl e' \<longleftrightarrow> \<not> b \<and> e' = e"
  by (auto simp: sum_guard_def)

section \<open>Joining and replacing\<close>

fun py_join :: "string \<Rightarrow> string list \<Rightarrow> string" where
  "py_join sep [] = []"
| "py_join sep [x] = x"
| "py_join sep (x # y # xs) = x @ sep @ py_join sep (y # xs)"

lemma length_py_join:
  "length (py_join sep xs) = sum_list (map length xs) + (length xs - 1) * length sep"
  by (induction sep xs rule: py_join.induct) auto

lemma py_join_Cons: "py_join sep (x # xs) = x @ (if xs = [] then [] else sep @ py_join sep xs)"
  by (cases xs) auto

definition replace_char :: "char \<Rightarrow> string \<Rightarrow> string \<Rightarrow> string" where
  "replace_char c r s = concat (map (\<lambda>x. if x = c then r else [x]) s)"

lemma replace_char_simps [simp]:
  "replace_char c r [] = []"
  "replace_char c r (x # s) = (if x = c then r else [x]) @ replace_char c r s"
  by (simp_all add: replace_char_def)

lemma replace_char_append: "replace_char c r (s @ t) = replace_char c r s @ replace_char c r t"
  by (simp add: replace_char_def)

text \<open>\<open>str.replace\<close> with a non-empty pattern: non-overlapping occurrences from the left.\<close>

definition strip_prefix :: "string \<Rightarrow> string \<Rightarrow> string option" where
  "strip_prefix p s = (if take (length p) s = p then Some (drop (length p) s) else None)"

lemma strip_prefix_append [simp]: "strip_prefix p (p @ s) = Some s"
  by (simp add: strip_prefix_def)

lemma strip_prefix_Some: "strip_prefix p s = Some rest \<longleftrightarrow> s = p @ rest"
  unfolding strip_prefix_def by (metis append_eq_conv_conj append_take_drop_id option.inject option.simps(3))

function py_replace :: "string \<Rightarrow> string \<Rightarrow> string \<Rightarrow> string" where
  "py_replace old new [] = []"
| "py_replace old new (c # s) =
     (if old = [] then c # py_replace old new s
      else case strip_prefix old (c # s) of
          None \<Rightarrow> c # py_replace old new s
        | Some rest \<Rightarrow> new @ py_replace old new rest)"
  by pat_completeness auto
termination
  by (relation "measure (\<lambda>(old, new, s). length s)")
    (auto simp: strip_prefix_def split: if_splits)

text \<open>\<open>str\<close> of a natural number.\<close>

fun py_str_nat :: "nat \<Rightarrow> string" where
  "py_str_nat n = (if n < 10 then [''0123456789'' ! n] else py_str_nat (n div 10) @ [''0123456789'' ! (n mod 10)])"

declare py_str_nat.simps [simp del]

section \<open>Escaping markup\<close>

definition html_escape :: "string \<Rightarrow> bool \<Rightarrow> string" where
  "html_escape s quote =
     (let s = replace_char (CHR ''&'') ''&amp;'' s;
          s = replace_char (CHR ''<'') ''&lt;'' s;
          s = replace_char (CHR ''>'') ''&gt;'' s
      in if quote then replace_char (CHR 0x27) ''&#x27;'' (replace_char (CHR 0x22) ''&quot;'' s) else s)"

text \<open>The five passes act character by character.\<close>

definition escape_char :: "bool \<Rightarrow> char \<Rightarrow> string" where
  "escape_char quote c =
     (if c = CHR ''&'' then ''&amp;'' else if c = CHR ''<'' then ''&lt;'' else if c = CHR ''>'' then ''&gt;''
      else if quote \<and> c = CHR 0x22 then ''&quot;'' else if quote \<and> c = CHR 0x27 then ''&#x27;'' else [c])"

lemma html_escape_Nil [simp]: "html_escape [] q = []"
  by (simp add: html_escape_def)

lemma html_escape_Cons [simp]: "html_escape (c # s) q = escape_char q c @ html_escape s q"
  by (simp add: html_escape_def escape_char_def replace_char_append Let_def)

lemma html_escape_chars: "html_escape s q = concat (map (escape_char q) s)"
  by (induction s) auto

lemma html_escape_no_markup: "c \<in> set (html_escape s q) \<Longrightarrow> c \<noteq> CHR ''<'' \<and> c \<noteq> CHR ''>''"
  by (induction s) (auto simp: escape_char_def split: if_splits)

lemma html_escape_no_quote: "CHR 0x22 \<notin> set (html_escape s True)"
  by (induction s) (auto simp: escape_char_def)

lemma length_html_escape: "length s \<le> length (html_escape s q)"
  by (induction s) (auto simp: escape_char_def)

text \<open>Reading an escaped text back (\<open>html.unescape\<close> on the entities \<open>html.escape\<close> writes).\<close>

definition entities :: "(string \<times> char) list" where
  "entities = [(''&amp;'', CHR ''&''), (''&lt;'', CHR ''<''), (''&gt;'', CHR ''>''), (''&quot;'', CHR 0x22), (''&#x27;'', CHR 0x27)]"

fun read_entity :: "(string \<times> char) list \<Rightarrow> string \<Rightarrow> (char \<times> string) option" where
  "read_entity [] s = None"
| "read_entity ((p, c) # es) s =
     (case strip_prefix p s of Some rest \<Rightarrow> Some (c, rest) | None \<Rightarrow> read_entity es s)"

lemma read_entity_length:
  "read_entity es s = Some (c, rest) \<Longrightarrow> \<forall>(p, c)\<in>set es. p \<noteq> [] \<Longrightarrow> length rest < length s"
  by (induction es s rule: read_entity.induct)
    (auto simp: strip_prefix_Some split: option.splits)

lemma entities_nonempty: "\<forall>(p, c)\<in>set entities. p \<noteq> []"
  by (simp add: entities_def)

function html_unescape :: "string \<Rightarrow> string" where
  "html_unescape [] = []"
| "html_unescape (c # s) = (case read_entity entities (c # s) of
     Some (e, rest) \<Rightarrow> e # html_unescape rest
   | None \<Rightarrow> c # html_unescape s)"
  by pat_completeness auto
termination
  by (relation "measure length")
    (use read_entity_length [OF _ entities_nonempty] in \<open>fastforce+\<close>)

lemma html_unescape_escape_char: "html_unescape (escape_char q c @ s) = c # html_unescape s"
  by (simp add: escape_char_def entities_def strip_prefix_def)

lemma html_unescape_escape: "html_unescape (html_escape s q) = s"
  by (induction s) (simp_all add: html_unescape_escape_char)

lemma html_escape_inj: "html_escape s q = html_escape t q \<longleftrightarrow> s = t"
  by (metis html_unescape_escape)

section \<open>Random URL-safe tokens\<close>

definition b64_alphabet :: string where
  "b64_alphabet = ''ABCDEFGHIJKLMNOPQRSTUVWXYZabcdefghijklmnopqrstuvwxyz0123456789-_''"

definition b64_char :: "nat \<Rightarrow> char" where
  "b64_char n = b64_alphabet ! (n mod 64)"

text \<open>\<open>base64.urlsafe_b64encode\<close> on a list of bytes, with its padding.\<close>

fun urlsafe_b64encode :: "nat list \<Rightarrow> string" where
  "urlsafe_b64encode [] = []"
| "urlsafe_b64encode [a] = [b64_char (a div 4), b64_char (a * 16)] @ ''==''"
| "urlsafe_b64encode [a, b] = [b64_char (a div 4), b64_char (a * 16 + b div 16), b64_char (b * 4)] @ ''=''"
| "urlsafe_b64encode (a # b # c # bs) =
     [b64_char (a div 4), b64_char (a * 16 + b div 16), b64_char (b * 4 + c div 64), b64_char c]
     @ urlsafe_b64encode bs"

definition token_urlsafe :: "nat list \<Rightarrow> string" where
  "token_urlsafe bs = rev (dropWhile (\<lambda>c. c = CHR ''='') (rev (urlsafe_b64encode bs)))"

lemma b64_char_mem: "b64_char n \<in> set b64_alphabet"
  unfolding b64_char_def by (rule nth_mem) (simp add: b64_alphabet_def)

lemma b64_char_neq: "b64_char n \<noteq> CHR ''=''"
  using b64_char_mem [of n] unfolding b64_alphabet_def by (rule contrapos_pn) simp

lemma b64_plain: "c \<in> set b64_alphabet \<Longrightarrow> escape_char q c = [c]"
  unfolding b64_alphabet_def escape_char_def by auto

lemma token_urlsafe_simps:
  "token_urlsafe [] = []"
  "token_urlsafe [a] = [b64_char (a div 4), b64_char (a * 16)]"
  "token_urlsafe [a, b] = [b64_char (a div 4), b64_char (a * 16 + b div 16), b64_char (b * 4)]"
  "token_urlsafe (a # b # c # bs) =
     [b64_char (a div 4), b64_char (a * 16 + b div 16), b64_char (b * 4 + c div 64), b64_char c] @ token_urlsafe bs"
  by (simp_all add: token_urlsafe_def b64_char_neq dropWhile_append)

lemma length_token_urlsafe: "length (token_urlsafe bs) = (4 * length bs + 2) div 3"
  by (induction bs rule: urlsafe_b64encode.induct) (simp_all add: token_urlsafe_simps)

lemma set_token_urlsafe: "set (token_urlsafe bs) \<subseteq> set b64_alphabet"
  by (induction bs rule: urlsafe_b64encode.induct) (simp_all add: token_urlsafe_simps b64_char_mem)

lemma escape_plain: "set s \<subseteq> set b64_alphabet \<Longrightarrow> html_escape s q = s"
  by (induction s) (simp_all add: b64_plain)

section \<open>UUIDs\<close>

definition hex_alphabet :: string where "hex_alphabet = ''0123456789abcdef''"

definition hex_char :: "nat \<Rightarrow> char" where
  "hex_char n = hex_alphabet ! (n mod 16)"

definition hex_val :: "char \<Rightarrow> nat option" where
  "hex_val c = (let n = of_char c :: nat in
     if 48 \<le> n \<and> n \<le> 57 then Some (n - 48)
     else if 97 \<le> n \<and> n \<le> 102 then Some (n - 87)
     else if 65 \<le> n \<and> n \<le> 70 then Some (n - 55) else None)"

text \<open>\<open>int(s, 16)\<close>: surrounding space, a sign, a \<open>0x\<close> prefix and single underscores are allowed.\<close>

fun hex_digits :: "nat \<Rightarrow> string \<Rightarrow> nat option" where
  "hex_digits acc [] = Some acc"
| "hex_digits acc (c # s) =
     (if c = CHR ''_'' then
        (case s of [] \<Rightarrow> None
         | d # s' \<Rightarrow> (case hex_val d of None \<Rightarrow> None | Some v \<Rightarrow> hex_digits (acc * 16 + v) s'))
      else (case hex_val c of None \<Rightarrow> None | Some v \<Rightarrow> hex_digits (acc * 16 + v) s))"

definition hex_body :: "string \<Rightarrow> nat option" where
  "hex_body s =
     (if take 2 s = ''0x'' \<or> take 2 s = ''0X'' then (if drop 2 s = [] then None else hex_digits 0 (drop 2 s))
      else if s = [] \<or> hd s = CHR ''_'' then None else hex_digits 0 s)"

definition py_int16 :: "string \<Rightarrow> int option" where
  "py_int16 s = (let r = py_strip s in
     if take 1 r = ''-'' then map_option (\<lambda>n. - int n) (hex_body (drop 1 r))
     else map_option int (hex_body (if take 1 r = ''+'' then drop 1 r else r)))"

text \<open>\<open>UUID(text)\<close> as the 128-bit number it holds, or None for its \<open>ValueError\<close>.\<close>

definition strip_chars :: "string \<Rightarrow> string \<Rightarrow> string" where
  "strip_chars cs s = rev (dropWhile (\<lambda>c. c \<in> set cs) (rev (dropWhile (\<lambda>c. c \<in> set cs) s)))"

definition uuid_of :: "string \<Rightarrow> nat option" where
  "uuid_of text =
     (let hex = py_replace ''uuid:'' [] (py_replace ''urn:'' [] text);
          hex = py_replace ''-'' [] (strip_chars ''{}'' hex)
      in if length hex \<noteq> 32 then None
         else (case py_int16 hex of
             None \<Rightarrow> None
           | Some n \<Rightarrow> if 0 \<le> n \<and> n < 2 ^ 128 then Some (nat n) else None))"

definition uuid_hex :: "nat \<Rightarrow> string" where
  "uuid_hex u = map (\<lambda>i. hex_char (u div 16 ^ (31 - i))) [0..<32]"

definition uuid_str :: "nat \<Rightarrow> string" where
  "uuid_str u = (let h = uuid_hex u in
     take 8 h @ ''-'' @ take 4 (drop 8 h) @ ''-'' @ take 4 (drop 12 h) @ ''-'' @
     take 4 (drop 16 h) @ ''-'' @ drop 20 h)"

lemma hex_char_mem: "hex_char n \<in> set hex_alphabet"
  unfolding hex_char_def by (rule nth_mem) (simp add: hex_alphabet_def)

lemma hex_val_char: "hex_val (hex_char n) = Some (n mod 16)"
proof -
  have "\<forall>d\<in>set [0..<16]. hex_val (hex_alphabet ! d) = Some d"
    by (simp add: upt_rec hex_alphabet_def hex_val_def)
  then show ?thesis by (simp add: hex_char_def)
qed

lemma hex_alphabet_plain:
  "c \<in> set hex_alphabet \<Longrightarrow> \<not> py_isspace c \<and> c \<noteq> CHR ''u'' \<and> c \<noteq> CHR ''-'' \<and> c \<noteq> CHR ''+'' \<and>
   c \<noteq> CHR ''_'' \<and> c \<noteq> CHR ''x'' \<and> c \<noteq> CHR ''X'' \<and> c \<notin> set ''{}''"
proof -
  assume c: "c \<in> set hex_alphabet"
  have "list_all (\<lambda>c. \<not> py_isspace c \<and> c \<noteq> CHR ''u'' \<and> c \<noteq> CHR ''-'' \<and> c \<noteq> CHR ''+'' \<and>
    c \<noteq> CHR ''_'' \<and> c \<noteq> CHR ''x'' \<and> c \<noteq> CHR ''X'' \<and> c \<notin> set ''{}'') hex_alphabet"
    by code_simp
  with c show ?thesis unfolding list_all_iff by blast
qed

lemma py_replace_absent: "old \<noteq> [] \<Longrightarrow> hd old \<notin> set s \<Longrightarrow> py_replace old new s = s"
  by (induction s) (auto simp: strip_prefix_def neq_Nil_conv)

lemma py_replace_char: "py_replace [c] [] s = filter (\<lambda>x. x \<noteq> c) s"
  by (induction s) (auto simp: strip_prefix_def)

lemma length_uuid_hex [simp]: "length (uuid_hex u) = 32"
  by (simp add: uuid_hex_def)

lemma set_uuid_hex: "set (uuid_hex u) \<subseteq> set hex_alphabet"
  unfolding uuid_hex_def using hex_char_mem by auto

lemma set_uuid_str: "set (uuid_str u) \<subseteq> insert (CHR ''-'') (set hex_alphabet)"
proof -
  have "set (take i (drop j (uuid_hex u))) \<subseteq> set hex_alphabet" for i j
    using set_uuid_hex [of u] by (blast dest: in_set_takeD in_set_dropD)
  from this [of 8 0] this [of 4 8] this [of 4 12] this [of 4 16] this [of 32 20] show ?thesis
    unfolding uuid_str_def Let_def by auto
qed

lemma hex_digits_chars:
  "hex_digits acc (map hex_char ns) = Some (foldl (\<lambda>a n. a * 16 + n mod 16) acc ns)"
proof (induction ns arbitrary: acc)
  case (Cons n ns)
  then show ?case
    using hex_alphabet_plain [OF hex_char_mem [of n]] by (simp add: hex_val_char)
qed simp

lemma foldl_hex_digits:
  "foldl (\<lambda>a n. a * 16 + n mod 16) 0 (map (\<lambda>i. u div 16 ^ (k - i)) [0..<Suc k]) = u mod 16 ^ Suc k"
  for u :: nat
proof (induction k arbitrary: u)
  case (Suc k)
  have "map (\<lambda>i. u div 16 ^ (Suc k - i)) [0..<Suc k] = map (\<lambda>i. u div 16 div 16 ^ (k - i)) [0..<Suc k]"
    by (auto simp: div_mult2_eq [symmetric] Suc_diff_le less_Suc_eq_le)
  with Suc [of "u div 16"]
  have "foldl (\<lambda>a n. a * 16 + n mod 16) 0 (map (\<lambda>i. u div 16 ^ (Suc k - i)) [0..<Suc k]) = u div 16 mod 16 ^ Suc k"
    by (simp only:)
  then have "foldl (\<lambda>a n. a * 16 + n mod 16) 0 (map (\<lambda>i. u div 16 ^ (Suc k - i)) [0..<Suc (Suc k)])
      = (u div 16 mod 16 ^ Suc k) * 16 + u mod 16"
    unfolding upt_Suc_append [OF le0, of "Suc k"] map_append foldl_append by (simp del: upt_Suc)
  also have "\<dots> = u mod (16 * 16 ^ Suc k)"
    by (simp only: mod_mult2_eq)
  finally show ?case by simp
qed simp

text \<open>The digits of an identifier read back, and its printed form has nothing else to strip.\<close>

lemma uuid_str_digits: "filter (\<lambda>x. x \<noteq> CHR ''-'') (uuid_str u) = uuid_hex u"
proof -
  let ?h = "uuid_hex u"
  have sub: "filter (\<lambda>x. x \<noteq> CHR ''-'') (take i (drop j ?h)) = take i (drop j ?h)" for i j
    using set_uuid_hex [of u] hex_alphabet_plain
    by (auto simp: filter_id_conv dest!: in_set_takeD in_set_dropD)
  have "filter (\<lambda>x. x \<noteq> CHR ''-'') (uuid_str u)
      = take 8 ?h @ take 4 (drop 8 ?h) @ take 4 (drop 12 ?h) @ take 4 (drop 16 ?h) @ drop 20 ?h"
    unfolding uuid_str_def Let_def
    using sub [of 8 0] sub [of 4 8] sub [of 4 12] sub [of 4 16] sub [of 32 20] by simp
  also have "\<dots> = ?h"
    using append_take_drop_id [of 4 "drop 16 ?h"] append_take_drop_id [of 4 "drop 12 ?h"]
      append_take_drop_id [of 4 "drop 8 ?h"] append_take_drop_id [of 8 ?h] by simp
  finally show ?thesis .
qed

lemma dropWhile_none: "(\<And>x. x \<in> set xs \<Longrightarrow> \<not> P x) \<Longrightarrow> dropWhile P xs = xs"
  by (cases xs) auto

lemma strip_uuid_hex: "py_strip (uuid_hex u) = uuid_hex u"
proof -
  have space: "\<not> py_isspace c" if "c \<in> set (uuid_hex u)" for c
    using that set_uuid_hex [of u] hex_alphabet_plain [of c] by blast
  have "dropWhile py_isspace (rev (uuid_hex u)) = rev (uuid_hex u)" "dropWhile py_isspace (uuid_hex u) = uuid_hex u"
    by (rule dropWhile_none, simp add: space)+
  then show ?thesis by (simp add: py_strip_def py_lstrip_def)
qed

lemma hex_body_plain:
  assumes "set s \<subseteq> set hex_alphabet" "s \<noteq> []"
  shows "hex_body s = hex_digits 0 s" "take 1 s \<noteq> ''-''" "take 1 s \<noteq> ''+''"
proof -
  obtain a t where s: "s = a # t" using assms(2) by (cases s) auto
  then have a: "a \<in> set hex_alphabet" and t: "t = [] \<or> hd t \<in> set hex_alphabet"
    using assms(1) by (cases t; auto)+
  from t have "take 1 t \<noteq> ''x'' \<and> take 1 t \<noteq> ''X''"
    using hex_alphabet_plain [of "hd t"] by (cases t) auto
  moreover have "take 2 s = a # take 1 t" by (simp add: s)
  ultimately show "hex_body s = hex_digits 0 s"
    using hex_alphabet_plain [OF a] by (simp add: hex_body_def s)
  show "take 1 s \<noteq> ''-''" "take 1 s \<noteq> ''+''"
    using hex_alphabet_plain [OF a] by (simp_all add: s)
qed

lemma py_int16_uuid: "u < 2 ^ 128 \<Longrightarrow> py_int16 (uuid_hex u) = Some (int u)"
proof -
  assume "u < 2 ^ 128"
  then have u: "u mod 16 ^ Suc 31 = u" by simp
  have "uuid_hex u = map hex_char (map (\<lambda>i. u div 16 ^ (31 - i)) [0..<Suc 31])"
    by (simp add: uuid_hex_def)
  then have "hex_digits 0 (uuid_hex u) = Some u"
    by (simp only: hex_digits_chars foldl_hex_digits u)
  moreover have "uuid_hex u \<noteq> []"
    by (metis length_uuid_hex list.size(3) zero_neq_numeral)
  ultimately show ?thesis
    using hex_body_plain [OF set_uuid_hex, of u] by (simp add: py_int16_def Let_def strip_uuid_hex)
qed

lemma uuid_of_str: "u < 2 ^ 128 \<Longrightarrow> uuid_of (uuid_str u) = Some u"
proof -
  assume u: "u < 2 ^ 128"
  have mem: "c = CHR ''-'' \<or> c \<in> set hex_alphabet" if "c \<in> set (uuid_str u)" for c
    using that set_uuid_str [of u] by blast
  have no_u: "CHR ''u'' \<notin> set (uuid_str u)"
    using mem [of "CHR ''u''"] hex_alphabet_plain [of "CHR ''u''"] by auto
  have brace: "c \<notin> set ''{}''" if "c \<in> set (uuid_str u)" for c
    using mem [OF that] hex_alphabet_plain [of c] by auto
  have "dropWhile (\<lambda>c. c \<in> set ''{}'') (uuid_str u) = uuid_str u"
    "dropWhile (\<lambda>c. c \<in> set ''{}'') (rev (uuid_str u)) = rev (uuid_str u)"
    by (rule dropWhile_none, rule brace, simp)+
  then have "strip_chars ''{}'' (uuid_str u) = uuid_str u"
    by (simp only: strip_chars_def rev_rev_ident)
  with no_u show ?thesis
    using u by (simp add: uuid_of_def py_replace_absent py_replace_char uuid_str_digits py_int16_uuid)
qed

end
