(* ===== verification/Go_Values.thy ===== *)
theory Go_Values
  imports Budget_Pricing Py_Strings
begin

text \<open>
  The parts of Go and its standard library that the modelled Go packages use: signed 64-bit arithmetic, the
  white space of \<open>strings.TrimSpace\<close>, and the shell patterns of \<open>path.Match\<close> with its chunk
  scanner, its greedy search and its syntax errors. Names and patterns are ASCII text, where a rune is a byte.
\<close>

section \<open>Signed 64-bit integers\<close>

definition wrap64 :: "int \<Rightarrow> int" where
  "wrap64 x = (x + 2 ^ 63) mod 2 ^ 64 - 2 ^ 63"

definition MaxInt64 :: int where "MaxInt64 = 2 ^ 63 - 1"

definition int64 :: "int \<Rightarrow> bool" where
  "int64 x \<longleftrightarrow> - (2 ^ 63) \<le> x \<and> x \<le> MaxInt64"

lemma wrap64_id: "int64 x \<Longrightarrow> wrap64 x = x"
  by (simp add: int64_def MaxInt64_def wrap64_def)

lemma int64_wrap64: "int64 (wrap64 x)"
  unfolding int64_def wrap64_def MaxInt64_def
  using pos_mod_bound [of "2 ^ 64" "x + 2 ^ 63"] pos_mod_sign [of "2 ^ 64" "x + 2 ^ 63"] by simp

lemma wrap64_overflow: "2 ^ 63 \<le> x \<Longrightarrow> x < 2 ^ 64 + 2 ^ 63 \<Longrightarrow> wrap64 x = x - 2 ^ 64"
  unfolding wrap64_def by (simp add: mod_pos_geq)

section \<open>White space\<close>

definition go_isspace :: "char \<Rightarrow> bool" where
  "go_isspace c = (let n = of_char c :: nat in (9 \<le> n \<and> n \<le> 13) \<or> n = 32 \<or> n = 133 \<or> n = 160)"

definition trim_space :: "string \<Rightarrow> string" where
  "trim_space s = rev (dropWhile go_isspace (rev (dropWhile go_isspace s)))"

text \<open>Python's \<open>strip\<close> removes four control characters more.\<close>

definition no_separators :: "string \<Rightarrow> bool" where
  "no_separators s \<longleftrightarrow> list_all (\<lambda>c. \<not> (28 \<le> (of_char c :: nat) \<and> of_char c \<le> (31 :: nat))) s"

lemma trim_space_py_strip:
  assumes "no_separators s"
  shows "trim_space s = py_strip s"
proof -
  have same: "dropWhile go_isspace xs = dropWhile py_isspace xs" if "set xs \<subseteq> set s" for xs
    using that assms
    by (intro dropWhile_cong) (auto simp: no_separators_def list_all_iff go_isspace_def py_isspace_def Let_def)
  have "set (rev (dropWhile py_isspace s)) \<subseteq> set s" by (auto dest: set_dropWhileD)
  then show ?thesis unfolding trim_space_def py_strip_def py_lstrip_def by (simp add: same)
qed

section \<open>Shell patterns of \<open>path.Match\<close>\<close>

text \<open>The scanner: leading stars, and the text up to the next star outside brackets.\<close>

fun scan_body :: "bool \<Rightarrow> string \<Rightarrow> string \<times> string" where
  "scan_body inrange [] = ([], [])"
| "scan_body inrange (c # cs) =
     (if c = CHR 0x5C then (case cs of
          [] \<Rightarrow> ([c], [])
        | d # ds \<Rightarrow> let (chunk, rest) = scan_body inrange ds in (c # d # chunk, rest))
      else if c = CHR ''*'' \<and> \<not> inrange then ([], c # cs)
      else let (chunk, rest) = scan_body (if c = CHR ''['' then True else if c = CHR '']'' then False else inrange) cs
        in (c # chunk, rest))"

definition scan_chunk :: "string \<Rightarrow> bool \<times> string \<times> string" where
  "scan_chunk pat = (take 1 pat = ''*'', scan_body False (dropWhile (\<lambda>c. c = CHR ''*'') pat))"

text \<open>\<open>getEsc\<close>: a possibly escaped character of a class; the class must not end there.\<close>

definition get_esc :: "string \<Rightarrow> unit + char \<times> string" where
  "get_esc chunk =
     (if chunk = [] \<or> hd chunk = CHR ''-'' \<or> hd chunk = CHR '']'' then Inl ()
      else let chunk = (if hd chunk = CHR 0x5C then tl chunk else chunk) in
        if chunk = [] \<or> tl chunk = [] then Inl () else Inr (hd chunk, tl chunk))"

lemma get_esc_shorter: "get_esc chunk = Inr (c, rest) \<Longrightarrow> length rest < length chunk \<and> rest \<noteq> []"
  by (cases chunk) (auto simp: get_esc_def Let_def split: if_splits)

text \<open>The ranges of a class up to its closing bracket, and whether one contains the character \<open>r\<close>.\<close>

function class_ranges :: "nat \<Rightarrow> char option \<Rightarrow> bool \<Rightarrow> string \<Rightarrow> unit + bool \<times> string" where
  "class_ranges nrange r matched chunk =
     (if chunk \<noteq> [] \<and> hd chunk = CHR '']'' \<and> 0 < nrange then Inr (matched, tl chunk)
      else case get_esc chunk of
          Inl e \<Rightarrow> Inl e
        | Inr (lo, chunk1) \<Rightarrow>
            (case (if hd chunk1 = CHR ''-'' then get_esc (tl chunk1) else Inr (lo, chunk1)) of
               Inl e \<Rightarrow> Inl e
             | Inr (hi, chunk2) \<Rightarrow>
                 class_ranges (Suc nrange) r (matched \<or> (case r of None \<Rightarrow> False | Some x \<Rightarrow> lo \<le> x \<and> x \<le> hi)) chunk2))"
  by pat_completeness auto
termination
proof (relation "measure (\<lambda>(_, _, _, chunk). length chunk)")
  fix nrange r matched chunk x lo chunk1 y hi chunk2
  assume a: "get_esc chunk = Inr x" "(lo, chunk1) = x"
    "(if hd chunk1 = CHR ''-'' then get_esc (tl chunk1) else Inr (lo, chunk1)) = Inr y" "(hi, chunk2) = y"
  from a have "length chunk1 < length chunk" using get_esc_shorter [of chunk lo chunk1] by auto
  moreover have "length chunk2 \<le> length chunk1"
    using a(3,4) get_esc_shorter [of "tl chunk1" hi chunk2] by (auto split: if_splits)
  ultimately show "((Suc nrange, r, matched \<or> (case r of None \<Rightarrow> False | Some x \<Rightarrow> lo \<le> x \<and> x \<le> hi), chunk2),
      (nrange, r, matched, chunk)) \<in> measure (\<lambda>(_, _, _, chunk). length chunk)" by simp
qed simp

declare class_ranges.simps [simp del]

lemma class_ranges_shorter: "class_ranges n r m chunk = Inr (b, rest) \<Longrightarrow> length rest < length chunk"
proof (induction n r m chunk rule: class_ranges.induct)
  case (1 n r m chunk)
  show ?case
  proof (cases "chunk \<noteq> [] \<and> hd chunk = CHR '']'' \<and> 0 < n")
    case True
    with "1.prems" show ?thesis by (cases chunk) (auto simp: class_ranges.simps)
  next
    case False
    from "1.prems" False obtain lo chunk1 where e1: "get_esc chunk = Inr (lo, chunk1)"
      by (cases "get_esc chunk") (auto simp: class_ranges.simps [of n r m chunk])
    from "1.prems" False e1 obtain hi chunk2
      where e2: "(if hd chunk1 = CHR ''-'' then get_esc (tl chunk1) else Inr (lo, chunk1)) = Inr (hi, chunk2)"
      by (cases "if hd chunk1 = CHR ''-'' then get_esc (tl chunk1) else Inr (lo, chunk1)")
        (auto simp: class_ranges.simps [of n r m chunk])
    have "class_ranges (Suc n) r (m \<or> (case r of None \<Rightarrow> False | Some x \<Rightarrow> lo \<le> x \<and> x \<le> hi)) chunk2 = Inr (b, rest)"
      using "1.prems" False e1 e2 by (simp add: class_ranges.simps [of n r m chunk])
    from "1.IH" [OF False e1 refl e2 refl this] have "length rest < length chunk2" .
    moreover have "length chunk2 \<le> length chunk1"
      using e2 get_esc_shorter [of "tl chunk1" hi chunk2] by (auto split: if_splits)
    moreover have "length chunk1 < length chunk" using get_esc_shorter [OF e1] by simp
    ultimately show ?thesis by simp
  qed
qed

text \<open>
  A chunk against the start of the name: the rest of the name, no match, or a syntax error. After a
  failure the rest of the chunk is still read for its syntax.
\<close>

function match_chunk :: "bool \<Rightarrow> string \<Rightarrow> string \<Rightarrow> unit + string option" where
  "match_chunk failed [] s = Inr (if failed then None else Some s)"
| "match_chunk failed (c # cs) s =
     (let failed = (failed \<or> s = []) in
      if c = CHR ''['' then
        let negated = (take 1 cs = ''^'') in
        (case class_ranges 0 (if failed then None else Some (hd s)) False (if negated then tl cs else cs) of
           Inl e \<Rightarrow> Inl e
         | Inr (matched, rest) \<Rightarrow> match_chunk (failed \<or> matched = negated) rest (if failed then s else tl s))
      else if c = CHR ''?'' then
        match_chunk (failed \<or> hd s = CHR ''/'') cs (if failed then s else tl s)
      else if c = CHR 0x5C then
        (case cs of
           [] \<Rightarrow> Inl ()
         | d # ds \<Rightarrow> match_chunk (failed \<or> d \<noteq> hd s) ds (if failed then s else tl s))
      else match_chunk (failed \<or> c \<noteq> hd s) cs (if failed then s else tl s))"
  by pat_completeness auto
termination
proof (relation "measure (\<lambda>(_, chunk, _). length chunk)")
  fix failed c cs s f n x matched rest
  assume "class_ranges 0 (if f then None else Some (hd s)) False (if n then tl cs else cs) = Inr x" "(matched, rest) = x"
  then have "length rest < length (if n then tl cs else cs)"
    using class_ranges_shorter [of 0 "if f then None else Some (hd s)" False "if n then tl cs else cs" matched rest] by auto
  then show "((f \<or> matched = n, rest, if f then s else tl s), (failed, c # cs, s)) \<in> measure (\<lambda>(_, chunk, _). length chunk)"
    by (auto split: if_splits)
qed auto

text \<open>\<open>Match\<close> after a star: skip one character at a time, never a slash, to the leftmost match.\<close>

fun try_skip :: "bool \<Rightarrow> string \<Rightarrow> string \<Rightarrow> unit + string option" where
  "try_skip is_last chunk [] = Inr None"
| "try_skip is_last chunk (c # s) =
     (if c = CHR ''/'' then Inr None
      else case match_chunk False chunk s of
          Inl e \<Rightarrow> Inl e
        | Inr None \<Rightarrow> try_skip is_last chunk s
        | Inr (Some t) \<Rightarrow> if is_last \<and> t \<noteq> [] then try_skip is_last chunk s else Inr (Some t))"

lemma scan_body_length: "scan_body r pat = (chunk, rest) \<Longrightarrow> length pat = length chunk + length rest"
  by (induction r pat arbitrary: chunk rest rule: scan_body.induct)
    (auto split: if_splits prod.splits list.splits)

lemma scan_body_progress:
  "scan_body False pat = ([], rest) \<Longrightarrow> take 1 pat = ''*'' \<or> pat = []"
  by (cases pat) (auto split: if_splits prod.splits list.splits)

lemma scan_chunk_shorter:
  assumes "scan_chunk pat = (star, chunk, rest)" and "pat \<noteq> []"
  shows "length rest < length pat"
proof -
  let ?p = "dropWhile (\<lambda>c. c = CHR ''*'') pat"
  from assms have s: "star = (take 1 pat = ''*'')" and b: "scan_body False ?p = (chunk, rest)"
    by (simp_all add: scan_chunk_def)
  have len: "length ?p = length chunk + length rest" by (rule scan_body_length [OF b])
  show ?thesis
  proof (cases pat)
    case (Cons c cs)
    show ?thesis
    proof (cases "c = CHR ''*''")
      case True
      have "length ?p \<le> length cs" using True Cons length_dropWhile_le [of _ cs] by simp
      with len Cons show ?thesis by simp
    next
      case False
      then have "chunk \<noteq> []" using scan_body_progress [of ?p rest] b Cons by auto
      with len False Cons show ?thesis by (cases chunk) auto
    qed
  qed (use assms(2) in simp)
qed

text \<open>Before a mismatch is reported the rest of the pattern is checked for its syntax.\<close>

function check_rest :: "string \<Rightarrow> unit + bool" where
  "check_rest pat =
     (if pat = [] then Inr False
      else case scan_chunk pat of (_, chunk, rest) \<Rightarrow>
        (case match_chunk False chunk [] of Inl e \<Rightarrow> Inl e | Inr _ \<Rightarrow> check_rest rest))"
  by pat_completeness auto
termination
  by (relation "measure length") (auto intro: scan_chunk_shorter [OF sym])

function path_match :: "string \<Rightarrow> string \<Rightarrow> unit + bool" where
  "path_match pat name =
     (if pat = [] then Inr (name = [])
      else case scan_chunk pat of (star, chunk, rest) \<Rightarrow>
        if star \<and> chunk = [] then Inr (CHR ''/'' \<notin> set name)
        else case match_chunk False chunk name of
            Inl e \<Rightarrow> Inl e
          | Inr found \<Rightarrow>
              (case Option.bind found (\<lambda>t. if t = [] \<or> rest \<noteq> [] then Some t else None) of
                 Some t \<Rightarrow> path_match rest t
               | None \<Rightarrow> if \<not> star then check_rest rest
                   else (case try_skip (rest = []) chunk name of
                       Inl e \<Rightarrow> Inl e
                     | Inr (Some t) \<Rightarrow> path_match rest t
                     | Inr None \<Rightarrow> check_rest rest)))"
  by pat_completeness auto
termination
  by (relation "measure (\<lambda>(pat, _). length pat)") (auto intro: scan_chunk_shorter [OF sym])

declare path_match.simps [simp del] check_rest.simps [simp del]

end
