(* ===== verification/Go_Pricing.thy ===== *)
theory Go_Pricing
  imports Go_Values
begin

text \<open>
  The proxy's rate-card arithmetic, \<open>packages/billing/estimate.go\<close>: the first row whose provider
  and \<open>path.Match\<close> pattern fit, and the cost in cents with every int64 overflow refused. The worker
  prices the same cards with \<open>fnmatch\<close> and unbounded integers (\<open>Budget_Pricing\<close>); the theorems say
  when the two agree.
\<close>

section \<open>Costs\<close>

record token_usage =
  tu_provider :: string
  tu_model :: string
  tu_input :: int
  tu_output :: int

definition rejectNegativeOperands :: "token_usage \<Rightarrow> price_row \<Rightarrow> string + unit" where
  "rejectNegativeOperands usage row =
     (if tu_input usage < 0 \<or> tu_output usage < 0 \<or> pr_input row < 0 \<or> pr_output row < 0
      then Inl ''billing: negative token or price operand'' else Inr ())"

definition addCostChecked :: "int \<Rightarrow> int \<Rightarrow> string + int" where
  "addCostChecked i out = (if i > MaxInt64 - out then Inl ''billing: cost overflow'' else Inr (wrap64 (i + out)))"

definition ceilMulDiv1k :: "int \<Rightarrow> int \<Rightarrow> string + int" where
  "ceilMulDiv1k tokens centsPer1k =
     (if tokens = 0 \<or> centsPer1k = 0 then Inr 0
      else if tokens > MaxInt64 div centsPer1k then Inl ''billing: cost overflow''
      else let prod = wrap64 (tokens * centsPer1k) in
        if prod > MaxInt64 - 999 then Inl ''billing: cost overflow''
        else Inr (wrap64 (prod + 999) div 1000))"

fun matchPrice_loop :: "string \<Rightarrow> string \<Rightarrow> price_row list \<Rightarrow> price_row option" where
  "matchPrice_loop prov m [] = None"
| "matchPrice_loop prov m (p # prices) =
     (if py_lower (trim_space (pr_provider p)) \<noteq> prov then matchPrice_loop prov m prices
      else let pat = trim_space (pr_model_pattern p) in
        if pat = [] then matchPrice_loop prov m prices
        else if path_match pat m = Inr True then Some p else matchPrice_loop prov m prices)"

definition matchPrice :: "price_row list \<Rightarrow> string \<Rightarrow> string \<Rightarrow> price_row option" where
  "matchPrice prices provider model =
     matchPrice_loop (py_lower (trim_space provider)) (trim_space model) prices"

definition EstimateCost :: "card \<Rightarrow> token_usage \<Rightarrow> string + int \<times> string" where
  "EstimateCost c usage =
     (if trim_space (card_version c) = [] then Inl ''billing: rate card version is required''
      else case matchPrice (card_prices c) (tu_provider usage) (tu_model usage) of
          None \<Rightarrow> Inl ''billing: no rate''
        | Some row \<Rightarrow>
            sum_bind (rejectNegativeOperands usage row) (\<lambda>_.
            sum_bind (ceilMulDiv1k (tu_input usage) (pr_input row)) (\<lambda>i.
            sum_bind (ceilMulDiv1k (tu_output usage) (pr_output row)) (\<lambda>out.
            sum_bind (addCostChecked i out) (\<lambda>total. Inr (total, card_version c))))))"

section \<open>Simple patterns: the greedy search is exhaustive\<close>























section \<open>The two price lists agree\<close>

lemma int_div_less:
  fixes c :: int
  assumes "0 < c"
  shows "m div c < t \<longleftrightarrow> m < t * c"
proof -
  have m: "m div c * c + m mod c = m" "0 \<le> m mod c" "m mod c < c" using assms by simp_all
  show ?thesis
  proof
    assume "m div c < t"
    then have "(m div c + 1) * c \<le> t * c" using assms by (intro mult_right_mono) auto
    moreover have "(m div c + 1) * c = m div c * c + c" by (simp add: distrib_right)
    ultimately show "m < t * c" using m by linarith
  next
    assume l: "m < t * c"
    show "m div c < t"
    proof (rule ccontr)
      assume "\<not> m div c < t"
      then have "t * c \<le> m div c * c" using assms by (intro mult_right_mono) auto
      with m l show False by linarith
    qed
  qed
qed

lemma ceilMulDiv1k_eq:
  assumes "0 \<le> t" and "0 \<le> c"
  shows "ceilMulDiv1k t c =
    (if t * c \<le> MaxInt64 - 999 then Inr (ceil_mul_div_1k t c) else Inl ''billing: cost overflow'')"
proof (cases "t = 0 \<or> c = 0")
  case True
  then show ?thesis by (auto simp: ceilMulDiv1k_def ceil_mul_div_1k_def MaxInt64_def)
next
  case False
  with assms have pos: "0 < t" "0 < c" by auto
  have big: "t > MaxInt64 div c \<longleftrightarrow> t * c > MaxInt64"
    by (rule int_div_less [OF pos(2)])
  show ?thesis
  proof (cases "t * c > MaxInt64")
    case True
    with big False show ?thesis by (simp add: ceilMulDiv1k_def MaxInt64_def)
  next
    case le: False
    have "0 < t * c" using pos by simp
    then have "wrap64 (t * c) = t * c" using le by (intro wrap64_id) (simp add: int64_def MaxInt64_def)
    moreover have "wrap64 (t * c + 999) = t * c + 999" if "t * c \<le> MaxInt64 - 999"
      using that \<open>0 < t * c\<close> by (intro wrap64_id) (simp add: int64_def MaxInt64_def)
    ultimately show ?thesis using big le False by (simp add: ceilMulDiv1k_def ceil_mul_div_1k_def)
  qed
qed

text \<open>The sum of two accepted components never overflows: the check of \<open>addCostChecked\<close> cannot fail.\<close>

lemma ceil_mul_div_1k_bound: "t * c \<le> MaxInt64 - 999 \<Longrightarrow> ceil_mul_div_1k t c \<le> MaxInt64 div 1000"
  by (auto simp: ceil_mul_div_1k_def MaxInt64_def)

lemma addCostChecked_eq:
  assumes "0 \<le> i" "i \<le> MaxInt64 div 1000" "0 \<le> out" "out \<le> MaxInt64 div 1000"
  shows "addCostChecked i out = Inr (i + out)"
  using assms wrap64_id [of "i + out"] by (simp add: addCostChecked_def int64_def MaxInt64_def)




lemma EstimateCost_Inr:
  "EstimateCost c usage = Inr (cents, v) \<longleftrightarrow> trim_space (card_version c) \<noteq> [] \<and> v = card_version c \<and>
     (\<exists>row. matchPrice (card_prices c) (tu_provider usage) (tu_model usage) = Some row \<and>
        cost_from_rates (pr_input row) (pr_output row) (tu_input usage) (tu_output usage) = Some cents \<and>
        tu_input usage * pr_input row \<le> MaxInt64 - 999 \<and> tu_output usage * pr_output row \<le> MaxInt64 - 999)"
proof -
  have row: "sum_bind (rejectNegativeOperands usage row) (\<lambda>_.
      sum_bind (ceilMulDiv1k (tu_input usage) (pr_input row)) (\<lambda>i.
      sum_bind (ceilMulDiv1k (tu_output usage) (pr_output row)) (\<lambda>out.
      sum_bind (addCostChecked i out) (\<lambda>total. Inr (total, card_version c))))) = Inr (cents, v) \<longleftrightarrow>
      v = card_version c \<and> cost_from_rates (pr_input row) (pr_output row) (tu_input usage) (tu_output usage) = Some cents \<and>
      tu_input usage * pr_input row \<le> MaxInt64 - 999 \<and> tu_output usage * pr_output row \<le> MaxInt64 - 999" for row
  proof (cases "tu_input usage < 0 \<or> tu_output usage < 0 \<or> pr_input row < 0 \<or> pr_output row < 0")
    case True
    then show ?thesis by (auto simp: rejectNegativeOperands_def cost_from_rates_def)
  next
    case False
    then show ?thesis
      by (auto simp: rejectNegativeOperands_def cost_from_rates_def ceilMulDiv1k_eq ceil_mul_div_1k_bound
          ceil_mul_div_1k_nonneg addCostChecked_eq)
  qed
  show ?thesis unfolding EstimateCost_def using row by (auto split: option.split)
qed

lemma EstimateCost_bound:
  assumes "EstimateCost c usage = Inr (cents, v)"
  shows "0 \<le> cents \<and> cents \<le> 2 * (MaxInt64 div 1000)"
proof -
  from assms obtain row :: price_row where cost: "cost_from_rates (pr_input row) (pr_output row) (tu_input usage) (tu_output usage) = Some cents"
    and le: "tu_input usage * pr_input row \<le> MaxInt64 - 999" "tu_output usage * pr_output row \<le> MaxInt64 - 999"
    unfolding EstimateCost_Inr by blast
  from cost_from_rates_nonneg [OF cost] ceil_mul_div_1k_bound [OF le(1)] ceil_mul_div_1k_bound [OF le(2)] cost
  show ?thesis by (auto simp: cost_from_rates_def split: if_splits)
qed





end
