(* ===== verification/Proxy_Ledger.thy ===== *)
theory Proxy_Ledger
  imports Budget_System Go_Pricing
begin

text \<open>
  The proxy's budget ledger, \<open>packages/budgetledger/ledger.go\<close>, on the same table and under the same
  advisory lock as the worker's. \<open>Claim\<close> decides in signed 64-bit arithmetic, reads \<open>NOW()\<close> for
  the live holds but the proxy's own clock for the lease of the row it finds, and answers with an outcome;
  \<open>Finalize\<close> and \<open>Release\<close> settle a claim by its version. Leases are whole microseconds; the proxy's clock
  is in nanoseconds. Completeness markers other than the two of the schema are \<open>None\<close>.
\<close>

section \<open>Types\<close>

record Principal =
  pOrgID :: uuid
  pAgentID :: uuid

record ClaimRequest =
  qKey :: string
  qRequestHash :: string
  qEstimatedCents :: int

datatype ClaimKind = ClaimOwned | ClaimInProgress | ClaimConflict | ClaimExceeded | ClaimNoCap

record Reservation =
  rID :: uuid
  rPrincipal :: Principal
  rKey :: string
  rRequestHash :: string
  rPeriodID :: uuid
  rVersion :: int

text \<open>The reservation of an outcome is set for an owned claim only.\<close>

record ClaimOutcome =
  oKind :: ClaimKind
  oReservation :: "Reservation option"
  oRetryAfter :: int
  oRemainingCents :: int

datatype proxy_error = ErrInvalidClaim | ErrClaimClosed string | ErrDatabase string

type_synonym 'a proxy_tx = "(budget_db, proxy_error, 'a) tx"

text \<open>One call: the database's side as for the worker, and two readings of the proxy's clock.\<close>

record proxy_env =
  pe_db :: budget_env
  pe_wall :: int
  pe_wall_retry :: int

abbreviation pe_now :: "proxy_env \<Rightarrow> usec" where "pe_now e \<equiv> be_now (pe_db e)"

definition DefaultLease :: usec where "DefaultLease = 15 * 60 * second"

definition ledger_lease :: "usec \<Rightarrow> usec" where
  "ledger_lease lease = (if lease \<le> 0 then DefaultLease else lease)"

definition validClaimRequest :: "Principal \<Rightarrow> ClaimRequest \<Rightarrow> bool" where
  "validClaimRequest p req \<longleftrightarrow> pOrgID p \<noteq> 0 \<and> pAgentID p \<noteq> 0 \<and> trim_space (qKey req) \<noteq> [] \<and>
     utf8_length (qKey req) \<le> 256 \<and> trim_space (qRequestHash req) \<noteq> [] \<and> 0 \<le> qEstimatedCents req"

definition validReservation :: "Reservation \<Rightarrow> bool" where
  "validReservation own \<longleftrightarrow> rID own \<noteq> 0 \<and> pOrgID (rPrincipal own) \<noteq> 0 \<and> pAgentID (rPrincipal own) \<noteq> 0 \<and>
     trim_space (rKey own) \<noteq> [] \<and> trim_space (rRequestHash own) \<noteq> []"

section \<open>Statements\<close>

definition outcome_of :: "ClaimKind \<Rightarrow> ClaimOutcome" where
  "outcome_of kind = \<lparr>oKind = kind, oReservation = None, oRetryAfter = 0, oRemainingCents = 0\<rparr>"

definition withOrgTx :: "proxy_env \<Rightarrow> 'a proxy_tx \<Rightarrow> 'a proxy_tx" where
  "withOrgTx e fn = (if be_fault (pe_db e) then tx_raise (ErrDatabase ''transaction'') else service_org_session fn)"

definition sql_error :: "string \<Rightarrow> 'a budget_tx \<Rightarrow> 'a proxy_tx" where
  "sql_error label m = map_error (\<lambda>_. ErrDatabase label) m"

definition loadActivePeriod :: "proxy_env \<Rightarrow> uuid \<Rightarrow> budget_period option proxy_tx" where
  "loadActivePeriod e orgID = tx_get (\<lambda>db. sql_max bp_start (filter
     (\<lambda>p. bp_org p = orgID \<and> bp_start p \<le> pe_now e \<and> pe_now e < bp_end p \<and> bp_mode p = Hard_cap) (bd_periods db)))"

definition loadReservation :: "Principal \<Rightarrow> string \<Rightarrow> reservation option proxy_tx" where
  "loadReservation p key = tx_get (\<lambda>db. sql_first (reservation_has_key (pOrgID p) (pAgentID p) key) (bd_rows db))"

definition activeHoldCents :: "proxy_env \<Rightarrow> Principal \<Rightarrow> uuid \<Rightarrow> uuid \<Rightarrow> int proxy_tx" where
  "activeHoldCents e p periodID excludeID =
     tx_bind (tx_get (\<lambda>db. active_holds (pe_now e) (pOrgID p) periodID (Some excludeID) (bd_rows db))) (\<lambda>cents.
     if int64 cents then tx_return cents else tx_raise (ErrDatabase ''budgetledger: sum active holds''))"

definition capExceeded :: "budget_period \<Rightarrow> int \<Rightarrow> ClaimRequest \<Rightarrow> bool" where
  "capExceeded period holds req \<longleftrightarrow> wrap64 (wrap64 (bp_spent period + holds) + qEstimatedCents req) > bp_cap period"

definition proxy_row :: "proxy_env \<Rightarrow> Principal \<Rightarrow> ClaimRequest \<Rightarrow> budget_period \<Rightarrow> usec \<Rightarrow> reservation" where
  "proxy_row e p req period lease =
     \<lparr>br_id = be_uuid (pe_db e), br_org = pOrgID p, br_agent = pAgentID p, br_period = bp_id period,
      br_key = qKey req, br_hash = qRequestHash req, br_state = BClaimed, br_estimated = qEstimatedCents req,
      br_price_in = None, br_price_out = None, br_final = None, br_completeness = None,
      br_lease = Some (pe_now e + lease), br_version = 1, br_created = pe_now e\<rparr>"

definition proxy_reset_fields :: "proxy_env \<Rightarrow> ClaimRequest \<Rightarrow> budget_period \<Rightarrow> usec \<Rightarrow> reservation \<Rightarrow> reservation" where
  "proxy_reset_fields e req period lease r = r\<lparr>br_state := BClaimed, br_period := bp_id period,
     br_estimated := qEstimatedCents req, br_final := None, br_completeness := None,
     br_lease := Some (pe_now e + lease), br_version := br_version r + 1\<rparr>"

definition row_at :: "Principal \<Rightarrow> string \<Rightarrow> reservation \<Rightarrow> reservation \<Rightarrow> bool" where
  "row_at p key row r \<longleftrightarrow> br_id r = br_id row \<and> reservation_has_key (pOrgID p) (pAgentID p) key r \<and>
     br_version r = br_version row"

section \<open>Admission\<close>

definition ownedOutcome :: "Principal \<Rightarrow> ClaimRequest \<Rightarrow> uuid \<Rightarrow> reservation \<Rightarrow> ClaimOutcome" where
  "ownedOutcome p req periodID row = (outcome_of ClaimOwned)\<lparr>oReservation := Some
     \<lparr>rID = br_id row, rPrincipal = p, rKey = qKey req, rRequestHash = qRequestHash req, rPeriodID = periodID,
      rVersion = br_version row\<rparr>\<rparr>"

definition exceededOutcome :: "budget_period \<Rightarrow> int \<Rightarrow> ClaimOutcome" where
  "exceededOutcome period holds =
     (let remaining = wrap64 (wrap64 (bp_cap period - bp_spent period) - holds)
      in (outcome_of ClaimExceeded)\<lparr>oRemainingCents := (if remaining < 0 then 0 else remaining)\<rparr>)"

definition claimFresh :: "proxy_env \<Rightarrow> Principal \<Rightarrow> ClaimRequest \<Rightarrow> budget_period \<Rightarrow> usec \<Rightarrow> ClaimOutcome proxy_tx" where
  "claimFresh e p req period lease = tx_bind (activeHoldCents e p (bp_id period) 0) (\<lambda>holds.
     if capExceeded period holds req then tx_return (exceededOutcome period holds)
     else tx_bind (sql_error ''budgetledger: insert reservation''
            (insert_reservation (pe_db e) (proxy_row e p req period lease))) (\<lambda>inserted. case inserted of
         None \<Rightarrow> tx_return ((outcome_of ClaimInProgress)\<lparr>oRetryAfter := 1000000000\<rparr>)
       | Some row \<Rightarrow> tx_return (ownedOutcome p req (bp_id period) row)))"

text \<open>The lease of the row found is compared with the proxy's clock.\<close>

definition liveClaimLease :: "proxy_env \<Rightarrow> reservation \<Rightarrow> bool" where
  "liveClaimLease e row \<longleftrightarrow> br_state row = BClaimed \<and>
     (case br_lease row of None \<Rightarrow> False | Some l \<Rightarrow> l * 1000 > pe_wall e)"

definition expireStaleClaim :: "Principal \<Rightarrow> string \<Rightarrow> reservation \<Rightarrow> unit proxy_tx" where
  "expireStaleClaim p key row =
     (if br_state row \<noteq> BClaimed then tx_return ()
      else tx_bind (sql_error ''budgetledger: expire stale claim''
        (checked_update (\<lambda>r. row_at p key row r \<and> br_state r = BClaimed) expire_fields)) (\<lambda>_. tx_return ()))"

definition resetHeldRow ::
  "proxy_env \<Rightarrow> Principal \<Rightarrow> ClaimRequest \<Rightarrow> budget_period \<Rightarrow> usec \<Rightarrow> reservation \<Rightarrow> ClaimOutcome proxy_tx" where
  "resetHeldRow e p req period lease row =
     tx_bind (sql_error ''budgetledger: reset reservation''
       (checked_update (row_at p (qKey req) row) (proxy_reset_fields e req period lease))) (\<lambda>updated. case updated of
       [] \<Rightarrow> tx_raise (ErrDatabase ''budgetledger: reset reservation'')
     | r # _ \<Rightarrow> tx_return (ownedOutcome p req (bp_id period) r))"

definition resolveExisting ::
  "proxy_env \<Rightarrow> Principal \<Rightarrow> ClaimRequest \<Rightarrow> budget_period \<Rightarrow> usec \<Rightarrow> reservation \<Rightarrow> ClaimOutcome proxy_tx" where
  "resolveExisting e p req period lease row =
     (if br_hash row \<noteq> qRequestHash req then tx_return (outcome_of ClaimConflict)
      else if liveClaimLease e row
      then tx_return ((outcome_of ClaimInProgress)\<lparr>oRetryAfter :=
             (case br_lease row of None \<Rightarrow> 0 | Some l \<Rightarrow> l * 1000 - pe_wall_retry e)\<rparr>)
      else tx_bind (activeHoldCents e p (bp_id period) (br_id row)) (\<lambda>otherHolds.
        if capExceeded period otherHolds req
        then tx_bind (expireStaleClaim p (qKey req) row) (\<lambda>_. tx_return (exceededOutcome period otherHolds))
        else resetHeldRow e p req period lease row))"

definition claimInTx :: "usec \<Rightarrow> proxy_env \<Rightarrow> Principal \<Rightarrow> ClaimRequest \<Rightarrow> ClaimOutcome proxy_tx" where
  "claimInTx lease e p req = tx_bind (loadActivePeriod e (pOrgID p)) (\<lambda>found. case found of
     None \<Rightarrow> tx_return (outcome_of ClaimNoCap)
   | Some period \<Rightarrow> tx_bind (loadReservation p (qKey req)) (\<lambda>exists. case exists of
       None \<Rightarrow> claimFresh e p req period lease
     | Some row \<Rightarrow> resolveExisting e p req period lease row))"

definition Claim :: "usec \<Rightarrow> proxy_env \<Rightarrow> Principal \<Rightarrow> ClaimRequest \<Rightarrow> ClaimOutcome proxy_tx" where
  "Claim lease e p req =
     (let req = req\<lparr>qKey := trim_space (qKey req), qRequestHash := trim_space (qRequestHash req)\<rparr> in
      if \<not> validClaimRequest p req then tx_raise ErrInvalidClaim
      else withOrgTx e (claimInTx (ledger_lease lease) e p req))"

section \<open>Settlement\<close>

definition settle_params :: "Reservation \<Rightarrow> reservation \<Rightarrow> bool" where
  "settle_params own r \<longleftrightarrow> br_id r = rID own \<and>
     reservation_has_key (pOrgID (rPrincipal own)) (pAgentID (rPrincipal own)) (rKey own) r \<and>
     br_version r = rVersion own \<and> br_state r = BClaimed"

definition loadReservationState :: "Reservation \<Rightarrow> reservation proxy_tx" where
  "loadReservationState own = tx_bind (tx_get (\<lambda>db. sql_first (\<lambda>r. br_id r = rID own \<and>
       reservation_has_key (pOrgID (rPrincipal own)) (pAgentID (rPrincipal own)) (rKey own) r) (bd_rows db)))
     (\<lambda>found. case found of None \<Rightarrow> tx_raise (ErrClaimClosed ''row missing'') | Some row \<Rightarrow> tx_return row)"

definition settle ::
  "proxy_env \<Rightarrow> Reservation \<Rightarrow> (reservation \<Rightarrow> reservation) \<Rightarrow> (reservation \<Rightarrow> bool) \<Rightarrow> unit proxy_tx" where
  "settle e own update idempotent = withOrgTx e
     (tx_bind (sql_error ''settle'' (checked_update (settle_params own) update)) (\<lambda>hit.
        if length hit = 1 then tx_return ()
        else tx_bind (loadReservationState own) (\<lambda>settled.
          if \<not> idempotent settled then tx_raise (ErrClaimClosed ''state'') else tx_return ())))"

definition finalizedMatches :: "reservation \<Rightarrow> int \<Rightarrow> completeness \<Rightarrow> bool" where
  "finalizedMatches settled amountFinalCents quality \<longleftrightarrow> br_state settled = BFinalized \<and>
     br_final settled = Some amountFinalCents \<and> br_completeness settled = Some quality"

definition Finalize :: "proxy_env \<Rightarrow> Reservation \<Rightarrow> int \<Rightarrow> completeness option \<Rightarrow> unit proxy_tx" where
  "Finalize e own amountFinalCents quality = (case quality of
     None \<Rightarrow> tx_raise ErrInvalidClaim
   | Some k \<Rightarrow>
       if \<not> validReservation own \<or> amountFinalCents < 0 then tx_raise ErrInvalidClaim
       else settle e own (finalize_fields amountFinalCents k) (\<lambda>settled.
         br_version settled = wrap64 (rVersion own + 1) \<and> finalizedMatches settled amountFinalCents k))"

definition Release :: "proxy_env \<Rightarrow> Reservation \<Rightarrow> unit proxy_tx" where
  "Release e own =
     (if \<not> validReservation own then tx_raise ErrInvalidClaim
      else settle e own release_fields (\<lambda>settled.
        br_version settled = wrap64 (rVersion own + 1) \<and> br_state settled = BReleased))"

end
