(* ===== verification/Go_Provider.thy ===== *)
theory Go_Provider
  imports Go_Values
begin

text \<open>
  The provider-neutral types of \<open>packages/provider\<close> and the pure decisions taken on them: which failure may be
  retried on another model (\<open>fallback_eligible.go\<close>), which client error it becomes (\<open>map_error.go\<close>
  and \<open>packages/apierror\<close>), how a directive is spliced into the messages (\<open>packages/injection\<close>),
  and how a fallback chain is cut (\<open>packages/modelpolicy/fallback.go\<close>). An error value is what
  \<open>errors.Is\<close> and \<open>errors.As\<close> find in its chain. The texts of error messages are not modelled.
\<close>

section \<open>Errors and requests\<close>

datatype sentinel = Canceled | DeadlineExceeded | ErrUpstreamTimeout | ErrNoProviderForModel |
  ErrModelNotAllowedForOrg | ErrProviderResponseTooLarge | ErrClientWrite

record ProviderError =
  peProviderName :: string
  peStatusCode :: int
  peRetryAfter :: int
  peReason :: string

record go_error =
  err_is :: "sentinel list"
  err_as :: "ProviderError option"

definition is_err :: "sentinel \<Rightarrow> go_error \<Rightarrow> bool" where
  "is_err x err \<longleftrightarrow> x \<in> set (err_is err)"

record chat_message =
  msgRole :: string
  msgContent :: string

record provider_request =
  prModel :: string
  prMessages :: "chat_message list"
  prStream :: bool
  prMaxTokens :: int
  prAPIKeyOverride :: string
  prBaseURLOverride :: string
  prTLSServerName :: string

record provider_usage =
  puInputTokens :: int
  puOutputTokens :: int

record ChatCompletionRequest =
  ccModel :: string
  ccMessages :: "chat_message list"
  ccStream :: bool
  ccMaxTokens :: "int option"

definition ToProviderRequest :: "ChatCompletionRequest \<Rightarrow> provider_request" where
  "ToProviderRequest parsed =
     \<lparr>prModel = ccModel parsed,
      prMessages = map (\<lambda>msg. \<lparr>msgRole = msgRole msg, msgContent = msgContent msg\<rparr>) (ccMessages parsed),
      prStream = ccStream parsed,
      prMaxTokens = (case ccMaxTokens parsed of None \<Rightarrow> 0 | Some n \<Rightarrow> n),
      prAPIKeyOverride = '''', prBaseURLOverride = '''', prTLSServerName = ''''\<rparr>"

definition hasUpstreamOverride :: "provider_request \<Rightarrow> bool" where
  "hasUpstreamOverride req \<longleftrightarrow>
     trim_space (prAPIKeyOverride req) \<noteq> '''' \<or> trim_space (prBaseURLOverride req) \<noteq> ''''"

section \<open>Fallback eligibility\<close>

definition ErrorReasonCircuitOpen :: string where "ErrorReasonCircuitOpen = ''circuit_open''"
definition ErrorReasonQueueFull :: string where "ErrorReasonQueueFull = ''queue_full''"
definition FallbackReasonCircuitOpen :: string where "FallbackReasonCircuitOpen = ''provider_circuit_open''"
definition FallbackReason5xx :: string where "FallbackReason5xx = ''provider_5xx''"
definition FallbackReasonTimeout :: string where "FallbackReasonTimeout = ''provider_timeout''"

text \<open>A decision is \<open>None\<close> when no fallback may run and its reason otherwise.\<close>

type_synonym FallbackDecision = "string option"

definition fallbackFromProviderError :: "go_error \<Rightarrow> FallbackDecision option" where
  "fallbackFromProviderError err = (case err_as err of
       None \<Rightarrow> None
     | Some pe \<Rightarrow>
         if peReason pe = ErrorReasonCircuitOpen then Some (Some FallbackReasonCircuitOpen)
         else if peStatusCode pe \<ge> 500 then Some (Some FallbackReason5xx)
         else if peStatusCode pe \<ge> 400 \<and> peStatusCode pe < 500 then Some None
         else None)"

definition fallbackFromTimeout :: "go_error \<Rightarrow> FallbackDecision" where
  "fallbackFromTimeout err =
     (if is_err ErrUpstreamTimeout err \<or> is_err DeadlineExceeded err then Some FallbackReasonTimeout else None)"

definition FallbackEligible :: "go_error \<Rightarrow> provider_request \<Rightarrow> FallbackDecision" where
  "FallbackEligible err req =
     (if hasUpstreamOverride req then None
      else case fallbackFromProviderError err of
          Some d \<Rightarrow> d
        | None \<Rightarrow> fallbackFromTimeout err)"

section \<open>Client errors\<close>

definition httpStatusByCode :: "(string \<times> int) list" where
  "httpStatusByCode =
    [(''MISSING_TOKEN'', 401), (''INVALID_TOKEN'', 401), (''INSUFFICIENT_PERMISSIONS'', 403),
     (''PERMISSION_ELEVATION_DENIED'', 403), (''INVALID_JSON'', 400), (''INVALID_REQUEST'', 400),
     (''PROVIDER_NOT_CONFIGURED'', 501), (''MODEL_NOT_ALLOWED'', 403), (''PAYLOAD_TOO_LARGE'', 413),
     (''UNSUPPORTED_MEDIA_TYPE'', 415), (''VALIDATION_ERROR'', 400), (''CAPABILITY_UNSUPPORTED'', 422),
     (''CAPABILITY_UNKNOWN'', 503), (''INVALID_CREDENTIAL'', 422), (''METHOD_NOT_ALLOWED'', 405),
     (''MISSING_AGENT_ID'', 400), (''AGENT_NOT_AUTHORIZED'', 403), (''AGENT_SUSPENDED'', 403),
     (''ORG_SUSPENDED'', 403), (''LAST_OWNER_PROTECTED'', 409), (''MODEL_POLICY_PATTERN_CONFLICT'', 409),
     (''AGENT_SLUG_CONFLICT'', 409), (''AGENT_HAS_SESSIONS'', 409), (''AGENT_STATUS_CONFLICT'', 409),
     (''RATE_LIMITED'', 429), (''BUDGET_EXCEEDED'', 402), (''BUDGET_UNAVAILABLE'', 503),
     (''IDEMPOTENCY_KEY_REUSE'', 409), (''IDEMPOTENCY_IN_PROGRESS'', 409), (''LEGAL_HOLD_SCOPE_CONFLICT'', 409),
     (''LEGAL_HOLD_ACTIVE'', 409), (''CAPTURE_POLICY_CONFLICT'', 409), (''SNAPSHOT_EXPIRED'', 403),
     (''SNAPSHOT_SIGNATURE_INVALID'', 403), (''SNAPSHOT_ORG_MISMATCH'', 403), (''SNAPSHOT_AGENT_MISMATCH'', 403),
     (''SNAPSHOT_KEY_UNKNOWN'', 403), (''INTERNAL_ERROR'', 500), (''SERVICE_DEGRADED'', 503),
     (''EVIDENCE_UNAVAILABLE'', 503), (''AUTH_UNAVAILABLE'', 503), (''PROVIDER_UNAVAILABLE'', 503),
     (''PROVIDER_TIMEOUT'', 504), (''SNAPSHOT_UNAVAILABLE'', 503)]"

definition HTTPStatus :: "string \<Rightarrow> int" where
  "HTTPStatus code = (case map_of httpStatusByCode code of Some status \<Rightarrow> status | None \<Rightarrow> 500)"

record apierror =
  aeCode :: string
  aeHTTPStatus :: int
  aeRetryAfter :: int

definition unavailable :: apierror where
  "unavailable = \<lparr>aeCode = ''PROVIDER_UNAVAILABLE'', aeHTTPStatus = HTTPStatus ''PROVIDER_UNAVAILABLE'', aeRetryAfter = 0\<rparr>"

definition unavailableWithDetail :: "int \<Rightarrow> apierror" where
  "unavailableWithDetail retryAfter =
     \<lparr>aeCode = ''PROVIDER_UNAVAILABLE'', aeHTTPStatus = HTTPStatus ''PROVIDER_UNAVAILABLE'', aeRetryAfter = retryAfter\<rparr>"

record MapInput =
  miStatusCode :: int
  miRetryAfter :: int
  miTransportErr :: "go_error option"
  miReason :: string

text \<open>The outer option says whether the case was handled, the inner one is the error pointer.\<close>

definition mapTransport :: "MapInput \<Rightarrow> apierror option option" where
  "mapTransport inp = (case miTransportErr inp of
       None \<Rightarrow> None
     | Some err \<Rightarrow>
         if is_err Canceled err then Some None
         else if is_err DeadlineExceeded err \<or> is_err ErrUpstreamTimeout err
         then Some (Some \<lparr>aeCode = ''PROVIDER_TIMEOUT'', aeHTTPStatus = HTTPStatus ''PROVIDER_TIMEOUT'', aeRetryAfter = 0\<rparr>)
         else if miStatusCode inp = 0 then Some (Some unavailable)
         else None)"

definition mapReason :: "MapInput \<Rightarrow> apierror option option" where
  "mapReason inp =
     (if miReason inp = ErrorReasonCircuitOpen then Some (Some (unavailableWithDetail (miRetryAfter inp)))
      else if miReason inp = ErrorReasonQueueFull then Some (Some (unavailableWithDetail 0))
      else None)"

definition mapHTTPStatus :: "int \<Rightarrow> int \<Rightarrow> apierror" where
  "mapHTTPStatus status retryAfter =
     (if status = 400 then \<lparr>aeCode = ''INVALID_REQUEST'', aeHTTPStatus = 400, aeRetryAfter = 0\<rparr>
      else if status = 429 then \<lparr>aeCode = ''RATE_LIMITED'', aeHTTPStatus = 429, aeRetryAfter = retryAfter\<rparr>
      else unavailable)"

definition MapProviderError :: "MapInput \<Rightarrow> apierror option" where
  "MapProviderError inp = (case mapTransport inp of
       Some mapped \<Rightarrow> mapped
     | None \<Rightarrow> (case mapReason inp of
           Some mapped \<Rightarrow> mapped
         | None \<Rightarrow> Some (mapHTTPStatus (miStatusCode inp) (miRetryAfter inp))))"

text \<open>\<open>MapError\<close> answers \<open>None\<close> when the caller must not write a response.\<close>

definition MapError :: "go_error \<Rightarrow> apierror option" where
  "MapError err =
     (if is_err Canceled err then None
      else case err_as err of
          Some pe \<Rightarrow> MapProviderError \<lparr>miStatusCode = peStatusCode pe, miRetryAfter = peRetryAfter pe,
                       miTransportErr = None, miReason = peReason pe\<rparr>
        | None \<Rightarrow>
            if is_err DeadlineExceeded err \<or> is_err ErrUpstreamTimeout err
            then MapProviderError \<lparr>miStatusCode = 0, miRetryAfter = 0,
                   miTransportErr = Some \<lparr>err_is = [ErrUpstreamTimeout], err_as = None\<rparr>, miReason = ''''\<rparr>
            else MapProviderError \<lparr>miStatusCode = 0, miRetryAfter = 0, miTransportErr = Some err, miReason = ''''\<rparr>)"

lemmas map_error_defs = MapError_def MapProviderError_def mapTransport_def mapReason_def mapHTTPStatus_def
  unavailable_def unavailableWithDetail_def is_err_def

lemma MapError_None: "MapError err = None \<longleftrightarrow> is_err Canceled err"
  by (auto simp: map_error_defs split: option.splits)

section \<open>Directive injection\<close>

datatype InjectionMode = ModeSystemFirst | ModeSystemAppend | ModeUserPrepend

definition ParseMode :: "string \<Rightarrow> InjectionMode" where
  "ParseMode raw =
     (if trim_space raw = ''system_append'' then ModeSystemAppend
      else if trim_space raw = ''user_prepend'' then ModeUserPrepend
      else ModeSystemFirst)"

definition system_message :: "string \<Rightarrow> chat_message" where
  "system_message dir = \<lparr>msgRole = ''system'', msgContent = dir\<rparr>"

definition injectSystemFirst :: "chat_message list \<Rightarrow> string \<Rightarrow> chat_message list" where
  "injectSystemFirst messages dir = system_message dir # messages"

fun leadingSystemCount :: "chat_message list \<Rightarrow> nat" where
  "leadingSystemCount [] = 0"
| "leadingSystemCount (m # ms) = (if msgRole m \<noteq> ''system'' then 0 else Suc (leadingSystemCount ms))"

definition injectSystemAppend :: "chat_message list \<Rightarrow> string \<Rightarrow> chat_message list" where
  "injectSystemAppend messages dir =
     (let n = leadingSystemCount messages in take n messages @ system_message dir # drop n messages)"

fun firstUserIndex :: "chat_message list \<Rightarrow> nat option" where
  "firstUserIndex [] = None"
| "firstUserIndex (m # ms) = (if msgRole m = ''user'' then Some 0 else map_option Suc (firstUserIndex ms))"

definition injectUserPrepend :: "chat_message list \<Rightarrow> string \<Rightarrow> chat_message list" where
  "injectUserPrepend messages dir = (case firstUserIndex messages of
       None \<Rightarrow> messages
     | Some idx \<Rightarrow> messages[idx := (messages ! idx)
         \<lparr>msgContent := ''[DIRECTIVE]: '' @ dir @ [CHR 0x0A, CHR 0x0A] @ msgContent (messages ! idx)\<rparr>])"

definition Inject :: "chat_message list \<Rightarrow> string \<Rightarrow> InjectionMode \<Rightarrow> chat_message list" where
  "Inject messages dir mode =
     (if trim_space dir = '''' then messages
      else case mode of
          ModeSystemAppend \<Rightarrow> injectSystemAppend messages dir
        | ModeUserPrepend \<Rightarrow> injectUserPrepend messages dir
        | ModeSystemFirst \<Rightarrow> injectSystemFirst messages dir)"

section \<open>Fallback chains\<close>

definition TruncateChain :: "string list \<Rightarrow> int \<Rightarrow> string list" where
  "TruncateChain chain maxDepth =
     (let depth = (if maxDepth < 1 then 1 else maxDepth)
      in if int (length chain) \<le> depth then chain else take (nat depth) chain)"

definition NormalizeFallbackChain :: "string list \<Rightarrow> string list" where
  "NormalizeFallbackChain chain = filter (\<lambda>m. m \<noteq> '''') (map trim_space chain)"

lemma TruncateChain_length: "int (length (TruncateChain chain maxDepth)) \<le> max 1 maxDepth"
  by (auto simp: TruncateChain_def Let_def)

end
