(* ===== verification/Proxy_Runtime.thy ===== *)
theory Proxy_Runtime
  imports Proxy_Ledger Go_Provider "HOL-Library.State_Monad"
begin

text \<open>
  The state in which the proxy's chat handler runs. The handler is wired to interfaces: a budget ledger, providers,
  an idempotency store and ledger, a policy, a router, a credential resolver, a context client. The budget ledger is a
  record of operations over a state of its own; the others answer by functions of a clock that ticks at every
  question, so that two calls need not agree. The objects \<open>*budgetReservation\<close> that request contexts share
  live in a heap and are named by their index. Every call that leaves the process is logged in order.
\<close>

section \<open>Interfaces\<close>

record 'l Ledger =
  ldClaim :: "Principal \<Rightarrow> ClaimRequest \<Rightarrow> 'l \<Rightarrow> (proxy_error + ClaimOutcome) \<times> 'l"
  ldFinalize :: "Reservation \<Rightarrow> int \<Rightarrow> completeness option \<Rightarrow> 'l \<Rightarrow> (proxy_error + unit) \<times> 'l"
  ldRelease :: "Reservation \<Rightarrow> 'l \<Rightarrow> (proxy_error + unit) \<times> 'l"

record BudgetSnapshot =
  bsHasHardCap :: bool
  bsPublishedCard :: card

text \<open>A body is the bytes its reader yields and the error it ends with, if it does not end with \<open>io.EOF\<close>.\<close>

record reader =
  rdBytes :: string
  rdErr :: "go_error option"

record provider_response =
  respBody :: reader
  respStatusCode :: int
  respUsage :: "provider_usage option"

record assemble_result =
  arAssembledContext :: string
  arFallback :: bool

record key_result =
  krPlatformDefault :: bool
  krAPIKey :: string
  krBaseURL :: string

record idem_token =
  itID :: uuid
  itOrgID :: uuid
  itAgentID :: uuid
  itKey :: string
  itRequestHash :: string
  itVersion :: int

text \<open>Outcomes of the durable idempotency ledger and of the Redis store.\<close>

datatype ledger_outcome = LOwned idem_token | LReplay int string | LConflict | LInProgress int

datatype store_outcome = KindMiss | KindHit int string | KindConflict | KindInProgress | KindOther

record Resolved =
  rdvContent :: string
  rdvInjectionMode :: string

record http_request =
  hqAuthOrg :: "uuid option"
  hqAuthAgent :: uuid
  hqAgent :: "uuid option"
  hqRequestID :: string
  hqDirective :: "Resolved option"
  hqPrincipal :: bool
  hqTraced :: bool
  hqAuthorization :: string
  hqIdempotencyKey :: string
  hqSkipMemory :: string
  hqReservation :: "nat option"

record services =
  svCtxErr :: "nat \<Rightarrow> sentinel option"
  svSnapshot :: "nat \<Rightarrow> uuid \<Rightarrow> go_error + BudgetSnapshot"
  svComplete :: "nat \<Rightarrow> string \<Rightarrow> provider_request \<Rightarrow> go_error + provider_response"
  svFallbackChain :: "nat \<Rightarrow> uuid \<Rightarrow> string \<Rightarrow> go_error + string list"
  svForOrg :: "nat \<Rightarrow> uuid \<Rightarrow> string \<Rightarrow> go_error + string"
  svAssemble :: "nat \<Rightarrow> http_request \<Rightarrow> string \<Rightarrow> chat_message list \<Rightarrow> assemble_result"
  svResolveKey :: "nat \<Rightarrow> uuid \<Rightarrow> string \<Rightarrow> string \<Rightarrow> go_error + key_result"
  svPinURL :: "nat \<Rightarrow> string \<Rightarrow> go_error + string \<times> string"
  svDecode :: "string \<Rightarrow> bool"
  svPipeline :: "nat \<Rightarrow> string \<Rightarrow> go_error + string"
  svUsageFromJSON :: "string \<Rightarrow> provider_usage option"
  svClientWrite :: "nat \<Rightarrow> string \<Rightarrow> bool"
  svAccumulated :: "nat \<Rightarrow> string \<Rightarrow> bool \<times> provider_usage option"
  svEnvelope :: "nat \<Rightarrow> int \<Rightarrow> string \<Rightarrow> string"
  svHashRequest :: "string \<Rightarrow> string"
  svFingerprint :: "string \<Rightarrow> bool \<Rightarrow> ChatCompletionRequest \<Rightarrow> string option"
  svIdemClaim :: "nat \<Rightarrow> uuid \<Rightarrow> uuid \<Rightarrow> string \<Rightarrow> string \<Rightarrow> go_error + ledger_outcome"
  svStoreClaim :: "nat \<Rightarrow> uuid \<Rightarrow> string \<Rightarrow> string \<Rightarrow> go_error + store_outcome"

text \<open>The fields of \<open>chatCompletionHandler\<close> the handler branches on; a nil field is \<open>None\<close> or \<open>False\<close>.\<close>

record 'l chatCompletionHandler =
  chBudgetLedger :: "'l Ledger option"
  chBudgetCache :: bool
  chResponsePipeline :: bool
  chIdempotencyStore :: bool
  chTerminationLedger :: bool
  chContextClient :: bool
  chContextEnabled :: bool
  chCredentialResolver :: bool
  chModelRouter :: bool
  chPolicyFallback :: bool
  chMaxFallbackDepth :: int
  chServices :: services

section \<open>State\<close>

record budgetReservation =
  bhClaim :: Reservation
  bhEstimatedCents :: int
  bhCard :: card
  bhSettled :: bool

record idem_claim =
  icOrgID :: uuid
  icKey :: string
  icFP :: string
  icHit :: "(int \<times> string) option"
  icLedger :: "idem_token option"

record requestOutcome =
  roModel :: string
  roProvider :: string
  roStatusCode :: int
  roIsComplete :: bool
  roErrorCode :: string
  roUsage :: "provider_usage option"

datatype event =
    EvNoHardCap
  | EvClaim ClaimRequest "proxy_error + ClaimOutcome"
  | EvFinalize Reservation int completeness bool
  | EvRelease Reservation bool
  | EvComplete string provider_request
  | EvHeader int string
  | EvWrite string
  | EvFlush
  | EvIdemOwned idem_claim
  | EvIdemCommit idem_claim int string
  | EvIdemRelease idem_claim
  | EvPostResponse requestOutcome

record 'l chat_state =
  cs_tick :: nat
  cs_ledger :: 'l
  cs_heap :: "budgetReservation list"
  cs_log :: "event list"

type_synonym ('l, 'a) chat = "('l chat_state, 'a) state"

definition emit :: "event \<Rightarrow> ('l, unit) chat" where
  "emit ev = State (\<lambda>s. ((), s\<lparr>cs_log := cs_log s @ [ev]\<rparr>))"

definition ask :: "(nat \<Rightarrow> 'a) \<Rightarrow> ('l, 'a) chat" where
  "ask q = State (\<lambda>s. (q (cs_tick s), s\<lparr>cs_tick := Suc (cs_tick s)\<rparr>))"

definition call_ledger :: "('l \<Rightarrow> 'a \<times> 'l) \<Rightarrow> ('l, 'a) chat" where
  "call_ledger op = State (\<lambda>s. case op (cs_ledger s) of (x, l) \<Rightarrow> (x, s\<lparr>cs_ledger := l\<rparr>))"

definition alloc :: "budgetReservation \<Rightarrow> ('l, nat) chat" where
  "alloc res = State (\<lambda>s. (length (cs_heap s), s\<lparr>cs_heap := cs_heap s @ [res]\<rparr>))"

definition deref :: "nat \<Rightarrow> ('l, budgetReservation) chat" where
  "deref i = State (\<lambda>s. (cs_heap s ! i, s))"

definition mark_settled :: "nat \<Rightarrow> ('l, unit) chat" where
  "mark_settled i = State (\<lambda>s. ((), s\<lparr>cs_heap := (cs_heap s)[i := (cs_heap s ! i)\<lparr>bhSettled := True\<rparr>]\<rparr>))"

text \<open>\<open>apierror.WriteStatus\<close> writes the status and then the encoded envelope.\<close>

definition WriteStatus :: "'l chatCompletionHandler \<Rightarrow> int \<Rightarrow> string \<Rightarrow> ('l, unit) chat" where
  "WriteStatus h status code = do {
     emit (EvHeader status code);
     body \<leftarrow> ask (\<lambda>n. svEnvelope (chServices h) n status code);
     emit (EvWrite body) }"

abbreviation (input) ret :: "'a \<Rightarrow> ('l, 'a) chat" where "ret \<equiv> State_Monad.return"

section \<open>Weakest preconditions\<close>

definition wp :: "('l, 'a) chat \<Rightarrow> ('a \<Rightarrow> 'l chat_state \<Rightarrow> bool) \<Rightarrow> 'l chat_state \<Rightarrow> bool" where
  "wp m Q s = (case run_state m s of (x, t) \<Rightarrow> Q x t)"

lemma wp_run: "wp m Q s \<Longrightarrow> run_state m s = (x, t) \<Longrightarrow> Q x t"
  by (simp add: wp_def)

lemma wp_mono: "wp m P s \<Longrightarrow> (\<And>x t. P x t \<Longrightarrow> Q x t) \<Longrightarrow> wp m Q s"
  by (auto simp: wp_def split: prod.splits)

lemma wp_return [simp]: "wp (ret x) Q s \<longleftrightarrow> Q x s"
  by (simp add: wp_def)

lemma wp_bind [simp]: "wp (State_Monad.bind m f) Q s \<longleftrightarrow> wp m (\<lambda>x. wp (f x) Q) s"
  by (simp add: wp_def split: prod.splits)

lemma wp_emit [simp]: "wp (emit ev) Q s \<longleftrightarrow> Q () (s\<lparr>cs_log := cs_log s @ [ev]\<rparr>)"
  by (simp add: wp_def emit_def)

lemma wp_ask [simp]: "wp (ask q) Q s \<longleftrightarrow> Q (q (cs_tick s)) (s\<lparr>cs_tick := Suc (cs_tick s)\<rparr>)"
  by (simp add: wp_def ask_def)

lemma wp_call_ledger:
  "wp (call_ledger op) Q s \<longleftrightarrow> (\<forall>x l. op (cs_ledger s) = (x, l) \<longrightarrow> Q x (s\<lparr>cs_ledger := l\<rparr>))"
  by (simp add: wp_def call_ledger_def split: prod.splits)

lemma wp_alloc [simp]: "wp (alloc res) Q s \<longleftrightarrow> Q (length (cs_heap s)) (s\<lparr>cs_heap := cs_heap s @ [res]\<rparr>)"
  by (simp add: wp_def alloc_def)

lemma wp_deref [simp]: "wp (deref i) Q s \<longleftrightarrow> Q (cs_heap s ! i) s"
  by (simp add: wp_def deref_def)

lemma wp_mark_settled [simp]:
  "wp (mark_settled i) Q s \<longleftrightarrow> Q () (s\<lparr>cs_heap := (cs_heap s)[i := (cs_heap s ! i)\<lparr>bhSettled := True\<rparr>]\<rparr>)"
  by (simp add: wp_def mark_settled_def)

lemma wp_if: "wp (if b then m else n) Q s \<longleftrightarrow> (b \<longrightarrow> wp m Q s) \<and> (\<not> b \<longrightarrow> wp n Q s)"
  by simp

lemma wp_option:
  "wp (case x of None \<Rightarrow> m | Some y \<Rightarrow> f y) Q s \<longleftrightarrow> (x = None \<longrightarrow> wp m Q s) \<and> (\<forall>y. x = Some y \<longrightarrow> wp (f y) Q s)"
  by (simp split: option.split)

lemma wp_sum:
  "wp (case x of Inl e \<Rightarrow> f e | Inr y \<Rightarrow> g y) Q s \<longleftrightarrow>
     (\<forall>e. x = Inl e \<longrightarrow> wp (f e) Q s) \<and> (\<forall>y. x = Inr y \<longrightarrow> wp (g y) Q s)"
  by (simp split: sum.split)

end
