(* ===== verification/Proxy_Idempotency.thy ===== *)
theory Proxy_Idempotency
  imports Proxy_Runtime
begin

text \<open>
  The idempotency keys of chat completions, \<open>services/proxy/internal/http/chat/idempotency.go\<close>: a key is
  claimed from the durable ledger when there is one and from the Redis store otherwise, a finished response is replayed,
  and the claim of a request that ran is committed or released. Failures of a commit or a release are only logged
  by the code, so these calls appear in the log without a result.
\<close>

definition MaxProviderResponseBytes :: int where "MaxProviderResponseBytes = 4 * 1024 * 1024"

definition maxIdempotencyKeyLen :: int where "maxIdempotencyKeyLen = 256"

section \<open>Claims\<close>

text \<open>\<open>None\<close> when the header is absent; otherwise the key, or \<open>Inl\<close> for one that is too long.\<close>

definition ParseKey :: "http_request \<Rightarrow> (unit + string) option" where
  "ParseKey r = (let raw = trim_space (hqIdempotencyKey r) in
     if raw = '''' then None
     else if int (length raw) > maxIdempotencyKeyLen then Some (Inl ()) else Some (Inr raw))"

definition SkipMemoryRequested :: "http_request \<Rightarrow> bool" where
  "SkipMemoryRequested r \<longleftrightarrow> trim_space (py_lower (hqSkipMemory r)) \<in> {''1'', ''true'', ''yes'', ''on''}"

definition orgIDFromAuth :: "http_request \<Rightarrow> uuid option" where
  "orgIDFromAuth r = (case hqAuthOrg r of None \<Rightarrow> None | Some org \<Rightarrow> if org = 0 then None else Some org)"

definition ledgerPrincipal :: "http_request \<Rightarrow> (uuid \<times> uuid) option" where
  "ledgerPrincipal r = (case orgIDFromAuth r of
     None \<Rightarrow> None | Some org \<Rightarrow> if hqAuthAgent r = 0 then None else Some (org, hqAuthAgent r))"

definition resolveMissingKey ::
  "'l chatCompletionHandler \<Rightarrow> ChatCompletionRequest \<Rightarrow> ('l, idem_claim option \<times> bool) chat" where
  "resolveMissingKey h parsed =
     (if \<not> chTerminationLedger h \<or> ccStream parsed then ret (None, True)
      else do { WriteStatus h 400 ''VALIDATION_ERROR''; ret (None, False) })"

definition applyLedgerOutcome ::
  "'l chatCompletionHandler \<Rightarrow> idem_claim \<Rightarrow> ledger_outcome \<Rightarrow> ('l, idem_claim option \<times> bool) chat" where
  "applyLedgerOutcome h base out = (case out of
     LOwned token \<Rightarrow> do {
       emit (EvIdemOwned (base\<lparr>icLedger := Some token\<rparr>));
       ret (Some (base\<lparr>icLedger := Some token\<rparr>), True) }
   | LReplay status body \<Rightarrow> ret (Some (base\<lparr>icHit := Some (status, body)\<rparr>), True)
   | LConflict \<Rightarrow> do { WriteStatus h 409 ''IDEMPOTENCY_KEY_REUSE''; ret (None, False) }
   | LInProgress retry \<Rightarrow> do { WriteStatus h 409 ''IDEMPOTENCY_IN_PROGRESS''; ret (None, False) })"

definition claimLedger ::
  "'l chatCompletionHandler \<Rightarrow> http_request \<Rightarrow> ChatCompletionRequest \<Rightarrow> string \<Rightarrow>
   ('l, idem_claim option \<times> bool) chat" where
  "claimLedger h r parsed key = (case ledgerPrincipal r of
     None \<Rightarrow> do { WriteStatus h 503 ''SERVICE_DEGRADED''; ret (None, False) }
   | Some (org, agent) \<Rightarrow> (case svFingerprint (chServices h) ''chat'' (SkipMemoryRequested r) parsed of
       None \<Rightarrow> do { WriteStatus h 500 ''INTERNAL_ERROR''; ret (None, False) }
     | Some fp \<Rightarrow> do {
         out \<leftarrow> ask (\<lambda>n. svIdemClaim (chServices h) n org agent key fp);
         (case out of
            Inl err \<Rightarrow> do { WriteStatus h 503 ''SERVICE_DEGRADED''; ret (None, False) }
          | Inr outcome \<Rightarrow> applyLedgerOutcome h
              \<lparr>icOrgID = org, icKey = key, icFP = fp, icHit = None, icLedger = None\<rparr> outcome) }))"

definition handleOutcome ::
  "'l chatCompletionHandler \<Rightarrow> idem_claim \<Rightarrow> store_outcome \<Rightarrow> ('l, idem_claim option \<times> bool) chat" where
  "handleOutcome h base out = (case out of
     KindMiss \<Rightarrow> do { emit (EvIdemOwned base); ret (Some base, True) }
   | KindHit status body \<Rightarrow> ret (Some (base\<lparr>icHit := Some (status, body)\<rparr>), True)
   | KindConflict \<Rightarrow> do { WriteStatus h 409 ''IDEMPOTENCY_KEY_REUSE''; ret (None, False) }
   | KindInProgress \<Rightarrow> do { WriteStatus h 409 ''IDEMPOTENCY_IN_PROGRESS''; ret (None, False) }
   | KindOther \<Rightarrow> ret (None, True))"

definition claim_store ::
  "'l chatCompletionHandler \<Rightarrow> http_request \<Rightarrow> ChatCompletionRequest \<Rightarrow> string \<Rightarrow>
   ('l, idem_claim option \<times> bool) chat" where
  "claim_store h r parsed key = (case orgIDFromAuth r of
     None \<Rightarrow> ret (None, True)
   | Some org \<Rightarrow> (case svFingerprint (chServices h) '''' False parsed of
       None \<Rightarrow> do { WriteStatus h 500 ''INTERNAL_ERROR''; ret (None, False) }
     | Some fp \<Rightarrow> do {
         out \<leftarrow> ask (\<lambda>n. svStoreClaim (chServices h) n org key fp);
         (case out of
            Inl err \<Rightarrow> ret (None, True)
          | Inr outcome \<Rightarrow> handleOutcome h
              \<lparr>icOrgID = org, icKey = key, icFP = fp, icHit = None, icLedger = None\<rparr> outcome) }))"

definition Resolve ::
  "'l chatCompletionHandler \<Rightarrow> http_request \<Rightarrow> ChatCompletionRequest \<Rightarrow> ('l, idem_claim option \<times> bool) chat" where
  "Resolve h r parsed = (case ParseKey r of
     None \<Rightarrow> resolveMissingKey h parsed
   | Some (Inl _) \<Rightarrow> do { WriteStatus h 400 ''VALIDATION_ERROR''; ret (None, False) }
   | Some (Inr key) \<Rightarrow>
       if ccStream parsed then do { WriteStatus h 400 ''VALIDATION_ERROR''; ret (None, False) }
       else if chTerminationLedger h then claimLedger h r parsed key
       else if \<not> chIdempotencyStore h then ret (None, True)
       else claim_store h r parsed key)"

definition Replay :: "int \<times> string \<Rightarrow> ('l, unit) chat" where
  "Replay rec = do { emit (EvHeader (fst rec) ''''); emit (EvWrite (snd rec)) }"

section \<open>Settlement\<close>

definition ShouldCommit :: "int \<Rightarrow> bool" where
  "ShouldCommit status = (if status = 429 \<or> status \<ge> 500 then False else status \<ge> 200 \<and> status < 500)"

definition finishLedger :: "idem_claim option \<Rightarrow> int \<Rightarrow> string \<Rightarrow> ('l, unit) chat" where
  "finishLedger pending status body = (case pending of
     None \<Rightarrow> ret ()
   | Some c \<Rightarrow>
       if icLedger c = None then ret ()
       else if \<not> ShouldCommit status \<or> int (length body) > MaxProviderResponseBytes then emit (EvIdemRelease c)
       else emit (EvIdemCommit c status body))"

definition Finish :: "'l chatCompletionHandler \<Rightarrow> idem_claim option \<Rightarrow> int \<Rightarrow> string \<Rightarrow> ('l, unit) chat" where
  "Finish h pending status body =
     (if chTerminationLedger h then finishLedger pending status body
      else case pending of
          None \<Rightarrow> ret ()
        | Some c \<Rightarrow>
            if \<not> chIdempotencyStore h then ret ()
            else if \<not> ShouldCommit status then emit (EvIdemRelease c)
            else if int (length body) > MaxProviderResponseBytes then emit (EvIdemRelease c)
            else emit (EvIdemCommit c status body))"

definition Abandon :: "'l chatCompletionHandler \<Rightarrow> idem_claim option \<Rightarrow> ('l, unit) chat" where
  "Abandon h pending = (case pending of
     None \<Rightarrow> ret ()
   | Some c \<Rightarrow>
       if chTerminationLedger h \<and> icLedger c \<noteq> None then emit (EvIdemRelease c)
       else if chIdempotencyStore h then emit (EvIdemRelease c) else ret ())"

section \<open>Captured responses\<close>

record CapturingWriter =
  cwStatus :: int
  cwBody :: string
  cwCapped :: bool

definition captureHeader :: "int \<Rightarrow> string \<Rightarrow> CapturingWriter \<Rightarrow> ('l, CapturingWriter) chat" where
  "captureHeader status code c =
     (if cwStatus c \<noteq> 0 then ret c
      else do { emit (EvHeader status code); ret (c\<lparr>cwStatus := status\<rparr>) })"

definition captured :: "string \<Rightarrow> CapturingWriter \<Rightarrow> CapturingWriter" where
  "captured p c = (let c = (if cwStatus c = 0 then c\<lparr>cwStatus := 200\<rparr> else c) in
     if \<not> cwCapped c \<and> int (length (cwBody c) + length p) \<le> MaxProviderResponseBytes
     then c\<lparr>cwBody := cwBody c @ p\<rparr> else c\<lparr>cwCapped := True, cwBody := ''''\<rparr>)"

definition captureWrite :: "string \<Rightarrow> CapturingWriter \<Rightarrow> ('l, CapturingWriter) chat" where
  "captureWrite p c = do { emit (EvWrite p); ret (captured p c) }"

definition FinishCapture ::
  "'l chatCompletionHandler \<Rightarrow> idem_claim option \<Rightarrow> CapturingWriter \<Rightarrow> ('l, unit) chat" where
  "FinishCapture h pending c =
     (if cwCapped c
      then (case pending of
          None \<Rightarrow> ret ()
        | Some own \<Rightarrow>
            if chTerminationLedger h \<and> icLedger own \<noteq> None then emit (EvIdemRelease own)
            else if chIdempotencyStore h then emit (EvIdemRelease own) else ret ())
      else Finish h pending (cwStatus c) (cwBody c))"

end
