(* ===== verification/Proxy_Admission.thy ===== *)
theory Proxy_Admission
  imports Proxy_Idempotency
begin

text \<open>
  The budget hold of a chat request, \<open>services/proxy/internal/http/budget_admission.go\<close>: the price of the
  request is estimated, a hold of that size is claimed from the ledger before the provider is called, it is replaced by
  a hold at the price of the fallback model before a fallback hop, and it is finalized or released when the request
  ends. Metrics and log lines are left out.
\<close>

section \<open>Estimates\<close>

definition budgetDefaultOutputTokens :: int where "budgetDefaultOutputTokens = 4096"
definition budgetTokensPerMessage :: int where "budgetTokensPerMessage = 4"
definition budgetBytesPerToken :: nat where "budgetBytesPerToken = 4"

definition estimateCostChecked :: "card \<Rightarrow> string \<Rightarrow> string \<Rightarrow> int \<Rightarrow> int \<Rightarrow> (int \<times> string) option" where
  "estimateCostChecked c prov model inTok outTok =
     (case EstimateCost c \<lparr>tu_provider = prov, tu_model = model, tu_input = inTok, tu_output = outTok\<rparr> of
        Inl err \<Rightarrow> None | Inr (cents, ver) \<Rightarrow> Some (cents, ver))"

definition messageTokenHeuristic :: "string \<Rightarrow> int" where
  "messageTokenHeuristic content =
     (if content = '''' then 0
      else max (int (utf8_length content div budgetBytesPerToken)) (int (length content)))"

fun estimateInputTokens_loop :: "int \<Rightarrow> chat_message list \<Rightarrow> int" where
  "estimateInputTokens_loop acc [] = acc"
| "estimateInputTokens_loop acc (m # ms) =
     estimateInputTokens_loop (wrap64 (acc + (budgetTokensPerMessage + messageTokenHeuristic (msgContent m)))) ms"

definition estimateInputTokens :: "chat_message list \<Rightarrow> int" where
  "estimateInputTokens messages = estimateInputTokens_loop 0 messages"

definition maxTokensFromParsed :: "ChatCompletionRequest \<Rightarrow> int" where
  "maxTokensFromParsed parsed = (case ccMaxTokens parsed of None \<Rightarrow> 0 | Some n \<Rightarrow> n)"

definition estimateOutputTokens :: "int \<Rightarrow> int" where
  "estimateOutputTokens maxTokens = (if maxTokens > 0 then maxTokens else budgetDefaultOutputTokens)"

record budgetAdmissionInput =
  biProvider :: string
  biModel :: string
  biMessages :: "chat_message list"
  biMaxTokens :: int

definition estimateAdmissionCents :: "card \<Rightarrow> budgetAdmissionInput \<Rightarrow> int option" where
  "estimateAdmissionCents c inp = map_option fst (estimateCostChecked c (biProvider inp) (biModel inp)
     (estimateInputTokens (biMessages inp)) (estimateOutputTokens (biMaxTokens inp)))"

section \<open>Identity\<close>

definition tenantIDsFromContext :: "http_request \<Rightarrow> (uuid \<times> uuid) option" where
  "tenantIDsFromContext r = (case hqAgent r of
     None \<Rightarrow> None
   | Some agent \<Rightarrow> (case hqAuthOrg r of
       None \<Rightarrow> None | Some org \<Rightarrow> if org = 0 then None else Some (org, agent)))"

definition budgetReservationKey :: "http_request \<Rightarrow> string" where
  "budgetReservationKey r = (if hqRequestID r = '''' then '''' else ''chat:'' @ hqRequestID r)"

definition budgetAdmissionIDs :: "http_request \<Rightarrow> (Principal \<times> string) option" where
  "budgetAdmissionIDs r = (case tenantIDsFromContext r of
     None \<Rightarrow> None
   | Some (org, agent) \<Rightarrow>
       if budgetReservationKey r = '''' then None
       else Some (\<lparr>pOrgID = org, pAgentID = agent\<rparr>, budgetReservationKey r))"

section \<open>Settlement\<close>

definition releaseReservation :: "'l Ledger \<Rightarrow> budgetReservation \<Rightarrow> ('l, unit) chat" where
  "releaseReservation ledger res = do {
     out \<leftarrow> call_ledger (ldRelease ledger (bhClaim res));
     emit (EvRelease (bhClaim res) (\<not> isl out)) }"

text \<open>Only a handler with a ledger puts a reservation in a context.\<close>

definition releaseBudget :: "'l chatCompletionHandler \<Rightarrow> http_request \<Rightarrow> ('l, unit) chat" where
  "releaseBudget h r = (case (hqReservation r, chBudgetLedger h) of
     (Some i, Some ledger) \<Rightarrow> do {
       res \<leftarrow> deref i;
       if bhSettled res then ret ()
       else do { mark_settled i; releaseReservation ledger res } }
   | _ \<Rightarrow> ret ())"

definition hasMeasuredUsage :: "provider_usage option \<Rightarrow> bool" where
  "hasMeasuredUsage usage = (case usage of None \<Rightarrow> False | Some u \<Rightarrow> puInputTokens u > 0 \<or> puOutputTokens u > 0)"

definition budgetFinalAmount ::
  "budgetReservation \<Rightarrow> string \<Rightarrow> string \<Rightarrow> provider_usage option \<Rightarrow> int \<times> completeness" where
  "budgetFinalAmount res prov model usage = (case usage of
     None \<Rightarrow> (bhEstimatedCents res, COMPLETENESS_ESTIMATED)
   | Some u \<Rightarrow>
       if \<not> hasMeasuredUsage usage then (bhEstimatedCents res, COMPLETENESS_ESTIMATED)
       else (case estimateCostChecked (bhCard res) prov model (puInputTokens u) (puOutputTokens u) of
           None \<Rightarrow> (bhEstimatedCents res, COMPLETENESS_ESTIMATED)
         | Some (cents, _) \<Rightarrow> (cents, COMPLETENESS_COMPLETE)))"

record budgetSettlement =
  stStatus :: int
  stProvider :: string
  stModel :: string
  stUsage :: "provider_usage option"

definition settleBudgetOutcome ::
  "'l chatCompletionHandler \<Rightarrow> http_request \<Rightarrow> budgetSettlement \<Rightarrow> ('l, unit) chat" where
  "settleBudgetOutcome h r inp = (case (hqReservation r, chBudgetLedger h) of
     (Some i, Some ledger) \<Rightarrow> do {
       res \<leftarrow> deref i;
       if bhSettled res then ret ()
       else do {
         mark_settled i;
         if \<not> ShouldCommit (stStatus inp) then releaseReservation ledger res
         else (case budgetFinalAmount res (stProvider inp) (stModel inp) (stUsage inp) of
           (amount, quality) \<Rightarrow> do {
             out \<leftarrow> call_ledger (ldFinalize ledger (bhClaim res) amount (Some quality));
             emit (EvFinalize (bhClaim res) amount quality (\<not> isl out)) }) } }
   | _ \<Rightarrow> ret ())"

section \<open>Admission\<close>

definition claimHoldTimed ::
  "'l Ledger \<Rightarrow> Principal \<Rightarrow> ClaimRequest \<Rightarrow> ('l, proxy_error + ClaimOutcome) chat" where
  "claimHoldTimed ledger p req = do {
     out \<leftarrow> call_ledger (ldClaim ledger p req);
     emit (EvClaim req out);
     ret out }"

text \<open>The reservation of an outcome is the zero value where the ledger set none.\<close>

definition claimed_reservation :: "ClaimOutcome \<Rightarrow> Reservation" where
  "claimed_reservation out = (case oReservation out of
     Some own \<Rightarrow> own
   | None \<Rightarrow> \<lparr>rID = 0, rPrincipal = \<lparr>pOrgID = 0, pAgentID = 0\<rparr>, rKey = [], rRequestHash = [], rPeriodID = 0, rVersion = 0\<rparr>)"

definition new_hold :: "card \<Rightarrow> int \<Rightarrow> Reservation \<Rightarrow> http_request \<Rightarrow> ('l, http_request) chat" where
  "new_hold c estimate own r = do {
     i \<leftarrow> alloc \<lparr>bhClaim = own, bhEstimatedCents = estimate, bhCard = c, bhSettled = False\<rparr>;
     ret (r\<lparr>hqReservation := Some i\<rparr>) }"

definition applyBudgetClaim ::
  "'l chatCompletionHandler \<Rightarrow> http_request \<Rightarrow> ClaimOutcome \<Rightarrow> int \<Rightarrow> BudgetSnapshot \<Rightarrow>
   ('l, http_request \<times> bool) chat" where
  "applyBudgetClaim h r out estimate snap = (case oKind out of
     ClaimOwned \<Rightarrow> do { r' \<leftarrow> new_hold (bsPublishedCard snap) estimate (claimed_reservation out) r; ret (r', True) }
   | ClaimNoCap \<Rightarrow> ret (r, True)
   | ClaimExceeded \<Rightarrow> do { WriteStatus h 402 ''BUDGET_EXCEEDED''; ret (r, False) }
   | ClaimInProgress \<Rightarrow> do { WriteStatus h 503 ''BUDGET_UNAVAILABLE''; ret (r, False) }
   | ClaimConflict \<Rightarrow> do { WriteStatus h 503 ''BUDGET_UNAVAILABLE''; ret (r, False) })"

definition admission_request :: "services \<Rightarrow> string \<Rightarrow> int \<Rightarrow> ClaimRequest" where
  "admission_request sv key estimate =
     \<lparr>qKey = key, qRequestHash = svHashRequest sv key, qEstimatedCents = estimate\<rparr>"

definition claimDurableHold ::
  "'l chatCompletionHandler \<Rightarrow> 'l Ledger \<Rightarrow> ClaimRequest \<Rightarrow> Principal \<Rightarrow> ('l, ClaimOutcome option) chat" where
  "claimDurableHold h ledger req p = do {
     out \<leftarrow> claimHoldTimed ledger p req;
     (case out of
        Inl err \<Rightarrow> do { WriteStatus h 503 ''BUDGET_UNAVAILABLE''; ret None }
      | Inr claimed \<Rightarrow> ret (Some claimed)) }"

definition claimBudgetAdmission ::
  "'l chatCompletionHandler \<Rightarrow> http_request \<Rightarrow> budgetAdmissionInput \<Rightarrow> ('l, http_request \<times> bool) chat" where
  "claimBudgetAdmission h r inp = (case chBudgetLedger h of
     None \<Rightarrow> ret (r, True)
   | Some ledger \<Rightarrow>
       if \<not> chBudgetCache h then ret (r, True)
       else (case budgetAdmissionIDs r of
           None \<Rightarrow> do { WriteStatus h 503 ''BUDGET_UNAVAILABLE''; ret (r, False) }
         | Some (p, key) \<Rightarrow> do {
             found \<leftarrow> ask (\<lambda>n. svSnapshot (chServices h) n (pOrgID p));
             (case found of
                Inl err \<Rightarrow> do { WriteStatus h 503 ''BUDGET_UNAVAILABLE''; ret (r, False) }
              | Inr snap \<Rightarrow>
                  if \<not> bsHasHardCap snap then do { emit EvNoHardCap; ret (r, True) }
                  else (case estimateAdmissionCents (bsPublishedCard snap) inp of
                      None \<Rightarrow> do { WriteStatus h 503 ''BUDGET_UNAVAILABLE''; ret (r, False) }
                    | Some estimate \<Rightarrow> do {
                        out \<leftarrow> claimDurableHold h ledger (admission_request (chServices h) key estimate) p;
                        (case out of
                           None \<Rightarrow> ret (r, False)
                         | Some claimed \<Rightarrow> applyBudgetClaim h r claimed estimate snap) })) }))"

definition rebudgetForFallback ::
  "'l chatCompletionHandler \<Rightarrow> http_request \<Rightarrow> budgetAdmissionInput \<Rightarrow> ('l, http_request \<times> bool) chat" where
  "rebudgetForFallback h r inp = (case (hqReservation r, chBudgetLedger h) of
     (Some i, Some ledger) \<Rightarrow> (case budgetAdmissionIDs r of
         None \<Rightarrow> ret (r, False)
       | Some (p, key) \<Rightarrow> do {
           res \<leftarrow> deref i;
           (case estimateAdmissionCents (bhCard res) inp of
              None \<Rightarrow> ret (r, False)
            | Some estimate \<Rightarrow> do {
                releaseBudget h r;
                out \<leftarrow> claimHoldTimed ledger p (admission_request (chServices h) key estimate);
                (case out of
                   Inl err \<Rightarrow> ret (r, False)
                 | Inr claimed \<Rightarrow>
                     if oKind claimed \<noteq> ClaimOwned then ret (r, False)
                     else do { r' \<leftarrow> new_hold (bhCard res) estimate (claimed_reservation claimed) r; ret (r', True) }) }) })
   | _ \<Rightarrow> ret (r, True))"

end
