(* ===== verification/Proxy_Response.thy ===== *)
theory Proxy_Response
  imports Proxy_Admission
begin

text \<open>
  The parts of the chat handler around the provider call, from \<open>chat_provider.go\<close> and the injection part of
  \<open>chat_context_assemble.go\<close> under \<open>services/proxy/internal/http\<close>: the messages get the assembled
  context or the directive, the key of the organisation is resolved and its endpoint pinned, and the provider's answer
  or failure is written once, with the idempotency claim and the budget hold settled. Sessions and response headers
  other than the status are left out; the call that enqueues the checkpoint is an event.
\<close>

record chatForwardParams =
  fpR :: http_request
  fpParsed :: ChatCompletionRequest
  fpProv :: string
  fpFlusher :: bool

record fallbackAudit =
  faOriginalModel :: string
  faFallbackModel :: string
  faReason :: string

definition no_audit :: fallbackAudit where
  "no_audit = \<lparr>faOriginalModel = '''', faFallbackModel = '''', faReason = ''''\<rparr>"

definition ctx_err :: "'l chatCompletionHandler \<Rightarrow> ('l, sentinel option) chat" where
  "ctx_err h = ask (svCtxErr (chServices h))"

definition provider_complete ::
  "'l chatCompletionHandler \<Rightarrow> string \<Rightarrow> provider_request \<Rightarrow> ('l, go_error + provider_response) chat" where
  "provider_complete h prov req = do {
     emit (EvComplete prov req);
     ask (\<lambda>n. svComplete (chServices h) n prov req) }"

definition flushIfSupported :: "bool \<Rightarrow> ('l, unit) chat" where
  "flushIfSupported flusher = (if flusher then emit EvFlush else ret ())"

definition checkpointModel :: "ChatCompletionRequest \<Rightarrow> fallbackAudit \<Rightarrow> string" where
  "checkpointModel parsed audit = (if faFallbackModel audit \<noteq> '''' then faFallbackModel audit else ccModel parsed)"

definition fallbackOriginalModel :: "string \<Rightarrow> ChatCompletionRequest \<Rightarrow> string" where
  "fallbackOriginalModel reqModel parsed =
     (if trim_space reqModel \<noteq> '''' then trim_space reqModel else trim_space (ccModel parsed))"

section \<open>Preparing the request\<close>

definition applyDirectiveInjection :: "http_request \<Rightarrow> chat_message list \<Rightarrow> chat_message list" where
  "applyDirectiveInjection r messages = (case hqDirective r of
     None \<Rightarrow> messages
   | Some d \<Rightarrow>
       if rdvContent d = '''' then messages
       else Inject messages (rdvContent d) (ParseMode (rdvInjectionMode d)))"

definition shouldAssemble :: "'l chatCompletionHandler \<Rightarrow> http_request \<Rightarrow> bool" where
  "shouldAssemble h r =
     (if \<not> chContextEnabled h \<or> \<not> chContextClient h then False else \<not> SkipMemoryRequested r)"

definition injectAssembledOrDirective ::
  "'l chatCompletionHandler \<Rightarrow> http_request \<Rightarrow> string \<Rightarrow> chat_message list \<Rightarrow> ('l, chat_message list) chat" where
  "injectAssembledOrDirective h r model messages = do {
     res \<leftarrow> ask (\<lambda>n. svAssemble (chServices h) n r model messages);
     ret (if arFallback res \<or> trim_space (arAssembledContext res) = '''' then applyDirectiveInjection r messages
          else Inject messages (arAssembledContext res) ModeSystemFirst) }"

definition assembleParamsFromRequest :: "http_request \<Rightarrow> bool" where
  "assembleParamsFromRequest r \<longleftrightarrow> tenantIDsFromContext r \<noteq> None \<and> hqTraced r \<and> hqPrincipal r"

definition applyContextOrDirectiveInjection ::
  "'l chatCompletionHandler \<Rightarrow> http_request \<Rightarrow> string \<Rightarrow> chat_message list \<Rightarrow> ('l, chat_message list) chat" where
  "applyContextOrDirectiveInjection h r model messages =
     (if \<not> shouldAssemble h r then ret (applyDirectiveInjection r messages)
      else if \<not> hqPrincipal r then ret (applyDirectiveInjection r messages)
      else if \<not> assembleParamsFromRequest r then ret (applyDirectiveInjection r messages)
      else injectAssembledOrDirective h r model messages)"

fun split_scheme :: "string \<Rightarrow> string \<Rightarrow> (string \<times> string) option" where
  "split_scheme seen [] = None"
| "split_scheme seen (c # rest) =
     (if c \<noteq> CHR '' '' \<and> c \<noteq> CHR 0x09 then split_scheme (seen @ [c]) rest else Some (seen, rest))"

definition ParseAuthorizationHeader :: "string \<Rightarrow> string option" where
  "ParseAuthorizationHeader header = (let header = trim_space header in
     if header = '''' then None
     else case split_scheme '''' header of
         None \<Rightarrow> None
       | Some (scheme, rest) \<Rightarrow>
           if py_lower scheme \<noteq> ''bearer'' then None
           else if trim_space rest = '''' then None else Some (trim_space rest))"

definition credentialResolveInputs ::
  "'l chatCompletionHandler \<Rightarrow> http_request \<Rightarrow> ('l, (uuid \<times> string) option) chat" where
  "credentialResolveInputs h r = (case hqAuthOrg r of
     None \<Rightarrow> do { WriteStatus h 503 ''AUTH_UNAVAILABLE''; ret None }
   | Some org \<Rightarrow> (case ParseAuthorizationHeader (hqAuthorization r) of
       None \<Rightarrow> do { WriteStatus h 401 ''INVALID_TOKEN''; ret None }
     | Some token \<Rightarrow>
         if trim_space token = '''' then do { WriteStatus h 401 ''INVALID_TOKEN''; ret None }
         else ret (Some (org, token))))"

text \<open>\<open>None\<close> when a fail-closed response has been written.\<close>

definition pinned_override ::
  "'l chatCompletionHandler \<Rightarrow> key_result \<Rightarrow> provider_request \<Rightarrow> ('l, provider_request option) chat" where
  "pinned_override h key req = (let req = req\<lparr>prAPIKeyOverride := krAPIKey key\<rparr> in
     if trim_space (krBaseURL key) = '''' then ret (Some req)
     else do {
       pin \<leftarrow> ask (\<lambda>n. svPinURL (chServices h) n (krBaseURL key));
       (case pin of
          Inl err \<Rightarrow> do { WriteStatus h 503 ''AUTH_UNAVAILABLE''; ret None }
        | Inr (url, server) \<Rightarrow> ret (Some (req\<lparr>prBaseURLOverride := url, prTLSServerName := server\<rparr>))) })"

definition applyCredentialOverride ::
  "'l chatCompletionHandler \<Rightarrow> http_request \<Rightarrow> string \<Rightarrow> provider_request \<Rightarrow> ('l, provider_request option) chat" where
  "applyCredentialOverride h r prov req =
     (if \<not> chCredentialResolver h \<or> py_lower prov = ''mock'' then ret (Some req)
      else do {
        inputs \<leftarrow> credentialResolveInputs h r;
        (case inputs of
           None \<Rightarrow> ret None
         | Some (org, bearer) \<Rightarrow> do {
             found \<leftarrow> ask (\<lambda>n. svResolveKey (chServices h) n org prov bearer);
             (case found of
                Inl err \<Rightarrow> do { WriteStatus h 503 ''AUTH_UNAVAILABLE''; ret None }
              | Inr key \<Rightarrow> if krPlatformDefault key then ret (Some req) else pinned_override h key req) }) })"

section \<open>Writing the response\<close>

definition writeProviderFailure ::
  "'l chatCompletionHandler \<Rightarrow> chatForwardParams \<Rightarrow> idem_claim option \<Rightarrow> string \<Rightarrow> go_error \<Rightarrow> ('l, unit) chat" where
  "writeProviderFailure h p pending prov err = do {
     releaseBudget h (fpR p);
     (case MapError err of
        None \<Rightarrow> ret ()
      | Some mapped \<Rightarrow> do {
          let status = (if aeHTTPStatus mapped = 0 then HTTPStatus (aeCode mapped) else aeHTTPStatus mapped);
          cw \<leftarrow> captureHeader status (aeCode mapped) \<lparr>cwStatus = 0, cwBody = '''', cwCapped = False\<rparr>;
          body \<leftarrow> ask (\<lambda>n. svEnvelope (chServices h) n status (aeCode mapped));
          cw \<leftarrow> captureWrite body cw;
          flushIfSupported (fpFlusher p);
          FinishCapture h pending cw;
          emit (EvPostResponse \<lparr>roModel = ccModel (fpParsed p),
            roProvider = (if prov \<noteq> '''' then prov else case err_as err of None \<Rightarrow> '''' | Some pe \<Rightarrow> peProviderName pe),
            roStatusCode = aeHTTPStatus mapped, roIsComplete = False, roErrorCode = aeCode mapped, roUsage = None\<rparr>) }) }"

definition writeJSONSuccess ::
  "'l chatCompletionHandler \<Rightarrow> chatForwardParams \<Rightarrow> idem_claim option \<Rightarrow> string \<Rightarrow> provider_response \<Rightarrow>
   fallbackAudit \<Rightarrow> string \<Rightarrow> ('l, unit) chat" where
  "writeJSONSuccess h p pending prov resp audit out = do {
     emit (EvHeader (respStatusCode resp) '''');
     emit (EvWrite out);
     flushIfSupported (fpFlusher p);
     Finish h pending (respStatusCode resp) out;
     let usage = (case respUsage resp of None \<Rightarrow> svUsageFromJSON (chServices h) out | Some u \<Rightarrow> Some u);
     settleBudgetOutcome h (fpR p) \<lparr>stStatus = respStatusCode resp, stProvider = prov,
       stModel = checkpointModel (fpParsed p) audit, stUsage = usage\<rparr>;
     emit (EvPostResponse \<lparr>roModel = checkpointModel (fpParsed p) audit, roProvider = prov,
       roStatusCode = respStatusCode resp, roIsComplete = True, roErrorCode = '''', roUsage = usage\<rparr>) }"

text \<open>\<open>ReadAllBody\<close> reads at most one byte past the limit, so an error beyond it is not seen.\<close>

definition ReadAllBody :: "reader \<Rightarrow> go_error + string" where
  "ReadAllBody body =
     (if int (length (rdBytes body)) > MaxProviderResponseBytes
      then Inl \<lparr>err_is = [ErrProviderResponseTooLarge], err_as = None\<rparr>
      else case rdErr body of Some err \<Rightarrow> Inl err | None \<Rightarrow> Inr (rdBytes body))"

definition providerErr502 :: "string \<Rightarrow> go_error" where
  "providerErr502 prov =
     \<lparr>err_is = [], err_as = Some \<lparr>peProviderName = prov, peStatusCode = 502, peRetryAfter = 0, peReason = ''''\<rparr>\<rparr>"

definition processResponseBody ::
  "'l chatCompletionHandler \<Rightarrow> string \<Rightarrow> string \<Rightarrow> ('l, go_error + string) chat" where
  "processResponseBody h prov body =
     (if \<not> svDecode (chServices h) body then ret (Inl (providerErr502 prov))
      else if \<not> chResponsePipeline h then ret (Inr body)
      else do {
        processed \<leftarrow> ask (\<lambda>n. svPipeline (chServices h) n body);
        ret (case processed of Inl err \<Rightarrow> Inl (providerErr502 prov) | Inr out \<Rightarrow> Inr out) })"

definition writeProviderSuccess ::
  "'l chatCompletionHandler \<Rightarrow> chatForwardParams \<Rightarrow> idem_claim option \<Rightarrow> string \<Rightarrow> provider_response \<Rightarrow>
   fallbackAudit \<Rightarrow> ('l, unit) chat" where
  "writeProviderSuccess h p pending prov resp audit = (case ReadAllBody (respBody resp) of
     Inl err \<Rightarrow> writeProviderFailure h p pending prov
       (if is_err ErrProviderResponseTooLarge err then providerErr502 prov else err)
   | Inr body \<Rightarrow> do {
       processed \<leftarrow> processResponseBody h prov body;
       (case processed of
          Inl err \<Rightarrow> writeProviderFailure h p pending prov err
        | Inr out \<Rightarrow> writeJSONSuccess h p pending prov resp audit out) })"

end
