(* ===== verification/Proxy_Chat.thy ===== *)
theory Proxy_Chat
  imports Proxy_Response
begin

text \<open>
  The chat completion handler of the proxy, \<open>chat_provider.go\<close>, \<open>chat_fallback.go\<close> and
  \<open>stream_forward.go\<close> under \<open>services/proxy/internal/http\<close>, from \<open>serve\<close> on. The request
  claims its idempotency key, is prepared and admitted, and calls the provider; a failure that is not the client's walks
  the fallback chain of the organisation's policy, each hop with a hold of its own; a stream is copied line by line.
\<close>

section \<open>Streaming\<close>

text \<open>The lines that successive calls of \<open>ReadBytes\<close> return, and the rest after the last newline.\<close>

fun read_lines :: "string \<Rightarrow> string \<Rightarrow> string list \<times> string" where
  "read_lines line [] = ([], line)"
| "read_lines line (c # cs) =
     (if c = CHR 0x0A then (case read_lines '''' cs of (ls, rest) \<Rightarrow> ((line @ [c]) # ls, rest))
      else read_lines (line @ [c]) cs)"

definition isSSEEventBoundary :: "string \<Rightarrow> bool" where
  "isSSEEventBoundary line \<longleftrightarrow> line = [CHR 0x0A] \<or> line = [CHR 0x0D, CHR 0x0A]"

definition writeLineIfPresent ::
  "'l chatCompletionHandler \<Rightarrow> string \<Rightarrow> ('l, go_error option) chat" where
  "writeLineIfPresent h line =
     (if line = '''' then ret None
      else do {
        written \<leftarrow> ask (\<lambda>n. svClientWrite (chServices h) n line);
        if \<not> written then ret (Some \<lparr>err_is = [ErrClientWrite], err_as = None\<rparr>)
        else do {
          emit (EvWrite line);
          (if isSSEEventBoundary line then emit EvFlush else ret ());
          ret None } })"

fun copySSEEvents ::
  "'l chatCompletionHandler \<Rightarrow> string list \<Rightarrow> string \<Rightarrow> go_error option \<Rightarrow> ('l, go_error option) chat" where
  "copySSEEvents h [] rest final = do {
     dead \<leftarrow> ctx_err h;
     (case dead of
        Some x \<Rightarrow> ret (Some \<lparr>err_is = [x], err_as = None\<rparr>)
      | None \<Rightarrow> do {
          failed \<leftarrow> writeLineIfPresent h rest;
          (case failed of
             Some err \<Rightarrow> ret (Some err)
           | None \<Rightarrow> (case final of None \<Rightarrow> do { emit EvFlush; ret None } | Some err \<Rightarrow> ret (Some err))) }) }"
| "copySSEEvents h (line # ls) rest final = do {
     dead \<leftarrow> ctx_err h;
     (case dead of
        Some x \<Rightarrow> ret (Some \<lparr>err_is = [x], err_as = None\<rparr>)
      | None \<Rightarrow> do {
          failed \<leftarrow> writeLineIfPresent h line;
          (case failed of Some err \<Rightarrow> ret (Some err) | None \<Rightarrow> copySSEEvents h ls rest final) }) }"

definition isClientDisconnect :: "sentinel option \<Rightarrow> go_error option \<Rightarrow> bool" where
  "isClientDisconnect dead failed \<longleftrightarrow>
     (case failed of None \<Rightarrow> False | Some err \<Rightarrow> is_err ErrClientWrite err \<or> is_err Canceled err) \<or> dead = Some Canceled"

definition classifyStreamEnd :: "sentinel option \<Rightarrow> bool \<Rightarrow> go_error option \<Rightarrow> string" where
  "classifyStreamEnd dead complete failed =
     (if isClientDisconnect dead failed then ''client_disconnect''
      else if failed \<noteq> None then ''error''
      else if \<not> complete then ''incomplete'' else ''ok'')"

definition streamCheckpointHook ::
  "'l chatCompletionHandler \<Rightarrow> chatForwardParams \<Rightarrow> string \<Rightarrow> fallbackAudit \<Rightarrow> bool \<Rightarrow> provider_usage option \<Rightarrow>
   ('l, unit) chat" where
  "streamCheckpointHook h p prov audit complete usage = do {
     emit (EvPostResponse \<lparr>roModel = checkpointModel (fpParsed p) audit, roProvider = prov, roStatusCode = 200,
       roIsComplete = complete, roErrorCode = (if complete then '''' else ''STREAM_INCOMPLETE''), roUsage = usage\<rparr>);
     settleBudgetOutcome h (fpR p) \<lparr>stStatus = 200, stProvider = prov,
       stModel = checkpointModel (fpParsed p) audit, stUsage = usage\<rparr> }"

text \<open>The status of the copy, and what \<open>drainAccumulator\<close> finds in the accumulator behind it.\<close>

definition writeSSEHeadersAndCopy ::
  "'l chatCompletionHandler \<Rightarrow> provider_response \<Rightarrow> ('l, string \<times> provider_usage option) chat" where
  "writeSSEHeadersAndCopy h resp = do {
     emit (EvHeader 200 '''');
     emit EvFlush;
     failed \<leftarrow> (case read_lines '''' (rdBytes (respBody resp)) of
       (ls, rest) \<Rightarrow> copySSEEvents h ls rest (rdErr (respBody resp)));
     dead \<leftarrow> ctx_err h;
     acc \<leftarrow> ask (\<lambda>n. svAccumulated (chServices h) n (rdBytes (respBody resp)));
     ret (classifyStreamEnd dead (fst acc) failed, snd acc) }"

definition forwardSSEStream ::
  "'l chatCompletionHandler \<Rightarrow> chatForwardParams \<Rightarrow> string \<Rightarrow> provider_response \<Rightarrow> fallbackAudit \<Rightarrow> ('l, unit) chat" where
  "forwardSSEStream h p prov resp audit =
     (if \<not> fpFlusher p then WriteStatus h 500 ''INTERNAL_ERROR''
      else do {
        (status, usage) \<leftarrow> writeSSEHeadersAndCopy h resp;
        streamCheckpointHook h p prov audit (status = ''ok'') usage })"

definition finishProviderResponse ::
  "'l chatCompletionHandler \<Rightarrow> chatForwardParams \<Rightarrow> idem_claim option \<Rightarrow> string \<Rightarrow> provider_response \<Rightarrow>
   fallbackAudit \<Rightarrow> ('l, unit) chat" where
  "finishProviderResponse h p pending prov resp audit =
     (if ccStream (fpParsed p) then forwardSSEStream h p prov resp audit
      else writeProviderSuccess h p pending prov resp audit)"

section \<open>Fallback\<close>

record fallbackSuccess =
  fsProv :: string
  fsResp :: provider_response
  fsModel :: string
  fsReason :: string
  fsR :: http_request

datatype hopResult = hopContinue | hopAbort | hopOK fallbackSuccess

definition skipFallbackForOrgErr :: "go_error \<Rightarrow> bool" where
  "skipFallbackForOrgErr err \<longleftrightarrow> is_err ErrModelNotAllowedForOrg err \<or> is_err ErrNoProviderForModel err"

definition fallbackHopRequest :: "provider_request \<Rightarrow> string \<Rightarrow> provider_request" where
  "fallbackHopRequest primary hopModel =
     primary\<lparr>prModel := hopModel, prAPIKeyOverride := '''', prBaseURLOverride := ''''\<rparr>"

definition classifyFallbackHopErr :: "sentinel option \<Rightarrow> go_error \<Rightarrow> provider_request \<Rightarrow> hopResult" where
  "classifyFallbackHopErr dead err req =
     (if dead \<noteq> None \<or> is_err Canceled err then hopAbort
      else if FallbackEligible err req = None then hopAbort
      else hopContinue)"

definition hop_admission :: "chatForwardParams \<Rightarrow> string \<Rightarrow> provider_request \<Rightarrow> budgetAdmissionInput" where
  "hop_admission p prov req =
     \<lparr>biProvider = prov, biModel = prModel req, biMessages = prMessages req,
      biMaxTokens = maxTokensFromParsed (fpParsed p)\<rparr>"

definition tryFallbackHop ::
  "'l chatCompletionHandler \<Rightarrow> chatForwardParams \<Rightarrow> provider_request \<Rightarrow> uuid \<Rightarrow> string \<Rightarrow> string \<Rightarrow>
   ('l, hopResult \<times> chatForwardParams) chat" where
  "tryFallbackHop h p primaryReq org reason hopModel = do {
     routed \<leftarrow> ask (\<lambda>n. svForOrg (chServices h) n org hopModel);
     (case routed of
        Inl err \<Rightarrow> ret (if skipFallbackForOrgErr err then hopContinue else hopAbort, p)
      | Inr hopProv \<Rightarrow> do {
          let hopReq = fallbackHopRequest primaryReq hopModel;
          (r, covered) \<leftarrow> rebudgetForFallback h (fpR p) (hop_admission p hopProv hopReq);
          if \<not> covered then ret (hopAbort, p)
          else do {
            let p = p\<lparr>fpR := r\<rparr>;
            out \<leftarrow> provider_complete h hopProv hopReq;
            (case out of
               Inl err \<Rightarrow> do {
                 releaseBudget h r;
                 dead \<leftarrow> ctx_err h;
                 ret (classifyFallbackHopErr dead err hopReq, p) }
             | Inr resp \<Rightarrow> ret (hopOK \<lparr>fsProv = hopProv, fsResp = resp, fsModel = hopModel, fsReason = reason, fsR = r\<rparr>, p)) } }) }"

text \<open>The request of the walk is the one of the last hop that was admitted.\<close>

fun walkFallbackChain ::
  "'l chatCompletionHandler \<Rightarrow> chatForwardParams \<Rightarrow> provider_request \<Rightarrow> uuid \<Rightarrow> string \<Rightarrow> string list \<Rightarrow>
   ('l, fallbackSuccess option) chat" where
  "walkFallbackChain h p primaryReq org reason [] = ret None"
| "walkFallbackChain h p primaryReq org reason (hopModel # chain) = do {
     dead \<leftarrow> ctx_err h;
     if dead \<noteq> None then ret None
     else do {
       (outcome, p') \<leftarrow> tryFallbackHop h p primaryReq org reason hopModel;
       (case outcome of
          hopOK fb \<Rightarrow> ret (Some fb)
        | hopAbort \<Rightarrow> ret None
        | hopContinue \<Rightarrow> walkFallbackChain h p' primaryReq org reason chain) } }"

definition tryFallbackComplete ::
  "'l chatCompletionHandler \<Rightarrow> chatForwardParams \<Rightarrow> provider_request \<Rightarrow> string \<Rightarrow> ('l, fallbackSuccess option) chat" where
  "tryFallbackComplete h p primaryReq reason =
     (if \<not> chPolicyFallback h \<or> \<not> chModelRouter h then ret None
      else case orgIDFromAuth (fpR p) of
          None \<Rightarrow> ret None
        | Some org \<Rightarrow> do {
            found \<leftarrow> ask (\<lambda>n. svFallbackChain (chServices h) n org (fallbackOriginalModel (prModel primaryReq) (fpParsed p)));
            (case found of
               Inl err \<Rightarrow> ret None
             | Inr chain \<Rightarrow>
                 walkFallbackChain h p primaryReq org reason (TruncateChain chain (chMaxFallbackDepth h))) })"

section \<open>The handler\<close>

definition handlePrimaryCompleteError ::
  "'l chatCompletionHandler \<Rightarrow> chatForwardParams \<Rightarrow> idem_claim option \<Rightarrow> provider_request \<Rightarrow> go_error \<Rightarrow>
   ('l, unit) chat" where
  "handlePrimaryCompleteError h p pending req err = do {
     dead \<leftarrow> ctx_err h;
     if is_err Canceled err \<or> dead = Some Canceled then releaseBudget h (fpR p)
     else do {
       late \<leftarrow> ctx_err h;
       if late \<noteq> None then writeProviderFailure h p pending (fpProv p) err
       else (case FallbackEligible err req of
           None \<Rightarrow> writeProviderFailure h p pending (fpProv p) err
         | Some reason \<Rightarrow> do {
             found \<leftarrow> tryFallbackComplete h p req reason;
             (case found of
                None \<Rightarrow> do {
                  gone \<leftarrow> ctx_err h;
                  if gone = Some Canceled then releaseBudget h (fpR p)
                  else writeProviderFailure h p pending (fpProv p) err }
              | Some fb \<Rightarrow> finishProviderResponse h (p\<lparr>fpR := fsR fb\<rparr>) pending (fsProv fb) (fsResp fb)
                  \<lparr>faOriginalModel = fallbackOriginalModel (prModel req) (fpParsed p),
                   faFallbackModel = fsModel fb, faReason = fsReason fb\<rparr>) }) } }"

definition completeAndRespond ::
  "'l chatCompletionHandler \<Rightarrow> chatForwardParams \<Rightarrow> idem_claim option \<Rightarrow> provider_request \<Rightarrow> ('l, unit) chat" where
  "completeAndRespond h p pending req = do {
     out \<leftarrow> provider_complete h (fpProv p) req;
     (case out of
        Inl err \<Rightarrow> handlePrimaryCompleteError h p pending req err
      | Inr resp \<Rightarrow> finishProviderResponse h p pending (fpProv p) resp no_audit) }"

definition dispatchProviderCompletion ::
  "'l chatCompletionHandler \<Rightarrow> chatForwardParams \<Rightarrow> idem_claim option \<Rightarrow> ('l, unit) chat" where
  "dispatchProviderCompletion h p pending = do {
     dead \<leftarrow> ctx_err h;
     if dead = Some Canceled then Abandon h pending
     else do {
       let req = ToProviderRequest (fpParsed p);
       messages \<leftarrow> applyContextOrDirectiveInjection h (fpR p) (prModel req) (prMessages req);
       prepared \<leftarrow> applyCredentialOverride h (fpR p) (fpProv p) (req\<lparr>prMessages := messages\<rparr>);
       (case prepared of
          None \<Rightarrow> Abandon h pending
        | Some req \<Rightarrow> do {
            (r, admitted) \<leftarrow> claimBudgetAdmission h (fpR p) (hop_admission p (fpProv p) req);
            if \<not> admitted then Abandon h pending
            else completeAndRespond h (p\<lparr>fpR := r\<rparr>) pending req }) } }"

definition forwardChatCompletion :: "'l chatCompletionHandler \<Rightarrow> chatForwardParams \<Rightarrow> ('l, unit) chat" where
  "forwardChatCompletion h p = do {
     (pending, cont) \<leftarrow> Resolve h (fpR p) (fpParsed p);
     if \<not> cont then ret ()
     else (case pending of
         Some own \<Rightarrow> (case icHit own of
             Some hit \<Rightarrow> Replay hit
           | None \<Rightarrow> dispatchProviderCompletion h p pending)
       | None \<Rightarrow> dispatchProviderCompletion h p pending) }"

definition serve ::
  "'l chatCompletionHandler \<Rightarrow> bool \<Rightarrow> http_request \<Rightarrow> ChatCompletionRequest option \<Rightarrow> string option \<Rightarrow> bool \<Rightarrow>
   ('l, unit) chat" where
  "serve h post r parsed prov flusher =
     (if \<not> post then WriteStatus h 405 ''METHOD_NOT_ALLOWED''
      else case parsed of
          None \<Rightarrow> WriteStatus h 500 ''INTERNAL_ERROR''
        | Some body \<Rightarrow> (case prov of
            None \<Rightarrow> WriteStatus h 500 ''INTERNAL_ERROR''
          | Some name \<Rightarrow> forwardChatCompletion h
              \<lparr>fpR = r, fpParsed = body, fpProv = name, fpFlusher = flusher\<rparr>))"

end
