(* ===== verification/Proxy_Holds.thy ===== *)
theory Proxy_Holds
  imports Proxy_Chat
begin

text \<open>
  The life of a budget hold over a whole chat request. A monitor reads the log of a run: a provider may be called only
  under an open hold of the right price or when no hard cap applies, no second hold is claimed while one is open, and a
  hold is settled once. The monitor is tied to the heap of shared reservations: the one unsettled object is the open
  hold. Every function of the handler then has one rule.
\<close>

section \<open>The monitor\<close>

datatype phase = Idle | Exempt | Held Reservation int

definition claimed_phase :: "ClaimRequest \<Rightarrow> proxy_error + ClaimOutcome \<Rightarrow> phase" where
  "claimed_phase q out = (case out of
     Inl _ \<Rightarrow> Idle
   | Inr c \<Rightarrow> (case oKind c of
       ClaimOwned \<Rightarrow> Held (claimed_reservation c) (qEstimatedCents q)
     | ClaimNoCap \<Rightarrow> Exempt
     | _ \<Rightarrow> Idle))"

text \<open>The rules say which calls a hold of a given size covers and at which amounts it may be finalized.\<close>

type_synonym hold_rules = "(int \<Rightarrow> string \<Rightarrow> provider_request \<Rightarrow> bool) \<times> (int \<Rightarrow> int \<Rightarrow> completeness \<Rightarrow> bool)"

fun hold_step :: "hold_rules \<Rightarrow> phase \<Rightarrow> event \<Rightarrow> phase option" where
  "hold_step rules ph EvNoHardCap = (if ph = Idle then Some Exempt else None)"
| "hold_step rules ph (EvClaim q out) = (case ph of Held _ _ \<Rightarrow> None | _ \<Rightarrow> Some (claimed_phase q out))"
| "hold_step rules ph (EvFinalize own amount quality done) = (case ph of
     Held mine estimate \<Rightarrow> if own = mine \<and> snd rules estimate amount quality then Some Idle else None
   | _ \<Rightarrow> None)"
| "hold_step rules ph (EvRelease own done) =
     (case ph of Held mine _ \<Rightarrow> if own = mine then Some Idle else None | _ \<Rightarrow> None)"
| "hold_step rules ph (EvComplete prov req) = (case ph of
     Idle \<Rightarrow> None
   | Exempt \<Rightarrow> Some Exempt
   | Held mine estimate \<Rightarrow> if fst rules estimate prov req then Some ph else None)"
| "hold_step rules ph _ = Some ph"

fun hold_trace :: "hold_rules \<Rightarrow> phase \<Rightarrow> event list \<Rightarrow> phase option" where
  "hold_trace rules ph [] = Some ph"
| "hold_trace rules ph (ev # evs) = (case hold_step rules ph ev of None \<Rightarrow> None | Some ph' \<Rightarrow> hold_trace rules ph' evs)"

lemma hold_trace_append:
  "hold_trace rules ph (xs @ ys) = (case hold_trace rules ph xs of None \<Rightarrow> None | Some ph' \<Rightarrow> hold_trace rules ph' ys)"
  by (induction xs arbitrary: ph) (auto split: option.splits)

definition is_hold :: "event \<Rightarrow> bool" where
  "is_hold ev = (case ev of EvNoHardCap \<Rightarrow> True | EvClaim _ _ \<Rightarrow> True | EvFinalize _ _ _ _ \<Rightarrow> True | EvRelease _ _ \<Rightarrow> True
     | EvComplete _ _ \<Rightarrow> True | _ \<Rightarrow> False)"

lemma hold_step_other: "\<not> is_hold ev \<Longrightarrow> hold_step rules ph ev = Some ph"
  by (cases ev) (auto simp: is_hold_def)

lemma hold_trace_other: "list_all (\<lambda>ev. \<not> is_hold ev) evs \<Longrightarrow> hold_trace rules ph evs = Some ph"
  by (induction evs) (simp_all add: hold_step_other)

section \<open>Functions that leave holds alone\<close>

text \<open>A quiet function changes neither the heap nor the ledger and logs no event the monitor reacts to.\<close>

definition quiet :: "('l, 'a) chat \<Rightarrow> bool" where
  "quiet m \<longleftrightarrow> (\<forall>s. let t = snd (run_state m s) in cs_heap t = cs_heap s \<and> cs_ledger t = cs_ledger s \<and>
     (\<exists>evs. cs_log t = cs_log s @ evs \<and> list_all (\<lambda>ev. \<not> is_hold ev) evs))"

named_theorems quiet_rules "quiet functions"

lemma quiet_return [quiet_rules]: "quiet (ret x)"
  by (simp add: quiet_def)

lemma quiet_ask [quiet_rules]: "quiet (ask q)"
  by (simp add: quiet_def ask_def)

lemma quiet_emit [quiet_rules]: "\<not> is_hold ev \<Longrightarrow> quiet (emit ev)"
  by (simp add: quiet_def emit_def)

lemma quiet_bind [quiet_rules]: "quiet m \<Longrightarrow> (\<And>x. quiet (f x)) \<Longrightarrow> quiet (State_Monad.bind m f)"
  unfolding quiet_def Let_def
proof (intro allI)
  fix s
  assume first: "\<forall>s. cs_heap (snd (run_state m s)) = cs_heap s \<and> cs_ledger (snd (run_state m s)) = cs_ledger s \<and>
      (\<exists>evs. cs_log (snd (run_state m s)) = cs_log s @ evs \<and> list_all (\<lambda>ev. \<not> is_hold ev) evs)"
    and second: "\<And>x. \<forall>s. cs_heap (snd (run_state (f x) s)) = cs_heap s \<and> cs_ledger (snd (run_state (f x) s)) = cs_ledger s \<and>
      (\<exists>evs. cs_log (snd (run_state (f x) s)) = cs_log s @ evs \<and> list_all (\<lambda>ev. \<not> is_hold ev) evs)"
  obtain x u where run: "run_state m s = (x, u)" by fastforce
  obtain e1 where e1: "cs_log u = cs_log s @ e1" "list_all (\<lambda>ev. \<not> is_hold ev) e1"
      "cs_heap u = cs_heap s" "cs_ledger u = cs_ledger s"
    using spec [OF first, of s] run by auto
  obtain e2 where e2: "cs_log (snd (run_state (f x) u)) = cs_log u @ e2" "list_all (\<lambda>ev. \<not> is_hold ev) e2"
      "cs_heap (snd (run_state (f x) u)) = cs_heap u" "cs_ledger (snd (run_state (f x) u)) = cs_ledger u"
    using spec [OF second [of x], of u] by auto
  show "cs_heap (snd (run_state (State_Monad.bind m f) s)) = cs_heap s \<and>
      cs_ledger (snd (run_state (State_Monad.bind m f) s)) = cs_ledger s \<and>
      (\<exists>evs. cs_log (snd (run_state (State_Monad.bind m f) s)) = cs_log s @ evs \<and> list_all (\<lambda>ev. \<not> is_hold ev) evs)"
    using e1 e2 by (auto simp: run intro: exI [of _ "e1 @ e2"])
qed

lemma quiet_if [quiet_rules]: "(b \<Longrightarrow> quiet m) \<Longrightarrow> (\<not> b \<Longrightarrow> quiet n) \<Longrightarrow> quiet (if b then m else n)"
  by simp

lemma quiet_option [quiet_rules]:
  "(x = None \<Longrightarrow> quiet m) \<Longrightarrow> (\<And>y. x = Some y \<Longrightarrow> quiet (f y)) \<Longrightarrow> quiet (case x of None \<Rightarrow> m | Some y \<Rightarrow> f y)"
  by (cases x) auto

lemma quiet_sum [quiet_rules]:
  "(\<And>e. x = Inl e \<Longrightarrow> quiet (f e)) \<Longrightarrow> (\<And>y. x = Inr y \<Longrightarrow> quiet (g y)) \<Longrightarrow>
   quiet (case x of Inl e \<Rightarrow> f e | Inr y \<Rightarrow> g y)"
  by (cases x) auto

lemma quiet_prod [quiet_rules]: "(\<And>y z. x = (y, z) \<Longrightarrow> quiet (f y z)) \<Longrightarrow> quiet (case x of (y, z) \<Rightarrow> f y z)"
  by (cases x) auto

lemma quiet_let [quiet_rules]: "quiet (f x) \<Longrightarrow> quiet (let y = x in f y)"
  by simp

lemma quiet_WriteStatus [quiet_rules]: "quiet (WriteStatus h status code)"
  unfolding WriteStatus_def by (intro quiet_rules) (simp_all add: is_hold_def)

lemma quiet_Finish [quiet_rules]: "quiet (Finish h pending status body)"
  unfolding Finish_def finishLedger_def by (intro quiet_rules) (simp_all add: is_hold_def)

lemma quiet_Abandon [quiet_rules]: "quiet (Abandon h pending)"
  unfolding Abandon_def by (intro quiet_rules) (simp_all add: is_hold_def)

lemma quiet_FinishCapture [quiet_rules]: "quiet (FinishCapture h pending cw)"
  unfolding FinishCapture_def by (intro quiet_rules) (simp_all add: is_hold_def)

lemma quiet_captureHeader [quiet_rules]: "quiet (captureHeader status code cw)"
  unfolding captureHeader_def by (intro quiet_rules) (simp_all add: is_hold_def)

lemma quiet_captureWrite [quiet_rules]: "quiet (captureWrite body cw)"
  unfolding captureWrite_def by (intro quiet_rules) (simp_all add: is_hold_def)

lemma quiet_flushIfSupported [quiet_rules]: "quiet (flushIfSupported flusher)"
  unfolding flushIfSupported_def by (intro quiet_rules) (simp_all add: is_hold_def)

lemma quiet_ctx_err [quiet_rules]: "quiet (ctx_err h)"
  unfolding ctx_err_def by (intro quiet_rules)

lemma quiet_Replay [quiet_rules]: "quiet (Replay hit)"
  unfolding Replay_def by (intro quiet_rules) (simp_all add: is_hold_def)

lemma quiet_handleOutcome [quiet_rules]: "quiet (handleOutcome h base out)"
  unfolding handleOutcome_def by (cases out; simp; intro quiet_rules; simp add: is_hold_def)

lemma quiet_applyLedgerOutcome [quiet_rules]: "quiet (applyLedgerOutcome h base out)"
  unfolding applyLedgerOutcome_def by (cases out; simp; intro quiet_rules; simp add: is_hold_def)

lemma quiet_Resolve [quiet_rules]: "quiet (Resolve h r parsed)"
  unfolding Resolve_def resolveMissingKey_def claimLedger_def claim_store_def by (intro quiet_rules)

lemma quiet_injection [quiet_rules]: "quiet (applyContextOrDirectiveInjection h r model messages)"
  unfolding applyContextOrDirectiveInjection_def injectAssembledOrDirective_def by (intro quiet_rules)

lemma quiet_credentials [quiet_rules]: "quiet (applyCredentialOverride h r prov req)"
  unfolding applyCredentialOverride_def credentialResolveInputs_def pinned_override_def by (intro quiet_rules)

lemma quiet_processResponseBody [quiet_rules]: "quiet (processResponseBody h prov body)"
  unfolding processResponseBody_def by (intro quiet_rules)

lemma quiet_writeLine [quiet_rules]: "quiet (writeLineIfPresent h line)"
  unfolding writeLineIfPresent_def by (intro quiet_rules) (simp_all add: is_hold_def)

lemma quiet_copySSEEvents [quiet_rules]: "quiet (copySSEEvents h ls rest final)"
proof (induction ls)
  case Nil
  show ?case unfolding copySSEEvents.simps by (intro quiet_rules) (simp_all add: is_hold_def)
next
  case (Cons line ls)
  show ?case unfolding copySSEEvents.simps by (intro quiet_rules Cons.IH)
qed

lemma quiet_writeSSE [quiet_rules]: "quiet (writeSSEHeadersAndCopy h resp)"
  unfolding writeSSEHeadersAndCopy_def by (intro quiet_rules) (simp_all add: is_hold_def)

section \<open>Holds and the heap\<close>

definition open_cells :: "'l chat_state \<Rightarrow> nat set" where
  "open_cells s = {i. i < length (cs_heap s) \<and> \<not> bhSettled (cs_heap s ! i)}"

definition consistent :: "hold_rules \<Rightarrow> phase \<Rightarrow> 'l chat_state \<Rightarrow> bool" where
  "consistent rules ph s \<longleftrightarrow> hold_trace rules Idle (cs_log s) = Some ph \<and>
     (\<forall>i \<in> open_cells s. ph = Held (bhClaim (cs_heap s ! i)) (bhEstimatedCents (cs_heap s ! i))) \<and>
     (\<forall>own estimate. ph = Held own estimate \<longrightarrow> open_cells s \<noteq> {})"

text \<open>The cards a request may be priced at, and the calls a hold of a given size covers.\<close>

definition published :: "'l chatCompletionHandler \<Rightarrow> card \<Rightarrow> bool" where
  "published h c \<longleftrightarrow> (\<exists>n org snap. svSnapshot (chServices h) n org = Inr snap \<and> bsHasHardCap snap \<and> bsPublishedCard snap = c)"

definition priced_call ::
  "'l chatCompletionHandler \<Rightarrow> ChatCompletionRequest \<Rightarrow> int \<Rightarrow> string \<Rightarrow> provider_request \<Rightarrow> bool" where
  "priced_call h parsed estimate prov req \<longleftrightarrow> (\<exists>c. published h c \<and>
     estimateAdmissionCents c \<lparr>biProvider = prov, biModel = prModel req, biMessages = prMessages req,
       biMaxTokens = maxTokensFromParsed parsed\<rparr> = Some estimate)"

definition payable :: "'l chatCompletionHandler \<Rightarrow> int \<Rightarrow> int \<Rightarrow> completeness \<Rightarrow> bool" where
  "payable h estimate amount quality \<longleftrightarrow> (case quality of
     COMPLETENESS_ESTIMATED \<Rightarrow> amount = estimate
   | COMPLETENESS_COMPLETE \<Rightarrow> (\<exists>c usage ver. published h c \<and> EstimateCost c usage = Inr (amount, ver)))"

definition chat_rules :: "'l chatCompletionHandler \<Rightarrow> ChatCompletionRequest \<Rightarrow> hold_rules" where
  "chat_rules h parsed = (priced_call h parsed, payable h)"

abbreviation consistent_in ::
  "'l chatCompletionHandler \<Rightarrow> ChatCompletionRequest \<Rightarrow> phase \<Rightarrow> 'l chat_state \<Rightarrow> bool" where
  "consistent_in h parsed \<equiv> consistent (chat_rules h parsed)"

text \<open>The context of a request owns whatever hold is open; without a reservation it is exempt.\<close>

definition owns ::
  "'l chatCompletionHandler \<Rightarrow> ChatCompletionRequest \<Rightarrow> nat option \<Rightarrow> 'l chat_state \<Rightarrow> bool" where
  "owns h parsed cell s \<longleftrightarrow> (\<exists>ph. consistent_in h parsed ph s \<and> (case cell of
     None \<Rightarrow> ph = Exempt
   | Some i \<Rightarrow> i < length (cs_heap s) \<and> open_cells s \<subseteq> {i} \<and> published h (bhCard (cs_heap s ! i))))"

definition closed :: "'l chatCompletionHandler \<Rightarrow> ChatCompletionRequest \<Rightarrow> 'l chat_state \<Rightarrow> bool" where
  "closed h parsed s \<longleftrightarrow> (\<exists>ph. consistent_in h parsed ph s) \<and> open_cells s = {}"

text \<open>Reservations are never dropped and keep their card.\<close>

definition keeps :: "'l chat_state \<Rightarrow> 'l chat_state \<Rightarrow> bool" where
  "keeps s t \<longleftrightarrow> length (cs_heap s) \<le> length (cs_heap t) \<and>
     (\<forall>i < length (cs_heap s). bhCard (cs_heap t ! i) = bhCard (cs_heap s ! i))"

lemma keeps_refl [simp]: "keeps s s"
  by (simp add: keeps_def)

lemma keeps_trans: "keeps s t \<Longrightarrow> keeps t u \<Longrightarrow> keeps s u"
  by (auto simp: keeps_def)

lemma owns_after_closing:
  assumes "owns h parsed (Some i) s" "keeps s t" "closed h parsed t"
  shows "owns h parsed (Some i) t"
  using assms by (fastforce simp: owns_def keeps_def closed_def)

lemma owns_exempt_closed: "owns h parsed None s \<Longrightarrow> closed h parsed s"
  by (auto simp: owns_def closed_def consistent_def)

text \<open>Two states the quiet functions cannot tell apart.\<close>

definition same_holds :: "'l chat_state \<Rightarrow> 'l chat_state \<Rightarrow> bool" where
  "same_holds s t \<longleftrightarrow> cs_heap t = cs_heap s \<and> cs_ledger t = cs_ledger s \<and>
     (\<exists>evs. cs_log t = cs_log s @ evs \<and> list_all (\<lambda>ev. \<not> is_hold ev) evs)"

lemma same_holds_consistent: "same_holds s t \<Longrightarrow> consistent rules ph s \<Longrightarrow> consistent rules ph t"
  by (auto simp: same_holds_def consistent_def open_cells_def hold_trace_append hold_trace_other)

lemma same_holds_open: "same_holds s t \<Longrightarrow> open_cells t = open_cells s"
  by (simp add: same_holds_def open_cells_def)

lemma same_holds_owns: "owns h parsed cell t" if same: "same_holds s t" and owned: "owns h parsed cell s"
proof -
  have heap: "cs_heap t = cs_heap s" using same by (simp add: same_holds_def)
  from owned obtain ph where ph: "consistent_in h parsed ph s" "case cell of None \<Rightarrow> ph = Exempt
    | Some i \<Rightarrow> i < length (cs_heap s) \<and> open_cells s \<subseteq> {i} \<and> published h (bhCard (cs_heap s ! i))"
    unfolding owns_def by blast
  show ?thesis
    unfolding owns_def heap same_holds_open [OF same]
    using ph(2) same_holds_consistent [OF same ph(1)] by blast
qed

lemma same_holds_closed: "same_holds s t \<Longrightarrow> closed h parsed s \<Longrightarrow> closed h parsed t"
  unfolding closed_def using same_holds_consistent same_holds_open by metis

lemma same_holds_keeps: "same_holds s t \<Longrightarrow> keeps s t"
  by (simp add: same_holds_def keeps_def)

lemma wp_quiet: "quiet m \<Longrightarrow> wp m (\<lambda>_. same_holds s) s"
  by (auto simp: quiet_def wp_def same_holds_def Let_def split: prod.splits) (metis snd_conv)+

lemma wp_quiet_bind:
  "quiet m \<Longrightarrow> (\<And>x t. same_holds s t \<Longrightarrow> wp (f x) Q t) \<Longrightarrow> wp (State_Monad.bind m f) Q s"
  using wp_quiet [of m s] by (simp add: wp_mono)

lemma wp_quiet_end: "quiet m \<Longrightarrow> (\<And>x t. same_holds s t \<Longrightarrow> Q x t) \<Longrightarrow> wp m Q s"
  using wp_quiet [of m s] by (rule wp_mono)

lemma wp_bind_rule: "wp m P s \<Longrightarrow> (\<And>x t. P x t \<Longrightarrow> wp (f x) Q t) \<Longrightarrow> wp (State_Monad.bind m f) Q s"
  by (simp add: wp_mono)

section \<open>Settlement\<close>

lemma open_cells_settle:
  "open_cells (s\<lparr>cs_heap := (cs_heap s)[i := (cs_heap s ! i)\<lparr>bhSettled := True\<rparr>], cs_ledger := l, cs_log := evs\<rparr>)
     = open_cells s - {i}"
  by (cases "i < length (cs_heap s)") (auto simp: open_cells_def nth_list_update)

lemma settle_state:
  assumes owned: "owns h parsed (Some i) s" and live: "\<not> bhSettled (cs_heap s ! i)"
    and ev: "ev = EvRelease (bhClaim (cs_heap s ! i)) ok \<or>
      ev = EvFinalize (bhClaim (cs_heap s ! i)) amount quality ok \<and> payable h (bhEstimatedCents (cs_heap s ! i)) amount quality"
    and t: "t = s\<lparr>cs_heap := (cs_heap s)[i := (cs_heap s ! i)\<lparr>bhSettled := True\<rparr>], cs_ledger := l, cs_log := cs_log s @ [ev]\<rparr>"
  shows "closed h parsed t \<and> keeps s t"
proof
  from owned obtain ph where ph: "consistent_in h parsed ph s" "i < length (cs_heap s)" "open_cells s \<subseteq> {i}"
    by (auto simp: owns_def)
  with live have "i \<in> open_cells s" by (simp add: open_cells_def)
  with ph have "hold_trace (chat_rules h parsed) Idle (cs_log s) =
      Some (Held (bhClaim (cs_heap s ! i)) (bhEstimatedCents (cs_heap s ! i)))"
    by (simp add: consistent_def)
  then have "hold_trace (chat_rules h parsed) Idle (cs_log t) = Some Idle"
    using ev by (auto simp: t hold_trace_append chat_rules_def)
  moreover have "open_cells t = {}" using ph(3) by (auto simp: t open_cells_settle)
  ultimately show "closed h parsed t" by (auto simp: closed_def consistent_def)
  show "keeps s t" using ph(2) by (auto simp: t keeps_def nth_list_update)
qed

lemma settled_closed:
  "owns h parsed (Some i) s \<Longrightarrow> bhSettled (cs_heap s ! i) \<Longrightarrow> closed h parsed s"
  by (auto simp: owns_def closed_def open_cells_def)

lemma budgetFinalAmount_payable:
  "published h (bhCard res) \<Longrightarrow> budgetFinalAmount res prov model usage = (amount, quality) \<Longrightarrow>
   payable h (bhEstimatedCents res) amount quality"
  by (auto simp: budgetFinalAmount_def payable_def estimateCostChecked_def split: option.splits if_splits sum.splits) blast

definition after_settle ::
  "'l chatCompletionHandler \<Rightarrow> ChatCompletionRequest \<Rightarrow> nat option \<Rightarrow> 'l chat_state \<Rightarrow> 'l chat_state \<Rightarrow> bool" where
  "after_settle h parsed cell s t \<longleftrightarrow> closed h parsed t \<and> keeps s t \<and> owns h parsed cell t"

lemma after_settleI:
  "owns h parsed (Some i) s \<Longrightarrow> closed h parsed t \<and> keeps s t \<Longrightarrow> after_settle h parsed (Some i) s t"
  by (simp add: after_settle_def owns_after_closing)

lemma wp_releaseBudget:
  assumes "chBudgetLedger h = Some ledger" "owns h parsed (hqReservation r) s"
  shows "wp (releaseBudget h r) (\<lambda>_. after_settle h parsed (hqReservation r) s) s"
proof (cases "hqReservation r")
  case None
  with assms show ?thesis by (simp add: releaseBudget_def after_settle_def owns_exempt_closed)
next
  case (Some i)
  note owned = assms(2) [unfolded Some]
  show ?thesis
    using settle_state [OF owned _ disjI1 [OF refl] refl] settled_closed [OF owned] after_settleI [OF owned] assms(1)
    by (simp add: releaseBudget_def releaseReservation_def wp_call_ledger Some)
qed

lemma wp_settleBudgetOutcome:
  assumes "chBudgetLedger h = Some ledger" "owns h parsed (hqReservation r) s"
  shows "wp (settleBudgetOutcome h r inp) (\<lambda>_. after_settle h parsed (hqReservation r) s) s"
proof (cases "hqReservation r")
  case None
  with assms show ?thesis by (simp add: settleBudgetOutcome_def after_settle_def owns_exempt_closed)
next
  case (Some i)
  note owned = assms(2) [unfolded Some]
  then have card: "published h (bhCard (cs_heap s ! i))" by (auto simp: owns_def)
  show ?thesis
    using settle_state [OF owned _ disjI1 [OF refl] refl] settle_state [OF owned _ disjI2 [OF conjI [OF refl]] refl]
      budgetFinalAmount_payable [of h "cs_heap s ! i"] card settled_closed [OF owned] after_settleI [OF owned] assms(1)
    by (simp add: settleBudgetOutcome_def releaseReservation_def wp_call_ledger Some split: prod.split)
qed

end
