(* ===== verification/Proxy_Lifecycle.thy ===== *)
theory Proxy_Lifecycle
  imports Proxy_Holds
begin

text \<open>
  The rules of the hold monitor for admission, re-pricing, the provider call, the fallback walk, the responses and the
  whole handler, and the property they add up to.
\<close>

section \<open>Admission\<close>

text \<open>The request may now call the provider it was priced for.\<close>

definition covers ::
  "'l chatCompletionHandler \<Rightarrow> nat option \<Rightarrow> budgetAdmissionInput \<Rightarrow> 'l chat_state \<Rightarrow> bool" where
  "covers h cell inp s \<longleftrightarrow> (case cell of None \<Rightarrow> True | Some i \<Rightarrow> i \<in> open_cells s \<and>
     estimateAdmissionCents (bhCard (cs_heap s ! i)) inp = Some (bhEstimatedCents (cs_heap s ! i)))"

text \<open>Before admission no hold has been claimed.\<close>

definition unclaimed :: "'l chatCompletionHandler \<Rightarrow> ChatCompletionRequest \<Rightarrow> 'l chat_state \<Rightarrow> bool" where
  "unclaimed h parsed s \<longleftrightarrow> consistent_in h parsed Idle s \<and> open_cells s = {}"

lemma unclaimed_closed: "unclaimed h parsed s \<Longrightarrow> closed h parsed s"
  by (auto simp: unclaimed_def closed_def)

lemma same_holds_unclaimed: "same_holds s t \<Longrightarrow> unclaimed h parsed s \<Longrightarrow> unclaimed h parsed t"
  by (simp add: unclaimed_def same_holds_consistent same_holds_open)

lemma closed_not_held:
  assumes "closed h parsed s"
  obtains ph where "consistent_in h parsed ph s" "open_cells s = {}" "\<And>own estimate. ph \<noteq> Held own estimate"
  using assms by (auto simp: closed_def consistent_def)

definition new_cell :: "card \<Rightarrow> ClaimRequest \<Rightarrow> ClaimOutcome \<Rightarrow> budgetReservation" where
  "new_cell c q out = \<lparr>bhClaim = claimed_reservation out, bhEstimatedCents = qEstimatedCents q, bhCard = c, bhSettled = False\<rparr>"

lemma open_cells_alloc:
  "open_cells s = {} \<Longrightarrow>
   open_cells (s\<lparr>cs_ledger := l, cs_log := evs, cs_heap := cs_heap s @ [new_cell c q out]\<rparr>) = {length (cs_heap s)}"
  by (auto simp: open_cells_def new_cell_def nth_append less_Suc_eq)

lemma claim_owned:
  assumes shut: "closed h parsed s" and card: "published h c" and owned: "oKind out = ClaimOwned"
    and price: "estimateAdmissionCents c inp = Some (qEstimatedCents q)"
    and t: "t = s\<lparr>cs_ledger := l, cs_log := cs_log s @ [EvClaim q (Inr out)], cs_heap := cs_heap s @ [new_cell c q out]\<rparr>"
  shows "owns h parsed (Some (length (cs_heap s))) t \<and> covers h (Some (length (cs_heap s))) inp t \<and> keeps s t"
proof -
  let ?n = "length (cs_heap s)"
  obtain ph where ph: "consistent_in h parsed ph s" "open_cells s = {}" "\<And>own estimate. ph \<noteq> Held own estimate"
    using closed_not_held [OF shut] by blast
  have cell: "cs_heap t ! ?n = new_cell c q out" by (simp add: t)
  have opened: "open_cells t = {?n}" unfolding t by (rule open_cells_alloc [OF ph(2)])
  have "hold_trace (chat_rules h parsed) Idle (cs_log t) = Some (claimed_phase q (Inr out))"
    using ph(1,3) by (cases ph) (auto simp: t hold_trace_append consistent_def)
  then have "consistent_in h parsed (Held (claimed_reservation out) (qEstimatedCents q)) t"
    using opened cell owned by (simp add: consistent_def claimed_phase_def new_cell_def)
  then have "owns h parsed (Some ?n) t"
    using opened card cell by (auto simp: owns_def t new_cell_def)
  moreover have "covers h (Some ?n) inp t" using price opened cell by (simp add: covers_def new_cell_def)
  moreover have "keeps s t" by (simp add: t keeps_def nth_append)
  ultimately show ?thesis by simp
qed

lemma claim_refused:
  assumes shut: "closed h parsed s" and refused: "out = Inl err \<or> (\<exists>c. out = Inr c \<and> oKind c \<noteq> ClaimOwned)"
    and t: "t = s\<lparr>cs_ledger := l, cs_log := cs_log s @ [EvClaim q out]\<rparr>"
  shows "closed h parsed t \<and> keeps s t \<and> (out = Inr c \<and> oKind c = ClaimNoCap \<longrightarrow> owns h parsed None t)"
proof -
  obtain ph where ph: "consistent_in h parsed ph s" "open_cells s = {}" "\<And>own estimate. ph \<noteq> Held own estimate"
    using closed_not_held [OF shut] by blast
  have "open_cells t = {}" using ph(2) by (simp add: t open_cells_def)
  moreover have "hold_trace (chat_rules h parsed) Idle (cs_log t) = Some (claimed_phase q out)"
    using ph(1,3) by (cases ph) (auto simp: t hold_trace_append consistent_def)
  moreover have "claimed_phase q out \<noteq> Held own estimate" for own estimate
    using refused by (auto simp: claimed_phase_def split: ClaimKind.splits)
  ultimately show ?thesis by (auto simp: t closed_def owns_def consistent_def claimed_phase_def keeps_def)
qed

definition admission_post ::
  "'l chatCompletionHandler \<Rightarrow> ChatCompletionRequest \<Rightarrow> budgetAdmissionInput \<Rightarrow> http_request \<times> bool \<Rightarrow> 'l chat_state \<Rightarrow> bool" where
  "admission_post h parsed inp = (\<lambda>(r, admitted) t.
     if admitted then owns h parsed (hqReservation r) t \<and> covers h (hqReservation r) inp t else closed h parsed t)"

lemma wp_refuse:
  "closed h parsed s \<Longrightarrow>
   wp (State_Monad.bind (WriteStatus h status code) (\<lambda>_. ret (r, False))) (admission_post h parsed inp) s"
  by (rule wp_quiet_bind [OF quiet_WriteStatus]) (simp add: admission_post_def same_holds_closed)

lemma wp_applyBudgetClaim:
  assumes shut: "closed h parsed s" and card: "published h (bsPublishedCard snap)" and r: "hqReservation r = None"
    and price: "estimateAdmissionCents (bsPublishedCard snap) inp = Some (qEstimatedCents q)"
    and t: "t = s\<lparr>cs_ledger := l, cs_log := cs_log s @ [EvClaim q (Inr out)]\<rparr>"
  shows "wp (applyBudgetClaim h r out (qEstimatedCents q) snap) (admission_post h parsed inp) t"
proof (cases "oKind out = ClaimOwned")
  case True
  show ?thesis
    using claim_owned [OF shut card True price refl, of l]
    by (simp add: applyBudgetClaim_def new_hold_def True admission_post_def t new_cell_def)
next
  case False
  then have "closed h parsed t" "oKind out = ClaimNoCap \<longrightarrow> owns h parsed None t"
    using claim_refused [OF shut _ t, of _ out] by auto
  then show ?thesis
    using False r by (cases "oKind out")
      (simp_all add: applyBudgetClaim_def wp_refuse del: wp_bind, simp add: admission_post_def covers_def)
qed

lemma wp_claimDurableHold:
  assumes shut: "closed h parsed s" and card: "published h (bsPublishedCard snap)" and r: "hqReservation r = None"
    and price: "estimateAdmissionCents (bsPublishedCard snap) inp = Some (qEstimatedCents q)"
  shows "wp (State_Monad.bind (claimDurableHold h ledger q p) (\<lambda>out. case out of
      None \<Rightarrow> ret (r, False) | Some claimed \<Rightarrow> applyBudgetClaim h r claimed (qEstimatedCents q) snap))
    (admission_post h parsed inp) s"
proof -
  have "wp (State_Monad.bind (case out of
      Inl err \<Rightarrow> State_Monad.bind (WriteStatus h 503 ''BUDGET_UNAVAILABLE'') (\<lambda>_. ret None) | Inr claimed \<Rightarrow> ret (Some claimed))
    (\<lambda>out. case out of None \<Rightarrow> ret (r, False) | Some claimed \<Rightarrow> applyBudgetClaim h r claimed (qEstimatedCents q) snap))
    (admission_post h parsed inp) (s\<lparr>cs_ledger := l, cs_log := cs_log s @ [EvClaim q out]\<rparr>)" for out l
  proof (cases out)
    case (Inl err)
    have "closed h parsed (s\<lparr>cs_ledger := l, cs_log := cs_log s @ [EvClaim q out]\<rparr>)"
      using claim_refused [OF shut _ refl, of out err] Inl by blast
    with Inl show ?thesis
      using wp_refuse [of h parsed "s\<lparr>cs_ledger := l, cs_log := cs_log s @ [EvClaim q out]\<rparr>"] by simp
  next
    case (Inr claimed)
    then show ?thesis using wp_applyBudgetClaim [OF shut card r price refl] by simp
  qed
  then show ?thesis by (simp add: claimDurableHold_def claimHoldTimed_def wp_call_ledger)
qed

lemma wp_claimBudgetAdmission:
  assumes ledger: "chBudgetLedger h = Some ledger" "chBudgetCache h"
    and start: "unclaimed h parsed s" "hqReservation r = None"
  shows "wp (claimBudgetAdmission h r inp) (admission_post h parsed inp) s"
proof (cases "budgetAdmissionIDs r")
  case None
  then show ?thesis
    using wp_refuse [OF unclaimed_closed [OF start(1)]] ledger by (simp add: claimBudgetAdmission_def)
next
  case (Some ids)
  obtain p key where ids: "ids = (p, key)" by fastforce
  let ?t = "s\<lparr>cs_tick := Suc (cs_tick s)\<rparr>"
  have same: "same_holds s ?t" by (simp add: same_holds_def)
  have shut: "closed h parsed ?t" by (rule same_holds_closed [OF same unclaimed_closed [OF start(1)]])
  have exempt: "owns h parsed None (?t\<lparr>cs_log := cs_log s @ [EvNoHardCap]\<rparr>)"
    using start(1) by (auto simp: owns_def unclaimed_def consistent_def open_cells_def hold_trace_append)
  have card: "published h (bsPublishedCard snap)"
    if "svSnapshot (chServices h) (cs_tick s) (pOrgID p) = Inr snap" "bsHasHardCap snap" for snap
    using that by (auto simp: published_def)
  have estimated: "qEstimatedCents (admission_request (chServices h) key estimate) = estimate" for estimate
    by (simp add: admission_request_def)
  have hold: "wp (State_Monad.bind (claimDurableHold h ledger (admission_request (chServices h) key estimate) p) (\<lambda>out. case out of
      None \<Rightarrow> ret (r, False) | Some claimed \<Rightarrow> applyBudgetClaim h r claimed estimate snap))
      (admission_post h parsed inp) ?t"
    if "published h (bsPublishedCard snap)" "estimateAdmissionCents (bsPublishedCard snap) inp = Some estimate" for snap estimate
    by (rule wp_claimDurableHold [where q = "admission_request (chServices h) key estimate", unfolded estimated,
          OF shut that(1) start(2) that(2)])
  show ?thesis
    using ledger Some ids wp_refuse [OF shut] hold card exempt start(2)
    by (simp add: claimBudgetAdmission_def wp_option wp_sum admission_post_def covers_def)
qed

section \<open>Provider calls and fallback\<close>

lemma wp_provider_complete:
  assumes owned: "owns h (fpParsed p) cell s" and covered: "covers h cell (hop_admission p prov req) s"
  shows "wp (provider_complete h prov req) (\<lambda>_ t. owns h (fpParsed p) cell t \<and> keeps s t) s"
proof -
  let ?t = "s\<lparr>cs_log := cs_log s @ [EvComplete prov req], cs_tick := Suc (cs_tick s)\<rparr>"
  obtain ph where ph: "consistent_in h (fpParsed p) ph s" and cell: "case cell of None \<Rightarrow> ph = Exempt
      | Some i \<Rightarrow> i < length (cs_heap s) \<and> open_cells s \<subseteq> {i} \<and> published h (bhCard (cs_heap s ! i))"
    using owned unfolding owns_def by blast
  have "hold_step (chat_rules h (fpParsed p)) ph (EvComplete prov req) = Some ph"
  proof (cases cell)
    case None
    with cell show ?thesis by simp
  next
    case (Some i)
    with covered have "i \<in> open_cells s" "estimateAdmissionCents (bhCard (cs_heap s ! i)) (hop_admission p prov req)
        = Some (bhEstimatedCents (cs_heap s ! i))" by (simp_all add: covers_def)
    with cell Some ph show ?thesis by (auto simp: consistent_def chat_rules_def priced_call_def hop_admission_def)
  qed
  then have "consistent_in h (fpParsed p) ph ?t"
    using ph by (simp add: consistent_def open_cells_def hold_trace_append)
  moreover have "open_cells ?t = open_cells s" by (simp add: open_cells_def)
  ultimately have "owns h (fpParsed p) cell ?t" using cell by (auto simp: owns_def split: option.splits)
  then show ?thesis by (simp add: provider_complete_def keeps_def)
qed

definition rebudget_post ::
  "'l chatCompletionHandler \<Rightarrow> ChatCompletionRequest \<Rightarrow> budgetAdmissionInput \<Rightarrow> nat option \<Rightarrow> 'l chat_state \<Rightarrow>
   http_request \<times> bool \<Rightarrow> 'l chat_state \<Rightarrow> bool" where
  "rebudget_post h parsed inp cell s = (\<lambda>(r, covered) t. keeps s t \<and>
     (if covered then (hqReservation r = None \<longleftrightarrow> cell = None) \<and> owns h parsed (hqReservation r) t \<and>
        covers h (hqReservation r) inp t
      else cell \<noteq> None \<and> (\<forall>i. owns h parsed (Some i) s \<longrightarrow> owns h parsed (Some i) t)))"

lemma wp_reclaim:
  assumes shut: "closed h parsed u" and kept: "keeps s u" and card: "published h c"
    and price: "estimateAdmissionCents c inp = Some (qEstimatedCents q)"
  shows "wp (State_Monad.bind (claimHoldTimed ledger p q) (\<lambda>out. case out of
      Inl err \<Rightarrow> ret (r, False)
    | Inr claimed \<Rightarrow> if oKind claimed \<noteq> ClaimOwned then ret (r, False)
        else State_Monad.bind (new_hold c (qEstimatedCents q) (claimed_reservation claimed) r) (\<lambda>r'. ret (r', True))))
    (rebudget_post h parsed inp (Some i) s) u"
proof -
  have refused: "rebudget_post h parsed inp (Some i) s (r, False) (u\<lparr>cs_ledger := l, cs_log := cs_log u @ [EvClaim q out]\<rparr>)"
    if "(\<exists>err. out = Inl err) \<or> (\<exists>c. out = Inr c \<and> oKind c \<noteq> ClaimOwned)" for out l
  proof -
    let ?t = "u\<lparr>cs_ledger := l, cs_log := cs_log u @ [EvClaim q out]\<rparr>"
    have "closed h parsed ?t" "keeps u ?t" using claim_refused [OF shut _ refl] that by blast+
    with kept show ?thesis
      by (auto simp: rebudget_post_def intro: keeps_trans owns_after_closing [of _ _ _ s])
  qed
  have owned: "rebudget_post h parsed inp (Some i) s (r\<lparr>hqReservation := Some (length (cs_heap u))\<rparr>, True)
      (u\<lparr>cs_ledger := l, cs_log := cs_log u @ [EvClaim q (Inr out)], cs_heap := cs_heap u @ [new_cell c q out]\<rparr>)"
    if "oKind out = ClaimOwned" for out l
    using claim_owned [OF shut card that price refl, of l] kept keeps_trans by (auto simp: rebudget_post_def)
  show ?thesis
    using refused owned
    by (auto simp: claimHoldTimed_def wp_call_ledger wp_sum new_hold_def new_cell_def)
qed

lemma wp_rebudgetForFallback:
  assumes ledger: "chBudgetLedger h = Some ledger" and owned: "owns h parsed (hqReservation r) s"
  shows "wp (rebudgetForFallback h r inp) (rebudget_post h parsed inp (hqReservation r) s) s"
proof (cases "hqReservation r")
  case None
  with ledger owned show ?thesis by (simp add: rebudgetForFallback_def rebudget_post_def covers_def)
next
  case (Some i)
  have card: "published h (bhCard (cs_heap s ! i))" using owned Some by (auto simp: owns_def)
  have stay: "rebudget_post h parsed inp (Some i) s (r, False) s" by (simp add: rebudget_post_def)
  have estimated: "qEstimatedCents (admission_request (chServices h) key estimate) = estimate" for key estimate
    by (simp add: admission_request_def)
  have claim: "wp (State_Monad.bind (releaseBudget h r) (\<lambda>_. State_Monad.bind
      (claimHoldTimed ledger p (admission_request (chServices h) key estimate)) (\<lambda>out. case out of
        Inl err \<Rightarrow> ret (r, False)
      | Inr claimed \<Rightarrow> if oKind claimed \<noteq> ClaimOwned then ret (r, False)
          else State_Monad.bind (new_hold (bhCard (cs_heap s ! i)) estimate (claimed_reservation claimed) r) (\<lambda>r'. ret (r', True)))))
      (rebudget_post h parsed inp (Some i) s) s"
    if "estimateAdmissionCents (bhCard (cs_heap s ! i)) inp = Some estimate" for p key estimate
  proof (rule wp_bind_rule [OF wp_releaseBudget [OF ledger owned]])
    fix x u
    assume "after_settle h parsed (hqReservation r) s u"
    then have "closed h parsed u" "keeps s u" by (simp_all add: after_settle_def)
    then show "wp (State_Monad.bind
      (claimHoldTimed ledger p (admission_request (chServices h) key estimate)) (\<lambda>out. case out of
        Inl err \<Rightarrow> ret (r, False)
      | Inr claimed \<Rightarrow> if oKind claimed \<noteq> ClaimOwned then ret (r, False)
          else State_Monad.bind (new_hold (bhCard (cs_heap s ! i)) estimate (claimed_reservation claimed) r) (\<lambda>r'. ret (r', True))))
      (rebudget_post h parsed inp (Some i) s) u"
      by (rule wp_reclaim [where q = "admission_request (chServices h) key estimate", unfolded estimated,
            OF _ _ card that])
  qed
  show ?thesis
    using ledger Some stay claim
    by (simp add: rebudgetForFallback_def wp_option split: option.split prod.split)
qed

text \<open>After a hop that did not deliver, every reservation of before is still accounted for.\<close>

definition hop_post ::
  "'l chatCompletionHandler \<Rightarrow> chatForwardParams \<Rightarrow> 'l chat_state \<Rightarrow> hopResult \<times> chatForwardParams \<Rightarrow>
   'l chat_state \<Rightarrow> bool" where
  "hop_post h p s = (\<lambda>(outcome, p') t. fpParsed p' = fpParsed p \<and>
     (hqReservation (fpR p') = None \<longleftrightarrow> hqReservation (fpR p) = None) \<and>
     (case outcome of
        hopOK fb \<Rightarrow> owns h (fpParsed p) (hqReservation (fsR fb)) t
      | _ \<Rightarrow> owns h (fpParsed p) (hqReservation (fpR p')) t \<and>
          (\<forall>i. owns h (fpParsed p) (Some i) s \<and> hqReservation (fpR p) \<noteq> None \<longrightarrow> owns h (fpParsed p) (Some i) t)))"

lemma hop_post_stay:
  assumes "same_holds s t" "owns h (fpParsed p) (hqReservation (fpR p)) s" "\<And>fb. outcome \<noteq> hopOK fb"
  shows "hop_post h p s (outcome, p) t"
  using assms same_holds_owns [OF assms(1)] by (cases outcome) (auto simp: hop_post_def)

lemma classify_not_ok: "classifyFallbackHopErr dead err req \<noteq> hopOK fb"
  by (simp add: classifyFallbackHopErr_def)

lemma wp_hop_failed:
  assumes ledger: "chBudgetLedger h = Some ledger"
    and kept: "keeps s u" "hqReservation r = None \<longleftrightarrow> hqReservation (fpR p) = None"
    and owned: "owns h (fpParsed p) (hqReservation r) u"
  shows "wp (State_Monad.bind (releaseBudget h r) (\<lambda>_. State_Monad.bind (ctx_err h) (\<lambda>dead.
      ret (classifyFallbackHopErr dead err req, p\<lparr>fpR := r\<rparr>)))) (hop_post h p s) u"
proof (rule wp_bind_rule [OF wp_releaseBudget [OF ledger owned]])
  fix x v
  assume "after_settle h (fpParsed p) (hqReservation r) u v"
  then have v: "closed h (fpParsed p) v" "keeps s v" "owns h (fpParsed p) (hqReservation r) v"
    using kept(1) keeps_trans by (auto simp: after_settle_def)
  show "wp (State_Monad.bind (ctx_err h) (\<lambda>dead. ret (classifyFallbackHopErr dead err req, p\<lparr>fpR := r\<rparr>))) (hop_post h p s) v"
  proof (rule wp_quiet_bind [OF quiet_ctx_err], unfold wp_return)
    fix dead w
    assume same: "same_holds v w"
    have "owns h (fpParsed p) (hqReservation r) w" "closed h (fpParsed p) w" "keeps s w"
      using v same_holds_owns [OF same] same_holds_closed [OF same] same_holds_keeps [OF same] keeps_trans by blast+
    then show "hop_post h p s (classifyFallbackHopErr dead err req, p\<lparr>fpR := r\<rparr>) w"
      using kept(2) owns_after_closing [of h "fpParsed p" _ s w] classify_not_ok [of dead err req]
      by (cases "classifyFallbackHopErr dead err req") (auto simp: hop_post_def)
  qed
qed

lemma wp_hop_called:
  assumes ledger: "chBudgetLedger h = Some ledger"
    and post: "rebudget_post h (fpParsed p) (hop_admission p prov req) (hqReservation (fpR p)) s (r, True) u"
  shows "wp (State_Monad.bind (provider_complete h prov req) (\<lambda>out. case out of
      Inl err \<Rightarrow> State_Monad.bind (releaseBudget h r) (\<lambda>_. State_Monad.bind (ctx_err h) (\<lambda>dead.
        ret (classifyFallbackHopErr dead err req, p\<lparr>fpR := r\<rparr>)))
    | Inr resp \<Rightarrow> ret (hopOK \<lparr>fsProv = prov, fsResp = resp, fsModel = model, fsReason = reason, fsR = r\<rparr>, p\<lparr>fpR := r\<rparr>)))
    (hop_post h p s) u"
proof (rule wp_bind_rule [OF wp_provider_complete])
  show "owns h (fpParsed p) (hqReservation r) u" "covers h (hqReservation r) (hop_admission p prov req) u"
    using post by (simp_all add: rebudget_post_def)
  fix out v
  assume "owns h (fpParsed p) (hqReservation r) v \<and> keeps u v"
  moreover have "keeps s u" "hqReservation r = None \<longleftrightarrow> hqReservation (fpR p) = None"
    using post by (simp_all add: rebudget_post_def)
  ultimately have v: "owns h (fpParsed p) (hqReservation r) v" "keeps s v" "hqReservation r = None \<longleftrightarrow> hqReservation (fpR p) = None"
    using keeps_trans by blast+
  show "wp (case out of
      Inl err \<Rightarrow> State_Monad.bind (releaseBudget h r) (\<lambda>_. State_Monad.bind (ctx_err h) (\<lambda>dead.
        ret (classifyFallbackHopErr dead err req, p\<lparr>fpR := r\<rparr>)))
    | Inr resp \<Rightarrow> ret (hopOK \<lparr>fsProv = prov, fsResp = resp, fsModel = model, fsReason = reason, fsR = r\<rparr>, p\<lparr>fpR := r\<rparr>))
    (hop_post h p s) v"
  proof (cases out)
    case (Inl err)
    then show ?thesis using wp_hop_failed [OF ledger v(2,3,1)] by (simp del: wp_bind)
  next
    case (Inr resp)
    then show ?thesis using v by (simp add: hop_post_def)
  qed
qed

lemma hop_post_before: "same_holds s t \<Longrightarrow> hop_post h p t x u \<Longrightarrow> hop_post h p s x u"
  using same_holds_owns [of s t] by (auto simp: hop_post_def split: hopResult.splits)

lemma wp_tryFallbackHop:
  assumes ledger: "chBudgetLedger h = Some ledger" and owned: "owns h (fpParsed p) (hqReservation (fpR p)) s"
  shows "wp (tryFallbackHop h p primaryReq org reason hopModel) (hop_post h p s) s"
  unfolding tryFallbackHop_def Let_def
proof (rule wp_quiet_bind [OF quiet_ask], unfold wp_sum, intro conjI allI impI)
  fix routed t err
  assume same: "same_holds s t"
  show "wp (ret (if skipFallbackForOrgErr err then hopContinue else hopAbort, p)) (hop_post h p s) t"
    unfolding wp_return by (rule hop_post_stay [OF same owned]) simp
next
  fix routed t prov
  assume same: "same_holds s t"
  let ?req = "fallbackHopRequest primaryReq hopModel"
  show "wp (State_Monad.bind (rebudgetForFallback h (fpR p) (hop_admission p prov ?req)) (\<lambda>(r, covered).
      if \<not> covered then ret (hopAbort, p)
      else State_Monad.bind (provider_complete h prov ?req) (\<lambda>out. case out of
        Inl err \<Rightarrow> State_Monad.bind (releaseBudget h r) (\<lambda>_. State_Monad.bind (ctx_err h) (\<lambda>dead.
          ret (classifyFallbackHopErr dead err ?req, p\<lparr>fpR := r\<rparr>)))
      | Inr resp \<Rightarrow> ret (hopOK \<lparr>fsProv = prov, fsResp = resp, fsModel = hopModel, fsReason = reason, fsR = r\<rparr>, p\<lparr>fpR := r\<rparr>))))
    (hop_post h p s) t"
  proof (rule wp_bind_rule [OF wp_rebudgetForFallback [OF ledger same_holds_owns [OF same owned]]], clarify)
    fix r covered u
    assume post: "rebudget_post h (fpParsed p) (hop_admission p prov ?req) (hqReservation (fpR p)) t (r, covered) u"
    show "wp (if \<not> covered then ret (hopAbort, p)
      else State_Monad.bind (provider_complete h prov ?req) (\<lambda>out. case out of
        Inl err \<Rightarrow> State_Monad.bind (releaseBudget h r) (\<lambda>_. State_Monad.bind (ctx_err h) (\<lambda>dead.
          ret (classifyFallbackHopErr dead err ?req, p\<lparr>fpR := r\<rparr>)))
      | Inr resp \<Rightarrow> ret (hopOK \<lparr>fsProv = prov, fsResp = resp, fsModel = hopModel, fsReason = reason, fsR = r\<rparr>, p\<lparr>fpR := r\<rparr>)))
      (hop_post h p s) u"
    proof (cases covered)
      case True
      with post have "rebudget_post h (fpParsed p) (hop_admission p prov ?req) (hqReservation (fpR p)) t (r, True) u" by simp
      from wp_mono [OF wp_hop_called [OF ledger this] hop_post_before [OF same]] True
      show ?thesis by (simp del: wp_bind)
    next
      case False
      with post same_holds_owns [OF same owned] have "hop_post h p t (hopAbort, p) u"
        by (auto simp: rebudget_post_def hop_post_def)
      with False hop_post_before [OF same] show ?thesis by simp
    qed
  qed
qed

definition walk_post ::
  "'l chatCompletionHandler \<Rightarrow> ChatCompletionRequest \<Rightarrow> nat option \<Rightarrow> fallbackSuccess option \<Rightarrow> 'l chat_state \<Rightarrow> bool" where
  "walk_post h parsed cell found t = owns h parsed (case found of None \<Rightarrow> cell | Some fb \<Rightarrow> hqReservation (fsR fb)) t"

lemma wp_walkFallbackChain:
  assumes ledger: "chBudgetLedger h = Some ledger"
  shows "owns h (fpParsed p) (hqReservation (fpR p)) s \<Longrightarrow> owns h (fpParsed p) cell s \<Longrightarrow>
    (cell = None \<longleftrightarrow> hqReservation (fpR p) = None) \<Longrightarrow>
    wp (walkFallbackChain h p primaryReq org reason chain) (walk_post h (fpParsed p) cell) s"
proof (induction chain arbitrary: p s)
  case Nil
  then show ?case by (simp add: walk_post_def)
next
  case (Cons hopModel chain)
  show ?case
    unfolding walkFallbackChain.simps
  proof (rule wp_quiet_bind [OF quiet_ctx_err], unfold wp_if, intro conjI impI)
    fix dead t
    assume same: "same_holds s t"
    show "wp (ret None) (walk_post h (fpParsed p) cell) t"
      using same_holds_owns [OF same Cons.prems(2)] by (simp add: walk_post_def)
    show "wp (State_Monad.bind (tryFallbackHop h p primaryReq org reason hopModel) (\<lambda>(outcome, p'). case outcome of
          hopContinue \<Rightarrow> walkFallbackChain h p' primaryReq org reason chain | hopAbort \<Rightarrow> ret None | hopOK fb \<Rightarrow> ret (Some fb)))
      (walk_post h (fpParsed p) cell) t"
    proof (rule wp_bind_rule [OF wp_tryFallbackHop [OF ledger same_holds_owns [OF same Cons.prems(1)]]], clarify)
      fix outcome p' u
      assume post: "hop_post h p t (outcome, p') u"
      have still: "owns h (fpParsed p) cell u" if "\<And>fb. outcome \<noteq> hopOK fb"
      proof (cases cell)
        case None
        with post that Cons.prems(3) show ?thesis by (cases outcome) (auto simp: hop_post_def)
      next
        case (Some i)
        with post that Cons.prems(3) same_holds_owns [OF same Cons.prems(2)] show ?thesis
          by (cases outcome) (auto simp: hop_post_def)
      qed
      show "wp (case outcome of
          hopContinue \<Rightarrow> walkFallbackChain h p' primaryReq org reason chain | hopAbort \<Rightarrow> ret None | hopOK fb \<Rightarrow> ret (Some fb))
        (walk_post h (fpParsed p) cell) u"
      proof (cases outcome)
        case hopContinue
        with post still Cons.prems(3) Cons.IH [of p' u] show ?thesis by (auto simp: hop_post_def)
      next
        case hopAbort
        with still show ?thesis by (simp add: walk_post_def)
      next
        case (hopOK fb)
        with post show ?thesis by (simp add: hop_post_def walk_post_def)
      qed
    qed
  qed
qed

lemma wp_tryFallbackComplete:
  assumes ledger: "chBudgetLedger h = Some ledger" and owned: "owns h (fpParsed p) (hqReservation (fpR p)) s"
  shows "wp (tryFallbackComplete h p primaryReq reason) (walk_post h (fpParsed p) (hqReservation (fpR p))) s"
proof -
  let ?t = "s\<lparr>cs_tick := Suc (cs_tick s)\<rparr>"
  have t: "owns h (fpParsed p) (hqReservation (fpR p)) ?t"
    by (rule same_holds_owns [OF _ owned]) (simp add: same_holds_def)
  show ?thesis
    using wp_walkFallbackChain [OF ledger t t refl] owned t
    by (simp add: tryFallbackComplete_def wp_option wp_sum walk_post_def [of h "fpParsed p" _ None])
qed

section \<open>Responses\<close>

lemma is_hold_simps [simp]:
  "\<not> is_hold (EvHeader status code)" "\<not> is_hold (EvWrite line)" "\<not> is_hold EvFlush" "\<not> is_hold (EvPostResponse out)"
  by (simp_all add: is_hold_def)

lemma wp_writeProviderFailure:
  assumes ledger: "chBudgetLedger h = Some ledger" and owned: "owns h (fpParsed p) (hqReservation (fpR p)) s"
  shows "wp (writeProviderFailure h p pending prov err) (\<lambda>_. closed h (fpParsed p)) s"
  unfolding writeProviderFailure_def
proof (rule wp_bind_rule [OF wp_releaseBudget [OF ledger owned]], rule wp_quiet_end)
  show "closed h (fpParsed p) u"
    if "after_settle h (fpParsed p) (hqReservation (fpR p)) s t" "same_holds t u" for t u
    using that same_holds_closed by (auto simp: after_settle_def)
qed (intro quiet_rules; simp)

lemma wp_settle_end:
  assumes "chBudgetLedger h = Some ledger" "owns h parsed (hqReservation r) s" "quiet (m :: ('l, unit) chat)"
  shows "wp (State_Monad.bind (settleBudgetOutcome h r inp) (\<lambda>_. m)) (\<lambda>_. closed h parsed) s"
  using wp_settleBudgetOutcome [OF assms(1,2)]
  by (rule wp_bind_rule) (rule wp_quiet_end [OF assms(3)], auto simp: after_settle_def intro: same_holds_closed)

lemma wp_owns_quiet:
  assumes "quiet m" "owns h parsed cell s" "\<And>x t. owns h parsed cell t \<Longrightarrow> wp (f x) Q t"
  shows "wp (State_Monad.bind m f) Q s"
  by (rule wp_quiet_bind [OF assms(1)]) (rule assms(3) [OF same_holds_owns [OF _ assms(2)]])

lemma wp_writeJSONSuccess:
  assumes ledger: "chBudgetLedger h = Some ledger" and owned: "owns h (fpParsed p) (hqReservation (fpR p)) s"
  shows "wp (writeJSONSuccess h p pending prov resp audit out) (\<lambda>_. closed h (fpParsed p)) s"
  unfolding writeJSONSuccess_def Let_def
  apply (rule wp_owns_quiet [OF quiet_emit owned], simp)
  apply (rule wp_owns_quiet [OF quiet_emit], simp, assumption)
  apply (rule wp_owns_quiet [OF quiet_flushIfSupported], assumption)
  apply (rule wp_owns_quiet [OF quiet_Finish], assumption)
  apply (rule wp_settle_end [OF ledger], assumption, rule quiet_emit, simp)
  done

lemma wp_writeProviderSuccess:
  assumes ledger: "chBudgetLedger h = Some ledger" and owned: "owns h (fpParsed p) (hqReservation (fpR p)) s"
  shows "wp (writeProviderSuccess h p pending prov resp audit) (\<lambda>_. closed h (fpParsed p)) s"
proof (cases "ReadAllBody (respBody resp)")
  case (Inl err)
  then show ?thesis using wp_writeProviderFailure [OF ledger owned] by (simp add: writeProviderSuccess_def)
next
  case (Inr body)
  have "wp (State_Monad.bind (processResponseBody h prov body) (\<lambda>processed. case processed of
      Inl err \<Rightarrow> writeProviderFailure h p pending prov err
    | Inr out \<Rightarrow> writeJSONSuccess h p pending prov resp audit out)) (\<lambda>_. closed h (fpParsed p)) s"
    by (rule wp_owns_quiet [OF quiet_processResponseBody owned])
      (simp add: wp_sum wp_writeProviderFailure [OF ledger] wp_writeJSONSuccess [OF ledger])
  with Inr show ?thesis by (simp add: writeProviderSuccess_def)
qed

text \<open>A request ends with its hold settled, or is a stream to a client that cannot be flushed.\<close>

definition ended :: "'l chatCompletionHandler \<Rightarrow> chatForwardParams \<Rightarrow> 'l chat_state \<Rightarrow> bool" where
  "ended h p t \<longleftrightarrow> (\<exists>ph. consistent_in h (fpParsed p) ph t) \<and>
     (ccStream (fpParsed p) \<and> \<not> fpFlusher p \<or> open_cells t = {})"

lemma closed_ended: "closed h (fpParsed p) t \<Longrightarrow> ended h p t"
  by (simp add: closed_def ended_def)

lemma wp_closed_ended: "wp m (\<lambda>_. closed h (fpParsed p)) s \<Longrightarrow> wp m (\<lambda>_. ended h p) s"
  by (erule wp_mono) (rule closed_ended)

lemma owns_consistent: "owns h parsed cell t \<Longrightarrow> \<exists>ph. consistent_in h parsed ph t"
  by (auto simp: owns_def)

lemma wp_forwardSSEStream:
  assumes ledger: "chBudgetLedger h = Some ledger" and owned: "owns h (fpParsed p) (hqReservation (fpR p)) s"
    and stream: "ccStream (fpParsed p)"
  shows "wp (forwardSSEStream h p prov resp audit) (\<lambda>_. ended h p) s"
proof (cases "fpFlusher p")
  case False
  have "wp (WriteStatus h 500 ''INTERNAL_ERROR'') (\<lambda>_. ended h p) s"
    by (rule wp_quiet_end [OF quiet_WriteStatus])
      (simp add: ended_def stream False owns_consistent [OF same_holds_owns [OF _ owned]])
  with False show ?thesis by (simp add: forwardSSEStream_def)
next
  case True
  have "wp (settleBudgetOutcome h (fpR p) inp) (\<lambda>_. ended h p) t"
    if "owns h (fpParsed p) (hqReservation (fpR p)) t" for inp t
    using wp_settleBudgetOutcome [OF ledger that] by (rule wp_mono) (simp add: after_settle_def closed_ended)
  then have hook: "wp (streamCheckpointHook h p prov audit complete usage) (\<lambda>_. ended h p) t"
    if "owns h (fpParsed p) (hqReservation (fpR p)) t" for complete usage t
    unfolding streamCheckpointHook_def by (intro wp_owns_quiet [OF quiet_emit that]) simp_all
  show ?thesis
    unfolding forwardSSEStream_def wp_if
    apply (intro conjI impI, use True in blast)
    apply (rule wp_owns_quiet [OF quiet_writeSSE owned])
    apply (simp add: hook split: prod.split)
    done
qed

lemma wp_finishProviderResponse:
  assumes "chBudgetLedger h = Some ledger" "owns h (fpParsed p) (hqReservation (fpR p)) s"
  shows "wp (finishProviderResponse h p pending prov resp audit) (\<lambda>_. ended h p) s"
  using wp_forwardSSEStream [OF assms] wp_closed_ended [OF wp_writeProviderSuccess [OF assms]]
  by (simp add: finishProviderResponse_def)

section \<open>The handler\<close>

lemma wp_failure_ended:
  assumes "chBudgetLedger h = Some ledger" "owns h (fpParsed p) (hqReservation (fpR p)) s"
  shows "wp (writeProviderFailure h p pending prov err) (\<lambda>_. ended h p) s"
    and "wp (releaseBudget h (fpR p)) (\<lambda>_. ended h p) s"
  by (rule wp_closed_ended [OF wp_writeProviderFailure [OF assms]])
    (rule wp_mono [OF wp_releaseBudget [OF assms]], simp add: after_settle_def closed_ended)

lemma ended_request: "ended h (p\<lparr>fpR := r\<rparr>) = ended h p"
  by (simp add: ended_def fun_eq_iff)

lemma wp_fallback_or_fail:
  assumes ledger: "chBudgetLedger h = Some ledger" and owned: "owns h (fpParsed p) (hqReservation (fpR p)) s"
  shows "wp (State_Monad.bind (tryFallbackComplete h p req reason) (\<lambda>found. case found of
      None \<Rightarrow> State_Monad.bind (ctx_err h) (\<lambda>gone. if gone = Some Canceled then releaseBudget h (fpR p)
        else writeProviderFailure h p pending (fpProv p) err)
    | Some fb \<Rightarrow> finishProviderResponse h (p\<lparr>fpR := fsR fb\<rparr>) pending (fsProv fb) (fsResp fb) (audit fb)))
    (\<lambda>_. ended h p) s"
proof (rule wp_bind_rule [OF wp_tryFallbackComplete [OF ledger owned]], unfold wp_option, intro conjI impI allI)
  fix found t
  assume post: "walk_post h (fpParsed p) (hqReservation (fpR p)) found t"
  {
    assume "found = None"
    with post have t: "owns h (fpParsed p) (hqReservation (fpR p)) t" by (simp add: walk_post_def)
    show "wp (State_Monad.bind (ctx_err h) (\<lambda>gone. if gone = Some Canceled then releaseBudget h (fpR p)
        else writeProviderFailure h p pending (fpProv p) err)) (\<lambda>_. ended h p) t"
      by (rule wp_owns_quiet [OF quiet_ctx_err t]) (simp add: wp_failure_ended [OF ledger])
  next
    fix fb
    assume "found = Some fb"
    with post show "wp (finishProviderResponse h (p\<lparr>fpR := fsR fb\<rparr>) pending (fsProv fb) (fsResp fb) (audit fb))
        (\<lambda>_. ended h p) t"
      using wp_finishProviderResponse [OF ledger, of "p\<lparr>fpR := fsR fb\<rparr>"] by (simp add: walk_post_def ended_request)
  }
qed

lemma wp_handlePrimaryCompleteError:
  assumes ledger: "chBudgetLedger h = Some ledger" and owned: "owns h (fpParsed p) (hqReservation (fpR p)) s"
  shows "wp (handlePrimaryCompleteError h p pending req err) (\<lambda>_. ended h p) s"
  unfolding handlePrimaryCompleteError_def
proof (rule wp_owns_quiet [OF quiet_ctx_err owned], unfold wp_if, intro conjI impI)
  fix dead t
  assume t: "owns h (fpParsed p) (hqReservation (fpR p)) t"
  show "wp (releaseBudget h (fpR p)) (\<lambda>_. ended h p) t" by (rule wp_failure_ended [OF ledger t])
  show "wp (State_Monad.bind (ctx_err h) (\<lambda>late. if late \<noteq> None then writeProviderFailure h p pending (fpProv p) err
      else (case FallbackEligible err req of
          None \<Rightarrow> writeProviderFailure h p pending (fpProv p) err
        | Some reason \<Rightarrow> State_Monad.bind (tryFallbackComplete h p req reason) (\<lambda>found. case found of
            None \<Rightarrow> State_Monad.bind (ctx_err h) (\<lambda>gone. if gone = Some Canceled then releaseBudget h (fpR p)
              else writeProviderFailure h p pending (fpProv p) err)
          | Some fb \<Rightarrow> finishProviderResponse h (p\<lparr>fpR := fsR fb\<rparr>) pending (fsProv fb) (fsResp fb)
              \<lparr>faOriginalModel = fallbackOriginalModel (prModel req) (fpParsed p),
               faFallbackModel = fsModel fb, faReason = fsReason fb\<rparr>)))) (\<lambda>_. ended h p) t"
  proof (rule wp_owns_quiet [OF quiet_ctx_err t], unfold wp_if wp_option, intro conjI impI allI)
    fix late u
    assume u: "owns h (fpParsed p) (hqReservation (fpR p)) u"
    show "wp (writeProviderFailure h p pending (fpProv p) err) (\<lambda>_. ended h p) u"
      "wp (writeProviderFailure h p pending (fpProv p) err) (\<lambda>_. ended h p) u"
      by (rule wp_failure_ended [OF ledger u])+
  qed (rule wp_fallback_or_fail [OF ledger])
qed

lemma wp_completeAndRespond:
  assumes ledger: "chBudgetLedger h = Some ledger" and owned: "owns h (fpParsed p) (hqReservation (fpR p)) s"
    and covered: "covers h (hqReservation (fpR p)) (hop_admission p (fpProv p) req) s"
  shows "wp (completeAndRespond h p pending req) (\<lambda>_. ended h p) s"
  unfolding completeAndRespond_def
  by (rule wp_bind_rule [OF wp_provider_complete [OF owned covered]])
    (simp add: wp_sum wp_handlePrimaryCompleteError [OF ledger] wp_finishProviderResponse [OF ledger])

lemma wp_quiet_ended:
  "quiet m \<Longrightarrow> unclaimed h (fpParsed p) s \<Longrightarrow> wp m (\<lambda>_. ended h p) s"
  by (rule wp_quiet_end) (auto intro: closed_ended same_holds_closed unclaimed_closed)

lemma wp_unclaimed_quiet:
  assumes "quiet m" "unclaimed h parsed s" "\<And>x t. unclaimed h parsed t \<Longrightarrow> wp (f x) Q t"
  shows "wp (State_Monad.bind m f) Q s"
  by (rule wp_quiet_bind [OF assms(1)]) (rule assms(3) [OF same_holds_unclaimed [OF _ assms(2)]])

lemma wp_admit_and_complete:
  assumes ledger: "chBudgetLedger h = Some ledger" "chBudgetCache h"
    and start: "unclaimed h (fpParsed p) s" "hqReservation (fpR p) = None"
  shows "wp (State_Monad.bind (claimBudgetAdmission h (fpR p) (hop_admission p (fpProv p) req)) (\<lambda>(r, admitted).
      if \<not> admitted then Abandon h pending else completeAndRespond h (p\<lparr>fpR := r\<rparr>) pending req)) (\<lambda>_. ended h p) s"
proof (rule wp_bind_rule [OF wp_claimBudgetAdmission [OF ledger start]], clarify)
  fix r admitted t
  assume post: "admission_post h (fpParsed p) (hop_admission p (fpProv p) req) (r, admitted) t"
  have priced: "hop_admission (p\<lparr>fpR := r\<rparr>) (fpProv p) req = hop_admission p (fpProv p) req"
    by (simp add: hop_admission_def)
  show "wp (if \<not> admitted then Abandon h pending else completeAndRespond h (p\<lparr>fpR := r\<rparr>) pending req) (\<lambda>_. ended h p) t"
  proof (cases admitted)
    case True
    with post show ?thesis
      using wp_completeAndRespond [OF ledger(1), of "p\<lparr>fpR := r\<rparr>" t] by (simp add: admission_post_def priced ended_request)
  next
    case False
    with post have "closed h (fpParsed p) t" by (simp add: admission_post_def)
    then have "wp (Abandon h pending) (\<lambda>_. ended h p) t"
      by (intro wp_quiet_end [OF quiet_Abandon] closed_ended) (rule same_holds_closed)
    with False show ?thesis by simp
  qed
qed

lemma wp_dispatchProviderCompletion:
  assumes ledger: "chBudgetLedger h = Some ledger" "chBudgetCache h"
    and start: "unclaimed h (fpParsed p) s" "hqReservation (fpR p) = None"
  shows "wp (dispatchProviderCompletion h p pending) (\<lambda>_. ended h p) s"
  unfolding dispatchProviderCompletion_def Let_def
proof (rule wp_unclaimed_quiet [OF quiet_ctx_err start(1)], unfold wp_if, intro conjI impI)
  fix dead t
  assume t: "unclaimed h (fpParsed p) t"
  show "wp (Abandon h pending) (\<lambda>_. ended h p) t" by (rule wp_quiet_ended [OF quiet_Abandon t])
  let ?req = "ToProviderRequest (fpParsed p)"
  show "wp (State_Monad.bind (applyContextOrDirectiveInjection h (fpR p) (prModel ?req) (prMessages ?req)) (\<lambda>messages.
      State_Monad.bind (applyCredentialOverride h (fpR p) (fpProv p) (?req\<lparr>prMessages := messages\<rparr>)) (\<lambda>prepared. case prepared of
        None \<Rightarrow> Abandon h pending
      | Some req \<Rightarrow> State_Monad.bind (claimBudgetAdmission h (fpR p) (hop_admission p (fpProv p) req)) (\<lambda>(r, admitted).
          if \<not> admitted then Abandon h pending else completeAndRespond h (p\<lparr>fpR := r\<rparr>) pending req)))) (\<lambda>_. ended h p) t"
    apply (rule wp_unclaimed_quiet [OF quiet_injection t])
    apply (rule wp_unclaimed_quiet [OF quiet_credentials], assumption)
    apply (unfold wp_option, intro conjI impI allI)
     apply (erule wp_quiet_ended [OF quiet_Abandon])
    apply (erule wp_admit_and_complete [OF ledger _ start(2)])
    done
qed

lemma wp_forwardChatCompletion:
  assumes ledger: "chBudgetLedger h = Some ledger" "chBudgetCache h"
    and start: "unclaimed h (fpParsed p) s" "hqReservation (fpR p) = None"
  shows "wp (forwardChatCompletion h p) (\<lambda>_. ended h p) s"
  unfolding forwardChatCompletion_def
proof (rule wp_unclaimed_quiet [OF quiet_Resolve start(1)], clarify)
  fix pending cont t
  assume t: "unclaimed h (fpParsed p) t"
  show "wp (if \<not> cont then ret () else case pending of
        None \<Rightarrow> dispatchProviderCompletion h p pending
      | Some own \<Rightarrow> (case icHit own of None \<Rightarrow> dispatchProviderCompletion h p pending | Some hit \<Rightarrow> Replay hit))
      (\<lambda>_. ended h p) t"
    using wp_quiet_ended [OF quiet_Replay t] wp_dispatchProviderCompletion [OF ledger t start(2)]
    by (simp add: wp_option closed_ended [OF unclaimed_closed [OF t]])
qed

lemma wp_serve:
  assumes ledger: "chBudgetLedger h = Some ledger" "chBudgetCache h"
    and start: "unclaimed h body s" "hqReservation r = None"
  shows "wp (serve h post r (Some body) prov flusher)
    (\<lambda>_. ended h \<lparr>fpR = r, fpParsed = body, fpProv = [], fpFlusher = flusher\<rparr>) s"
proof -
  let ?p = "\<lambda>name. \<lparr>fpR = r, fpParsed = body, fpProv = name, fpFlusher = flusher\<rparr>"
  have name: "ended h (?p name) = ended h (?p [])" for name by (simp add: ended_def fun_eq_iff)
  have refuse: "wp (WriteStatus h status code) (\<lambda>_. ended h (?p [])) s" for status code
    by (rule wp_quiet_ended [OF quiet_WriteStatus]) (simp add: start)
  have "wp (forwardChatCompletion h (?p name)) (\<lambda>_. ended h (?p [])) s" for name
    using wp_forwardChatCompletion [OF ledger, of "?p name"] start unfolding name [of name] by simp
  with refuse show ?thesis by (simp add: serve_def wp_option)
qed

text \<open>C3. A provider is called only under an open hold whose size is the price of that very call at a card published for the
  hard cap, or when no hard cap applies; a request never holds two reservations; each reservation it owns is
  released, or finalized at the measured price or the estimate, exactly once; and the request ends with none open, for every ledger, provider, fallback chain and
  client. The one exception is a stream to a writer that cannot be flushed.\<close>

theorem chat_holds_covered:
  assumes "chBudgetLedger h = Some ledger" "chBudgetCache h" "hqReservation r = None"
    and "cs_log s = []" "cs_heap s = []"
    and "run_state (serve h post r (Some body) prov flusher) s = (x, t)"
  shows "\<exists>ph. hold_trace (chat_rules h body) Idle (cs_log t) = Some ph \<and>
    ((\<forall>own estimate. ph \<noteq> Held own estimate) \<or> ccStream body \<and> \<not> flusher)"
proof -
  have "unclaimed h body s" using assms(4,5) by (simp add: unclaimed_def consistent_def open_cells_def)
  from wp_run [OF wp_serve [OF assms(1,2) this assms(3)] assms(6)]
  show ?thesis by (auto simp: ended_def consistent_def)
qed

end
