(* ===== verification/Proxy_Tracking.thy ===== *)
theory Proxy_Tracking
  imports Proxy_Lifecycle
begin

text \<open>
  The chat handler touches its ledger only through calls it logs: the ledger after a run is the ledger before it with
  the logged calls replayed, each claim made for the tenant and the key of the request. With the hold monitor this
  turns every contract of a ledger into a guarantee about whole requests.
\<close>

section \<open>Replaying the log\<close>

definition calls_ledger :: "event \<Rightarrow> bool" where
  "calls_ledger ev = (case ev of EvClaim _ _ \<Rightarrow> True | EvFinalize _ _ _ _ \<Rightarrow> True | EvRelease _ _ \<Rightarrow> True | _ \<Rightarrow> False)"

inductive ledger_run ::
  "'l Ledger \<Rightarrow> (Principal \<Rightarrow> ClaimRequest \<Rightarrow> bool) \<Rightarrow> event list \<Rightarrow> 'l \<Rightarrow> 'l \<Rightarrow> bool"
  for ledger and mine where
  stop: "ledger_run ledger mine [] l l"
| other: "\<not> calls_ledger ev \<Longrightarrow> ledger_run ledger mine evs l m \<Longrightarrow> ledger_run ledger mine (ev # evs) l m"
| claims: "mine p q \<Longrightarrow> ldClaim ledger p q l = (out, k) \<Longrightarrow> ledger_run ledger mine evs k m \<Longrightarrow>
    ledger_run ledger mine (EvClaim q out # evs) l m"
| releases: "ldRelease ledger own l = (out, k) \<Longrightarrow> ledger_run ledger mine evs k m \<Longrightarrow>
    ledger_run ledger mine (EvRelease own (\<not> isl out) # evs) l m"
| finalizes: "ldFinalize ledger own amount (Some quality) l = (out, k) \<Longrightarrow> ledger_run ledger mine evs k m \<Longrightarrow>
    ledger_run ledger mine (EvFinalize own amount quality (\<not> isl out) # evs) l m"

lemma ledger_run_append:
  "ledger_run ledger mine xs l k \<Longrightarrow> ledger_run ledger mine ys k m \<Longrightarrow> ledger_run ledger mine (xs @ ys) l m"
  by (induction rule: ledger_run.induct) (auto intro: ledger_run.intros)

lemma ledger_run_quiet: "list_all (\<lambda>ev. \<not> is_hold ev) evs \<Longrightarrow> ledger_run ledger mine evs l l"
  by (induction evs) (auto intro!: ledger_run.intros simp: is_hold_def calls_ledger_def split: event.splits)

section \<open>Tracked functions\<close>

definition tracks ::
  "'l Ledger \<Rightarrow> (Principal \<Rightarrow> ClaimRequest \<Rightarrow> bool) \<Rightarrow> ('a \<Rightarrow> bool) \<Rightarrow> ('l, 'a) chat \<Rightarrow> bool" where
  "tracks ledger mine R m \<longleftrightarrow> (\<forall>s x t. run_state m s = (x, t) \<longrightarrow> R x \<and>
     (\<exists>evs. cs_log t = cs_log s @ evs \<and> ledger_run ledger mine evs (cs_ledger s) (cs_ledger t)))"

abbreviation tracked ::
  "'l Ledger \<Rightarrow> (Principal \<Rightarrow> ClaimRequest \<Rightarrow> bool) \<Rightarrow> ('l, 'a) chat \<Rightarrow> bool" where
  "tracked ledger mine m \<equiv> tracks ledger mine (\<lambda>_. True) m"

named_theorems track_rules "tracked functions"

lemma tracks_return [track_rules]: "R x \<Longrightarrow> tracks ledger mine R (ret x)"
  by (simp add: tracks_def ledger_run.stop)

lemma tracks_bind:
  assumes first: "tracks ledger mine R m" and rest: "\<And>x. R x \<Longrightarrow> tracks ledger mine Q (f x)"
  shows "tracks ledger mine Q (State_Monad.bind m f)"
  unfolding tracks_def
proof (intro allI impI)
  fix s y u
  assume run: "run_state (State_Monad.bind m f) s = (y, u)"
  obtain x t where m: "run_state m s = (x, t)" by fastforce
  with run have f: "run_state (f x) t = (y, u)" by simp
  from first m obtain xs where "R x" and xs: "cs_log t = cs_log s @ xs" "ledger_run ledger mine xs (cs_ledger s) (cs_ledger t)"
    unfolding tracks_def by blast
  from rest [OF \<open>R x\<close>] f obtain ys where "Q y" and ys: "cs_log u = cs_log t @ ys" "ledger_run ledger mine ys (cs_ledger t) (cs_ledger u)"
    unfolding tracks_def by blast
  with xs show "Q y \<and> (\<exists>evs. cs_log u = cs_log s @ evs \<and> ledger_run ledger mine evs (cs_ledger s) (cs_ledger u))"
    by (auto intro: ledger_run_append)
qed

lemma tracked_bind [track_rules]:
  "tracked ledger mine m \<Longrightarrow> (\<And>x. tracks ledger mine Q (f x)) \<Longrightarrow> tracks ledger mine Q (State_Monad.bind m f)"
  by (rule tracks_bind)

lemma tracks_if [track_rules]:
  "(b \<Longrightarrow> tracks ledger mine R m) \<Longrightarrow> (\<not> b \<Longrightarrow> tracks ledger mine R n) \<Longrightarrow> tracks ledger mine R (if b then m else n)"
  by simp

lemma tracks_option [track_rules]:
  "(x = None \<Longrightarrow> tracks ledger mine R m) \<Longrightarrow> (\<And>y. x = Some y \<Longrightarrow> tracks ledger mine R (f y)) \<Longrightarrow>
   tracks ledger mine R (case x of None \<Rightarrow> m | Some y \<Rightarrow> f y)"
  by (cases x) auto

lemma tracks_sum [track_rules]:
  "(\<And>e. x = Inl e \<Longrightarrow> tracks ledger mine R (f e)) \<Longrightarrow> (\<And>y. x = Inr y \<Longrightarrow> tracks ledger mine R (g y)) \<Longrightarrow>
   tracks ledger mine R (case x of Inl e \<Rightarrow> f e | Inr y \<Rightarrow> g y)"
  by (cases x) auto

lemma tracks_prod [track_rules]:
  "(\<And>y z. x = (y, z) \<Longrightarrow> tracks ledger mine R (f y z)) \<Longrightarrow> tracks ledger mine R (case x of (y, z) \<Rightarrow> f y z)"
  by (cases x) auto

lemma tracks_let [track_rules]: "tracks ledger mine R (f x) \<Longrightarrow> tracks ledger mine R (let y = x in f y)"
  by simp

lemma quiet_tracked: "quiet m \<Longrightarrow> tracked ledger mine m"
  unfolding quiet_def tracks_def Let_def by (metis ledger_run_quiet snd_conv)

lemma tracked_deref [track_rules]: "tracked ledger mine (deref i)"
  by (simp add: tracks_def deref_def ledger_run.stop)

lemma tracked_mark_settled [track_rules]: "tracked ledger mine (mark_settled i)"
  by (auto simp: tracks_def mark_settled_def ledger_run.stop)

lemma tracked_emit [track_rules]: "\<not> calls_ledger ev \<Longrightarrow> tracked ledger mine (emit ev)"
  by (auto simp: tracks_def emit_def intro!: ledger_run.intros)

lemma tracked_release [track_rules]: "tracked ledger mine (releaseReservation ledger res)"
  by (auto simp: tracks_def releaseReservation_def call_ledger_def emit_def split: prod.splits
      intro!: ledger_run.intros)

lemma tracked_finalize [track_rules]:
  "tracked ledger mine (State_Monad.bind (call_ledger (ldFinalize ledger own amount (Some quality)))
     (\<lambda>out. emit (EvFinalize own amount quality (\<not> isl out))))"
  by (auto simp: tracks_def call_ledger_def emit_def split: prod.splits intro!: ledger_run.intros)

lemma tracked_claim [track_rules]: "mine p q \<Longrightarrow> tracked ledger mine (claimHoldTimed ledger p q)"
  by (auto simp: tracks_def claimHoldTimed_def call_ledger_def emit_def split: prod.splits
      intro: ledger_run.claims ledger_run.stop)


lemmas tracked_quiet [track_rules] = quiet_ask [THEN quiet_tracked] quiet_WriteStatus [THEN quiet_tracked]
  quiet_Finish [THEN quiet_tracked] quiet_Abandon [THEN quiet_tracked] quiet_FinishCapture [THEN quiet_tracked]
  quiet_captureHeader [THEN quiet_tracked] quiet_captureWrite [THEN quiet_tracked]
  quiet_flushIfSupported [THEN quiet_tracked] quiet_ctx_err [THEN quiet_tracked] quiet_Replay [THEN quiet_tracked]
  quiet_Resolve [THEN quiet_tracked] quiet_injection [THEN quiet_tracked] quiet_credentials [THEN quiet_tracked]
  quiet_processResponseBody [THEN quiet_tracked] quiet_writeSSE [THEN quiet_tracked]

section \<open>The handler\<close>

text \<open>Claims for this request are the ledger's to accept, whatever reservation the context carries.\<close>

definition admits :: "(Principal \<Rightarrow> ClaimRequest \<Rightarrow> bool) \<Rightarrow> 'l chatCompletionHandler \<Rightarrow> http_request \<Rightarrow> bool" where
  "admits mine h r \<longleftrightarrow> (\<forall>p key estimate. budgetAdmissionIDs r = Some (p, key) \<longrightarrow>
     mine p (admission_request (chServices h) key estimate))"

lemma admits_reservation [simp]: "admits mine h (r\<lparr>hqReservation := cell\<rparr>) = admits mine h r"
proof -
  have "budgetAdmissionIDs (r\<lparr>hqReservation := cell\<rparr>) = budgetAdmissionIDs r"
    by (simp add: budgetAdmissionIDs_def budgetReservationKey_def tenantIDsFromContext_def cong: option.case_cong)
  then show ?thesis by (simp add: admits_def)
qed

lemma tracked_releaseBudget [track_rules]: "chBudgetLedger h = Some ledger \<Longrightarrow> tracked ledger mine (releaseBudget h r)"
  unfolding releaseBudget_def by (cases "hqReservation r") (auto intro!: track_rules)

lemma tracked_settle [track_rules]: "chBudgetLedger h = Some ledger \<Longrightarrow> tracked ledger mine (settleBudgetOutcome h r inp)"
  unfolding settleBudgetOutcome_def by (cases "hqReservation r") (auto intro!: track_rules split: prod.split)

lemma tracks_new_hold:
  "admits mine h r \<Longrightarrow> tracks ledger mine (\<lambda>(r', b). admits mine h r')
     (State_Monad.bind (new_hold c estimate own r) (\<lambda>r'. ret (r', True)))"
  by (auto simp: tracks_def new_hold_def alloc_def ledger_run.stop)

abbreviation stays :: "(Principal \<Rightarrow> ClaimRequest \<Rightarrow> bool) \<Rightarrow> 'l chatCompletionHandler \<Rightarrow> http_request \<times> bool \<Rightarrow> bool" where
  "stays mine h \<equiv> \<lambda>(r, b). admits mine h r"

lemma tracks_refuse:
  "admits mine h r \<Longrightarrow> tracks ledger mine (stays mine h) (State_Monad.bind (WriteStatus h status code) (\<lambda>_. ret (r, False)))"
  by (intro track_rules) simp

lemma tracks_applyBudgetClaim:
  "admits mine h r \<Longrightarrow> tracks ledger mine (stays mine h) (applyBudgetClaim h r out estimate snap)"
  unfolding applyBudgetClaim_def
  by (cases "oKind out") (simp_all add: tracks_refuse tracks_new_hold tracks_return)

lemma tracked_claimDurableHold: "mine p q \<Longrightarrow> tracked ledger mine (claimDurableHold h ledger q p)"
  unfolding claimDurableHold_def by (intro track_rules) simp_all

lemma tracks_claimBudgetAdmission:
  assumes "chBudgetLedger h = Some ledger" "admits mine h r"
  shows "tracks ledger mine (stays mine h) (claimBudgetAdmission h r inp)"
  unfolding claimBudgetAdmission_def assms(1) option.case
  by (intro tracks_if tracks_option tracks_prod tracked_bind tracks_sum tracks_refuse tracks_applyBudgetClaim assms(2)
      tracked_quiet tracked_claimDurableHold tracked_emit tracks_return)
    (use assms(2) in \<open>auto simp: admits_def calls_ledger_def\<close>)

lemma tracks_rebudgetForFallback:
  assumes ledger: "chBudgetLedger h = Some ledger" and r: "admits mine h r"
  shows "tracks ledger mine (stays mine h) (rebudgetForFallback h r inp)"
proof (cases "hqReservation r")
  case None
  with r ledger show ?thesis by (simp add: rebudgetForFallback_def tracks_return)
next
  case (Some i)
  show ?thesis
    unfolding rebudgetForFallback_def Some ledger option.case prod.case
    by (intro tracks_if tracks_option tracks_prod tracked_bind tracks_sum tracked_deref tracked_releaseBudget
        tracked_claim tracks_new_hold r ledger tracks_return)
      (use r in \<open>auto simp: admits_def\<close>)
qed

lemma tracked_provider_complete [track_rules]: "tracked ledger mine (provider_complete h prov req)"
  unfolding provider_complete_def by (intro track_rules) (simp add: calls_ledger_def)

lemma tracked_writeProviderFailure [track_rules]:
  "chBudgetLedger h = Some ledger \<Longrightarrow> tracked ledger mine (writeProviderFailure h p pending prov err)"
  unfolding writeProviderFailure_def by (intro track_rules) (simp_all add: calls_ledger_def)

lemma tracked_writeJSONSuccess [track_rules]:
  "chBudgetLedger h = Some ledger \<Longrightarrow> tracked ledger mine (writeJSONSuccess h p pending prov resp audit out)"
  unfolding writeJSONSuccess_def by (intro track_rules) (simp_all add: calls_ledger_def)

lemma tracked_finishProviderResponse [track_rules]:
  "chBudgetLedger h = Some ledger \<Longrightarrow> tracked ledger mine (finishProviderResponse h p pending prov resp audit)"
  unfolding finishProviderResponse_def writeProviderSuccess_def forwardSSEStream_def streamCheckpointHook_def
  by (intro track_rules) (simp_all add: calls_ledger_def)

lemma tracks_tryFallbackHop:
  assumes ledger: "chBudgetLedger h = Some ledger" and r: "admits mine h (fpR p)"
  shows "tracks ledger mine (\<lambda>(outcome, p'). admits mine h (fpR p')) (tryFallbackHop h p primaryReq org reason hopModel)"
  unfolding tryFallbackHop_def Let_def
  apply (rule tracked_bind [OF quiet_ask [THEN quiet_tracked]], rule tracks_sum)
   apply (rule tracks_return, simp add: r)
  apply (rule tracks_bind [OF tracks_rebudgetForFallback [OF ledger r]])
  apply (clarify, intro tracks_if tracked_bind tracks_sum tracked_quiet tracked_provider_complete tracked_releaseBudget
      ledger tracks_return)
  apply (simp_all add: r)
  done

lemma tracked_walkFallbackChain:
  "chBudgetLedger h = Some ledger \<Longrightarrow> admits mine h (fpR p) \<Longrightarrow>
   tracked ledger mine (walkFallbackChain h p primaryReq org reason chain)"
proof (induction chain arbitrary: p)
  case Nil
  then show ?case by (simp add: tracks_return)
next
  case (Cons hopModel chain)
  have onward: "tracked ledger mine (case outcome of hopContinue \<Rightarrow> walkFallbackChain h p' primaryReq org reason chain
      | hopAbort \<Rightarrow> ret None | hopOK fb \<Rightarrow> ret (Some fb))" if "admits mine h (fpR p')" for outcome p'
    using Cons.IH [OF Cons.prems(1) that] by (cases outcome) (simp_all add: tracks_return)
  show ?case
    unfolding walkFallbackChain.simps
    apply (rule tracked_bind [OF quiet_ctx_err [THEN quiet_tracked]], intro tracks_if)
     apply (simp add: tracks_return)
    apply (rule tracks_bind [OF tracks_tryFallbackHop [OF Cons.prems]])
    apply (rule tracks_prod)
    using onward apply simp
    done
qed


lemma tracked_serve:
  assumes ledger: "chBudgetLedger h = Some ledger" and r: "admits mine h r"
  shows "tracked ledger mine (serve h post r parsed prov flusher)"
proof -
  have fallback: "tracked ledger mine (tryFallbackComplete h p req reason)" if "admits mine h (fpR p)" for p req reason
    unfolding tryFallbackComplete_def
    by (intro tracked_bind tracks_if tracks_option tracks_sum tracks_return tracked_quiet
        tracked_walkFallbackChain [OF ledger that]) simp_all
  have failed: "tracked ledger mine (handlePrimaryCompleteError h p pending req err)"
    if "admits mine h (fpR p)" for p pending req err
    unfolding handlePrimaryCompleteError_def
    by (intro tracked_bind tracks_if tracks_option tracked_quiet tracked_releaseBudget tracked_writeProviderFailure
        tracked_finishProviderResponse ledger fallback [OF that])
  have complete: "tracked ledger mine (completeAndRespond h p pending req)" if "admits mine h (fpR p)" for p pending req
    unfolding completeAndRespond_def
    by (intro tracked_bind tracks_sum tracked_provider_complete tracked_finishProviderResponse ledger failed [OF that])
  have admit: "tracked ledger mine (State_Monad.bind (claimBudgetAdmission h (fpR p) inp) (\<lambda>(r, admitted).
      if \<not> admitted then Abandon h pending else completeAndRespond h (p\<lparr>fpR := r\<rparr>) pending req))"
    if "admits mine h (fpR p)" for p inp pending req
    by (rule tracks_bind [OF tracks_claimBudgetAdmission [OF ledger that]])
      (auto intro!: tracks_if tracked_quiet complete)
  have dispatch: "tracked ledger mine (dispatchProviderCompletion h p pending)" if "admits mine h (fpR p)" for p pending
    unfolding dispatchProviderCompletion_def Let_def
    apply (rule tracked_bind [OF quiet_ctx_err [THEN quiet_tracked]], intro tracks_if tracked_quiet)
    apply (rule tracked_bind [OF quiet_injection [THEN quiet_tracked]])
    apply (rule tracked_bind [OF quiet_credentials [THEN quiet_tracked]], intro tracks_option tracked_quiet)
    apply (rule admit [OF that])
    done
  show ?thesis
    unfolding serve_def forwardChatCompletion_def
    by (intro tracks_if tracks_option tracked_quiet tracked_bind tracks_prod tracks_return dispatch) (simp_all add: r)
qed

end
