(* ===== verification/Proxy_Replies.thy ===== *)
theory Proxy_Replies
  imports Proxy_Chat
begin

text \<open>
  What a client and a provider see of a chat request, whatever the ledgers, stores, providers and policies answer.
  A monitor reads the log of a run and either moves on or gets stuck; \<open>obs\<close> is the weakest precondition of a function
  in the state of the monitor alone. One monitor follows the response and the idempotency key, the other one the
  calls to providers.
\<close>

section \<open>Monitors\<close>

fun monitor :: "('m \<Rightarrow> event \<Rightarrow> 'm option) \<Rightarrow> 'm \<Rightarrow> event list \<Rightarrow> 'm option" where
  "monitor step m [] = Some m"
| "monitor step m (ev # evs) = (case step m ev of None \<Rightarrow> None | Some m' \<Rightarrow> monitor step m' evs)"

lemma monitor_append:
  "monitor step m (xs @ ys) = (case monitor step m xs of None \<Rightarrow> None | Some m' \<Rightarrow> monitor step m' ys)"
  by (induction xs arbitrary: m) (auto split: option.splits)

definition obs :: "('m \<Rightarrow> event \<Rightarrow> 'm option) \<Rightarrow> ('l, 'a) chat \<Rightarrow> ('a \<Rightarrow> 'm \<Rightarrow> bool) \<Rightarrow> 'm \<Rightarrow> bool" where
  "obs step f Q m \<longleftrightarrow> (\<forall>s x t. run_state f s = (x, t) \<longrightarrow>
     (\<exists>evs m'. cs_log t = cs_log s @ evs \<and> monitor step m evs = Some m' \<and> Q x m'))"

lemma obs_run: "obs step f Q m \<Longrightarrow> run_state f s = (x, t) \<Longrightarrow> cs_log s = [] \<Longrightarrow> \<exists>m'. monitor step m (cs_log t) = Some m' \<and> Q x m'"
  by (fastforce simp: obs_def)

lemma obs_mono: "obs step f P m \<Longrightarrow> (\<And>x m'. P x m' \<Longrightarrow> Q x m') \<Longrightarrow> obs step f Q m"
  unfolding obs_def by blast

lemma obs_return [simp]: "obs step (ret x) Q m \<longleftrightarrow> Q x m"
  by (auto simp: obs_def)

lemma obs_emit [simp]: "obs step (emit ev) Q m \<longleftrightarrow> (\<exists>m'. step m ev = Some m' \<and> Q () m')"
  by (auto simp: obs_def emit_def split: option.splits)

lemma obs_ask: "(\<And>n. Q (q n) m) \<Longrightarrow> obs step (ask q) Q m"
  by (auto simp: obs_def ask_def)

lemma obs_call_ledger: "(\<And>x. Q x m) \<Longrightarrow> obs step (call_ledger op) Q m"
  by (auto simp: obs_def call_ledger_def split: prod.splits)

lemma obs_deref: "(\<And>x. Q x m) \<Longrightarrow> obs step (deref i) Q m"
  by (auto simp: obs_def deref_def)

lemma obs_mark_settled: "Q () m \<Longrightarrow> obs step (mark_settled i) Q m"
  by (auto simp: obs_def mark_settled_def)

lemma obs_alloc: "(\<And>x. Q x m) \<Longrightarrow> obs step (alloc res) Q m"
  by (auto simp: obs_def alloc_def)

lemma obs_bind: "obs step f (\<lambda>x. obs step (g x) Q) m \<Longrightarrow> obs step (State_Monad.bind f g) Q m"
  unfolding obs_def
proof (intro allI impI)
  fix s y u
  assume first: "\<forall>s x t. run_state f s = (x, t) \<longrightarrow> (\<exists>evs m'. cs_log t = cs_log s @ evs \<and> monitor step m evs = Some m' \<and>
      (\<forall>s y t. run_state (g x) s = (y, t) \<longrightarrow> (\<exists>evs k. cs_log t = cs_log s @ evs \<and> monitor step m' evs = Some k \<and> Q y k)))"
    and run: "run_state (State_Monad.bind f g) s = (y, u)"
  obtain x t where f: "run_state f s = (x, t)" by fastforce
  with run have g: "run_state (g x) t = (y, u)" by simp
  from first f obtain xs m' where xs: "cs_log t = cs_log s @ xs" "monitor step m xs = Some m'"
    and rest: "\<forall>s y t. run_state (g x) s = (y, t) \<longrightarrow> (\<exists>evs k. cs_log t = cs_log s @ evs \<and> monitor step m' evs = Some k \<and> Q y k)"
    by blast
  from rest g obtain ys k where "cs_log u = cs_log t @ ys" "monitor step m' ys = Some k" "Q y k" by blast
  with xs show "\<exists>evs k. cs_log u = cs_log s @ evs \<and> monitor step m evs = Some k \<and> Q y k"
    by (intro exI [of _ "xs @ ys"] exI [of _ k]) (simp add: monitor_append)
qed

lemma obs_let [simp]: "obs step (let y = x in f y) Q m = obs step (f x) Q m"
  by simp

lemma obs_if: "(b \<Longrightarrow> obs step f Q m) \<Longrightarrow> (\<not> b \<Longrightarrow> obs step g Q m) \<Longrightarrow> obs step (if b then f else g) Q m"
  by simp

lemma obs_option:
  "(x = None \<Longrightarrow> obs step f Q m) \<Longrightarrow> (\<And>y. x = Some y \<Longrightarrow> obs step (g y) Q m) \<Longrightarrow>
   obs step (case x of None \<Rightarrow> f | Some y \<Rightarrow> g y) Q m"
  by (cases x) auto

lemma obs_sum:
  "(\<And>e. x = Inl e \<Longrightarrow> obs step (f e) Q m) \<Longrightarrow> (\<And>y. x = Inr y \<Longrightarrow> obs step (g y) Q m) \<Longrightarrow>
   obs step (case x of Inl e \<Rightarrow> f e | Inr y \<Rightarrow> g y) Q m"
  by (cases x) auto

lemma obs_prod: "(\<And>y z. x = (y, z) \<Longrightarrow> obs step (f y z) Q m) \<Longrightarrow> obs step (case x of (y, z) \<Rightarrow> f y z) Q m"
  by (cases x) auto

lemmas obs_rules = obs_bind obs_if obs_option obs_sum obs_prod obs_ask obs_call_ledger obs_deref obs_mark_settled obs_alloc

section \<open>Bookkeeping\<close>

text \<open>Budget calls and traces are not for the client: a monitor that ignores them does not move during settlement.\<close>

definition bookkeeping :: "event \<Rightarrow> bool" where
  "bookkeeping ev = (case ev of EvNoHardCap \<Rightarrow> True | EvClaim _ _ \<Rightarrow> True | EvFinalize _ _ _ _ \<Rightarrow> True | EvRelease _ _ \<Rightarrow> True
     | EvPostResponse _ \<Rightarrow> True | _ \<Rightarrow> False)"

locale budget_blind =
  fixes step :: "'m \<Rightarrow> event \<Rightarrow> 'm option"
  assumes blind: "bookkeeping ev \<Longrightarrow> step m ev = Some m"
begin

lemma blind_events [simp]:
  "step m EvNoHardCap = Some m" "step m (EvClaim q out) = Some m" "step m (EvFinalize own amount quality done) = Some m"
  "step m (EvRelease own done) = Some m" "step m (EvPostResponse outcome) = Some m"
  by (simp_all add: blind bookkeeping_def)

lemma obs_releaseBudget: "Q () m \<Longrightarrow> obs step (releaseBudget h r) Q m"
  unfolding releaseBudget_def releaseReservation_def
  by (cases "hqReservation r"; cases "chBudgetLedger h") (auto intro!: obs_rules)

lemma obs_settleBudgetOutcome: "Q () m \<Longrightarrow> obs step (settleBudgetOutcome h r inp) Q m"
  unfolding settleBudgetOutcome_def releaseReservation_def
  by (cases "hqReservation r"; cases "chBudgetLedger h") (auto intro!: obs_rules)

lemma obs_claimHoldTimed: "(\<And>x. Q x m) \<Longrightarrow> obs step (claimHoldTimed ledger p q) Q m"
  unfolding claimHoldTimed_def by (auto intro!: obs_rules)

lemma obs_rebudgetForFallback: "(\<And>x. Q x m) \<Longrightarrow> obs step (rebudgetForFallback h r inp) Q m"
  unfolding rebudgetForFallback_def new_hold_def
  by (cases "hqReservation r"; cases "chBudgetLedger h")
    (auto intro!: obs_rules obs_releaseBudget obs_claimHoldTimed)

end

section \<open>The response and the key\<close>

text \<open>
  The response is the status line and the bytes written after it. A key that the request owns is committed only with
  the response as sent, and settled once.
\<close>

datatype key_state = Unkeyed | Owner idem_claim | Settled

type_synonym reply = "(int \<times> string) option \<times> key_state"

fun reply_step :: "reply \<Rightarrow> event \<Rightarrow> reply option" where
  "reply_step (sent, key) (EvHeader status code) =
     (if sent = None \<and> key \<noteq> Settled then Some (Some (status, ''''), key) else None)"
| "reply_step (sent, key) (EvWrite p) =
     (case sent of
        None \<Rightarrow> None
      | Some (status, body) \<Rightarrow> if key \<noteq> Settled then Some (Some (status, body @ p), key) else None)"
| "reply_step (sent, key) (EvIdemOwned c) = (if sent = None \<and> key = Unkeyed then Some (None, Owner c) else None)"
| "reply_step (sent, key) (EvIdemCommit c status body) =
     (if key = Owner c \<and> sent = Some (status, body) \<and> ShouldCommit status then Some (sent, Settled) else None)"
| "reply_step (sent, key) (EvIdemRelease c) = (if key = Owner c then Some (sent, Settled) else None)"
| "reply_step reply _ = Some reply"

lemma reply_other [simp]:
  "reply_step reply (EvComplete prov req) = Some reply" "reply_step reply EvFlush = Some reply"
  by (cases reply, simp)+

interpretation rp: budget_blind reply_step
proof
  show "reply_step m ev = Some m" if "bookkeeping ev" for m ev
    using that by (cases m; cases ev) (simp_all add: bookkeeping_def)
qed

text \<open>The key is not left with a request that ends here.\<close>

definition disowned :: "key_state \<Rightarrow> bool" where
  "disowned key \<longleftrightarrow> (\<forall>c. key \<noteq> Owner c)"

definition keyed :: "'l chatCompletionHandler \<Rightarrow> idem_claim option \<Rightarrow> key_state \<Rightarrow> bool" where
  "keyed h pending key \<longleftrightarrow> (case pending of
     None \<Rightarrow> key = Unkeyed
   | Some c \<Rightarrow> key = Owner c \<and> (if chTerminationLedger h then icLedger c \<noteq> None else chIdempotencyStore h))"

definition uncancelled :: "'l chatCompletionHandler \<Rightarrow> bool" where
  "uncancelled h \<longleftrightarrow> (\<forall>n. svCtxErr (chServices h) n \<noteq> Some Canceled) \<and>
     (\<forall>n prov req err. svComplete (chServices h) n prov req = Inl err \<longrightarrow> \<not> is_err Canceled err) \<and>
     (\<forall>n prov req resp err. svComplete (chServices h) n prov req = Inr resp \<longrightarrow> rdErr (respBody resp) = Some err \<longrightarrow>
        \<not> is_err Canceled err)"

definition replied :: "'l chatCompletionHandler \<Rightarrow> reply \<Rightarrow> bool" where
  "replied h reply \<longleftrightarrow> (uncancelled h \<longrightarrow> fst reply \<noteq> None \<and> disowned (snd reply))"

lemma keyed_open: "keyed h pending key \<Longrightarrow> key \<noteq> Settled"
  by (auto simp: keyed_def split: option.splits)

lemma reply_WriteStatus:
  "key \<noteq> Settled \<Longrightarrow> (\<And>body. Q () (Some (status, body), key)) \<Longrightarrow> obs reply_step (WriteStatus h status code) Q (None, key)"
  unfolding WriteStatus_def by (auto intro!: obs_rules)

lemma reply_Finish:
  assumes "keyed h pending key" "\<And>key'. disowned key' \<Longrightarrow> Q () (Some (status, body), key')"
  shows "obs reply_step (Finish h pending status body) Q (Some (status, body), key)"
  using assms unfolding Finish_def finishLedger_def
  by (auto simp: keyed_def disowned_def split: option.splits if_splits)

lemma reply_Abandon:
  assumes "keyed h pending key" "\<And>key'. disowned key' \<Longrightarrow> Q () (sent, key')"
  shows "obs reply_step (Abandon h pending) Q (sent, key)"
  using assms unfolding Abandon_def by (auto simp: keyed_def disowned_def split: option.splits if_splits)

lemma reply_FinishCapture:
  assumes "keyed h pending key" "\<not> cwCapped cw \<Longrightarrow> sent = Some (cwStatus cw, cwBody cw)"
    and "\<And>key'. disowned key' \<Longrightarrow> Q () (sent, key')"
  shows "obs reply_step (FinishCapture h pending cw) Q (sent, key)"
proof (cases "cwCapped cw")
  case True
  with assms(1,3) show ?thesis
    unfolding FinishCapture_def by (auto simp: keyed_def disowned_def split: option.splits if_splits)
next
  case False
  with assms show ?thesis by (simp add: FinishCapture_def reply_Finish)
qed

text \<open>What \<open>Resolve\<close> leaves: a refusal that has been answered, a record to replay, or a request to serve.\<close>

definition resolved :: "'l chatCompletionHandler \<Rightarrow> ChatCompletionRequest \<Rightarrow> idem_claim option \<times> bool \<Rightarrow> reply \<Rightarrow> bool" where
  "resolved h parsed out reply = (case (out, reply) of ((pending, cont), sent, key) \<Rightarrow>
     if \<not> cont then sent \<noteq> None \<and> key = Unkeyed
     else sent = None \<and> (ccStream parsed \<longrightarrow> pending = None) \<and>
       (if pending \<noteq> None \<and> icHit (the pending) \<noteq> None then key = Unkeyed else keyed h pending key))"

lemma reply_claimLedger:
  "chTerminationLedger h \<Longrightarrow> \<not> ccStream parsed \<Longrightarrow> obs reply_step (claimLedger h r parsed key) (resolved h parsed) (None, Unkeyed)"
  unfolding claimLedger_def applyLedgerOutcome_def
  by (auto intro!: obs_rules reply_WriteStatus simp: resolved_def keyed_def disowned_def split: ledger_outcome.splits)

lemma reply_claim_store:
  "\<not> chTerminationLedger h \<Longrightarrow> chIdempotencyStore h \<Longrightarrow> \<not> ccStream parsed \<Longrightarrow>
   obs reply_step (claim_store h r parsed key) (resolved h parsed) (None, Unkeyed)"
  unfolding claim_store_def handleOutcome_def
  by (auto intro!: obs_rules reply_WriteStatus simp: resolved_def keyed_def disowned_def split: store_outcome.splits)

lemma reply_Resolve: "obs reply_step (Resolve h r parsed) (resolved h parsed) (None, Unkeyed)"
  unfolding Resolve_def resolveMissingKey_def
  by (auto intro!: obs_bind obs_option obs_if obs_sum reply_WriteStatus reply_claimLedger reply_claim_store
      simp: resolved_def keyed_def disowned_def)

subsection \<open>Preparation\<close>

text \<open>A function that may refuse either answers the client or leaves everything as it was.\<close>

definition gate :: "key_state \<Rightarrow> bool \<Rightarrow> reply \<Rightarrow> bool" where
  "gate key passed reply \<longleftrightarrow> snd reply = key \<and> (passed \<longleftrightarrow> fst reply = None)"

lemma gate_simps [simp]: "gate key passed (sent, key') \<longleftrightarrow> key' = key \<and> (passed \<longleftrightarrow> sent = None)"
  by (auto simp: gate_def)

lemma obs_injection: "(\<And>x. Q x m) \<Longrightarrow> obs step (applyContextOrDirectiveInjection h r model messages) Q m"
  unfolding applyContextOrDirectiveInjection_def injectAssembledOrDirective_def by (auto intro!: obs_rules)

lemma reply_credentials:
  "key \<noteq> Settled \<Longrightarrow> obs reply_step (applyCredentialOverride h r prov req) (\<lambda>x. gate key (x \<noteq> None)) (None, key)"
  unfolding applyCredentialOverride_def credentialResolveInputs_def pinned_override_def Let_def
  by (auto intro!: obs_rules reply_WriteStatus)

lemma reply_claimBudgetAdmission:
  "key \<noteq> Settled \<Longrightarrow> obs reply_step (claimBudgetAdmission h r inp) (\<lambda>x. gate key (snd x)) (None, key)"
  unfolding claimBudgetAdmission_def claimDurableHold_def applyBudgetClaim_def new_hold_def
  by (auto intro!: obs_rules reply_WriteStatus rp.obs_claimHoldTimed split: ClaimKind.splits)

subsection \<open>Responses\<close>

lemma HTTPStatus_nonzero: "HTTPStatus code \<noteq> 0"
proof (cases "map_of httpStatusByCode code")
  case (Some status)
  then have "status \<in> snd ` set httpStatusByCode" by (force dest: map_of_SomeD)
  also have "\<dots> \<subseteq> {status. status \<noteq> 0}" by (simp add: httpStatusByCode_def)
  finally show ?thesis using Some by (simp add: HTTPStatus_def)
qed (simp add: HTTPStatus_def)

lemma mapped_status: "(if aeHTTPStatus mapped = 0 then HTTPStatus (aeCode mapped) else aeHTTPStatus mapped) \<noteq> 0"
  by (simp add: HTTPStatus_nonzero)

lemma captured_reply:
  assumes "status \<noteq> 0" "\<not> cwCapped (captured body \<lparr>cwStatus = status, cwBody = '''', cwCapped = False\<rparr>)"
  defines "cw \<equiv> captured body \<lparr>cwStatus = status, cwBody = '''', cwCapped = False\<rparr>"
  shows "cwStatus cw = status" and "cwBody cw = body"
  using assms by (auto simp: captured_def Let_def split: if_splits)

lemma reply_capture:
  assumes status: "status \<noteq> 0" and key: "keyed h pending key"
    and post: "\<And>body key'. disowned key' \<Longrightarrow> obs reply_step (k ()) Q (Some (status, body), key')"
  shows "obs reply_step (State_Monad.bind (captureHeader status code \<lparr>cwStatus = 0, cwBody = '''', cwCapped = False\<rparr>) (\<lambda>cw.
    State_Monad.bind (ask env) (\<lambda>body. State_Monad.bind (captureWrite body cw) (\<lambda>cw.
    State_Monad.bind (flushIfSupported flusher) (\<lambda>_. State_Monad.bind (FinishCapture h pending cw) k))))) Q (None, key)"
proof -
  let ?cw = "\<lambda>body. captured body \<lparr>cwStatus = status, cwBody = '''', cwCapped = False\<rparr>"
  have "obs reply_step (State_Monad.bind (FinishCapture h pending (?cw body)) k) Q (Some (status, body), key)" for body
    by (intro obs_bind reply_FinishCapture key) (use captured_reply [OF status] post in auto)
  then have "obs reply_step (State_Monad.bind (flushIfSupported flusher) (\<lambda>_. State_Monad.bind (FinishCapture h pending (?cw body)) k)) Q
      (Some (status, body), key)" for body
    unfolding flushIfSupported_def by (auto intro!: obs_bind)
  then show ?thesis
    unfolding captureHeader_def captureWrite_def using keyed_open [OF key] by (auto intro!: obs_bind obs_ask)
qed

lemma reply_writeProviderFailure:
  assumes key: "keyed h pending key" and alive: "uncancelled h \<Longrightarrow> \<not> is_err Canceled err"
  shows "obs reply_step (writeProviderFailure h p pending prov err) (\<lambda>_. replied h) (None, key)"
proof (cases "MapError err")
  case None
  then have "replied h (None, key)" using alive by (auto simp: MapError_None replied_def)
  with None show ?thesis unfolding writeProviderFailure_def by (auto intro!: obs_bind rp.obs_releaseBudget)
next
  case (Some mapped)
  show ?thesis
    unfolding writeProviderFailure_def Let_def Some option.case
    by (rule obs_bind, rule rp.obs_releaseBudget, rule reply_capture [OF mapped_status key]) (simp add: replied_def)
qed

lemma reply_writeJSONSuccess:
  assumes "keyed h pending key"
  shows "obs reply_step (writeJSONSuccess h p pending prov resp audit out) (\<lambda>_. replied h) (None, key)"
  unfolding writeJSONSuccess_def Let_def flushIfSupported_def using keyed_open [OF assms]
  by (auto intro!: obs_bind reply_Finish [OF assms] rp.obs_settleBudgetOutcome simp: replied_def)

lemma obs_processResponseBody:
  "obs step (processResponseBody h prov body) (\<lambda>x m'. m' = m \<and> (\<forall>err. x = Inl err \<longrightarrow> err = providerErr502 prov)) m"
  unfolding processResponseBody_def by (auto intro!: obs_rules split: sum.splits)

text \<open>No cancellation is hidden in a body.\<close>

definition clean :: "'l chatCompletionHandler \<Rightarrow> provider_response \<Rightarrow> bool" where
  "clean h resp \<longleftrightarrow> (uncancelled h \<longrightarrow> (\<forall>err. rdErr (respBody resp) = Some err \<longrightarrow> \<not> is_err Canceled err))"

lemma reply_writeProviderSuccess:
  assumes key: "keyed h pending key" and body: "clean h resp"
  shows "obs reply_step (writeProviderSuccess h p pending prov resp audit) (\<lambda>_. replied h) (None, key)"
proof -
  have bad: "\<not> is_err Canceled (providerErr502 prov)" by (simp add: providerErr502_def is_err_def)
  have read: "\<not> is_err Canceled err" if "ReadAllBody (respBody resp) = Inl err" "uncancelled h" for err
  proof (cases "int (length (rdBytes (respBody resp))) > MaxProviderResponseBytes")
    case True
    with that(1) show ?thesis by (auto simp: ReadAllBody_def is_err_def)
  next
    case False
    with that(1) have "rdErr (respBody resp) = Some err" by (simp add: ReadAllBody_def split: option.splits)
    with that(2) body show ?thesis by (simp add: clean_def)
  qed
  show ?thesis
    unfolding writeProviderSuccess_def
  proof (rule obs_sum)
    show "obs reply_step (writeProviderFailure h p pending prov
        (if is_err ErrProviderResponseTooLarge err then providerErr502 prov else err)) (\<lambda>_. replied h) (None, key)"
      if "ReadAllBody (respBody resp) = Inl err" for err
      by (rule reply_writeProviderFailure [OF key]) (simp add: bad read [OF that])
    show "obs reply_step (State_Monad.bind (processResponseBody h prov content) (\<lambda>processed. case processed of
        Inl err \<Rightarrow> writeProviderFailure h p pending prov err | Inr out \<Rightarrow> writeJSONSuccess h p pending prov resp audit out))
      (\<lambda>_. replied h) (None, key)" for content
      by (rule obs_bind, rule obs_mono [OF obs_processResponseBody], elim conjE, hypsubst, rule obs_sum,
          rule reply_writeProviderFailure [OF key], simp add: bad, rule reply_writeJSONSuccess [OF key])
  qed
qed

lemma reply_copySSEEvents:
  assumes key: "key \<noteq> Settled"
  shows "obs reply_step (copySSEEvents h ls rest final) (\<lambda>_ reply. \<exists>b. reply = (Some (status, b), key)) (Some (status, body), key)"
proof -
  have line: "obs reply_step (writeLineIfPresent h line) (\<lambda>_ reply. \<exists>b. reply = (Some (status, b), key)) (Some (status, body), key)" for line body
    unfolding writeLineIfPresent_def using key by (auto intro!: obs_rules)
  show ?thesis
  proof (induction ls arbitrary: body)
    case Nil
    show ?case unfolding copySSEEvents.simps ctx_err_def
      by (auto intro!: obs_rules obs_mono [OF line])
  next
    case (Cons l ls)
    show ?case unfolding copySSEEvents.simps ctx_err_def
      by (auto intro!: obs_rules obs_mono [OF line] Cons.IH)
  qed
qed

lemma reply_forwardSSEStream:
  assumes "key = Unkeyed"
  shows "obs reply_step (forwardSSEStream h p prov resp audit) (\<lambda>_. replied h) (None, key)"
  unfolding forwardSSEStream_def writeSSEHeadersAndCopy_def streamCheckpointHook_def ctx_err_def using assms
  by (auto intro!: obs_rules obs_mono [OF reply_copySSEEvents] reply_WriteStatus rp.obs_settleBudgetOutcome
      simp: replied_def disowned_def)

lemma reply_finishProviderResponse:
  assumes "keyed h pending key" "clean h resp" "ccStream (fpParsed p) \<Longrightarrow> pending = None"
  shows "obs reply_step (finishProviderResponse h p pending prov resp audit) (\<lambda>_. replied h) (None, key)"
  using assms unfolding finishProviderResponse_def
  by (auto intro!: reply_forwardSSEStream reply_writeProviderSuccess simp: keyed_def)

subsection \<open>Fallback and handler\<close>

lemma obs_ctx_err: "obs step (ctx_err h) (\<lambda>x m'. m' = m \<and> (uncancelled h \<longrightarrow> x \<noteq> Some Canceled)) m"
  unfolding ctx_err_def by (rule obs_ask) (simp add: uncancelled_def)

definition sound :: "'l chatCompletionHandler \<Rightarrow> go_error + provider_response \<Rightarrow> bool" where
  "sound h out \<longleftrightarrow> (case out of Inl err \<Rightarrow> uncancelled h \<longrightarrow> \<not> is_err Canceled err | Inr resp \<Rightarrow> clean h resp)"

lemma sound_complete: "sound h (svComplete (chServices h) n prov req)"
  by (auto simp: sound_def uncancelled_def clean_def split: sum.splits)

lemma reply_provider_complete:
  "obs reply_step (provider_complete h prov req) (\<lambda>out m. m = reply \<and> sound h out) reply"
  unfolding provider_complete_def by (auto intro!: obs_bind obs_ask simp: sound_complete)

lemma reply_tryFallbackHop:
  "obs reply_step (tryFallbackHop h p primaryReq org reason hopModel)
     (\<lambda>x m. m = reply \<and> (\<forall>fb. fst x = hopOK fb \<longrightarrow> clean h (fsResp fb))) reply"
  unfolding tryFallbackHop_def Let_def
  apply (rule obs_bind, rule obs_ask, rule obs_sum)
   apply simp
  apply (rule obs_bind, rule rp.obs_rebudgetForFallback, rule obs_prod, rule obs_if)
   apply simp
  apply (rule obs_bind, rule obs_mono [OF reply_provider_complete], elim conjE, hypsubst, rule obs_sum)
   apply (rule obs_bind, rule rp.obs_releaseBudget, rule obs_bind, rule obs_mono [OF obs_ctx_err])
   apply (auto simp: classifyFallbackHopErr_def sound_def)
  done

lemma reply_walkFallbackChain:
  "obs reply_step (walkFallbackChain h p primaryReq org reason chain)
     (\<lambda>found m. m = reply \<and> (\<forall>fb. found = Some fb \<longrightarrow> clean h (fsResp fb))) reply"
proof (induction chain arbitrary: p)
  case Nil
  show ?case by simp
next
  case (Cons hopModel chain)
  show ?case
    unfolding walkFallbackChain.simps
    apply (rule obs_bind, rule obs_mono [OF obs_ctx_err], elim conjE, hypsubst, rule obs_if)
     apply simp
    apply (rule obs_bind, rule obs_mono [OF reply_tryFallbackHop], elim conjE, hypsubst, rule obs_prod)
    subgoal for dead m x m' outcome p'
      by (cases outcome) (simp_all add: Cons.IH)
    done
qed

lemma reply_tryFallbackComplete:
  "obs reply_step (tryFallbackComplete h p primaryReq reason)
     (\<lambda>found m. m = reply \<and> (\<forall>fb. found = Some fb \<longrightarrow> clean h (fsResp fb))) reply"
  unfolding tryFallbackComplete_def
  by (rule obs_if, simp, rule obs_option, simp, rule obs_bind, rule obs_ask, rule obs_sum, simp, rule reply_walkFallbackChain)

lemma reply_cancelled: "\<not> uncancelled h \<Longrightarrow> obs reply_step (releaseBudget h r) (\<lambda>_. replied h) reply"
  by (rule rp.obs_releaseBudget) (simp add: replied_def)

lemma reply_handlePrimaryCompleteError:
  assumes key: "keyed h pending key" "ccStream (fpParsed p) \<Longrightarrow> pending = None" and err: "uncancelled h \<Longrightarrow> \<not> is_err Canceled err"
  shows "obs reply_step (handlePrimaryCompleteError h p pending req err) (\<lambda>_. replied h) (None, key)"
  unfolding handlePrimaryCompleteError_def
  apply (rule obs_bind, rule obs_mono [OF obs_ctx_err], elim conjE, hypsubst, rule obs_if)
   apply (rule reply_cancelled, use err in blast)
  apply (rule obs_bind, rule obs_mono [OF obs_ctx_err], elim conjE, hypsubst, rule obs_if)
   apply (rule reply_writeProviderFailure [OF key(1) err], assumption)
  apply (rule obs_option)
   apply (rule reply_writeProviderFailure [OF key(1) err], assumption)
  apply (rule obs_bind, rule obs_mono [OF reply_tryFallbackComplete], elim conjE, hypsubst, rule obs_option)
   apply (rule obs_bind, rule obs_mono [OF obs_ctx_err], elim conjE, hypsubst, rule obs_if)
    apply (rule reply_cancelled, blast)
   apply (rule reply_writeProviderFailure [OF key(1) err], assumption)
  apply (rule reply_finishProviderResponse [OF key(1)], simp)
  apply (use key(2) in simp)
  done

lemma reply_completeAndRespond:
  assumes "keyed h pending key" "ccStream (fpParsed p) \<Longrightarrow> pending = None"
  shows "obs reply_step (completeAndRespond h p pending req) (\<lambda>_. replied h) (None, key)"
  unfolding completeAndRespond_def
  apply (rule obs_bind, rule obs_mono [OF reply_provider_complete], elim conjE, hypsubst, rule obs_sum)
   apply (rule reply_handlePrimaryCompleteError [OF assms], assumption, simp add: sound_def)
  apply (rule reply_finishProviderResponse [OF assms(1) _ assms(2)], simp_all add: sound_def)
  done

lemma reply_dispatch:
  assumes key: "keyed h pending key" "ccStream (fpParsed p) \<Longrightarrow> pending = None"
  shows "obs reply_step (dispatchProviderCompletion h p pending) (\<lambda>_. replied h) (None, key)"
proof -
  have stop: "obs reply_step (Abandon h pending) (\<lambda>_. replied h) (sent, key)" if "uncancelled h \<Longrightarrow> sent \<noteq> None" for sent
    by (rule reply_Abandon [OF key(1)]) (use that in \<open>auto simp: replied_def\<close>)
  have admit: "obs reply_step (State_Monad.bind (claimBudgetAdmission h (fpR p) inp) (\<lambda>(r, admitted).
      if \<not> admitted then Abandon h pending else completeAndRespond h (p\<lparr>fpR := r\<rparr>) pending req)) (\<lambda>_. replied h) (None, key)" for inp req
    by (rule obs_bind, rule obs_mono [OF reply_claimBudgetAdmission [OF keyed_open [OF key(1)]]])
      (auto simp: gate_def prod_eq_iff intro!: stop reply_completeAndRespond key split: prod.splits)
  show ?thesis
    unfolding dispatchProviderCompletion_def Let_def
    apply (rule obs_bind, rule obs_mono [OF obs_ctx_err], elim conjE, hypsubst, rule obs_if)
     apply (rule stop, simp)
    apply (rule obs_bind, rule obs_injection)
    apply (rule obs_bind, rule obs_mono [OF reply_credentials [OF keyed_open [OF key(1)]]])
    subgoal for dead m messages prepared m'
      by (cases m'; cases prepared) (auto simp: gate_def intro!: stop admit)
    done
qed

lemma reply_serve: "obs reply_step (serve h post r parsed prov flusher) (\<lambda>_. replied h) (None, Unkeyed)"
proof -
  have refuse: "obs reply_step (WriteStatus h status code) (\<lambda>_. replied h) (None, Unkeyed)" for status code
    by (rule reply_WriteStatus) (simp_all add: replied_def disowned_def)
  have forward: "obs reply_step (forwardChatCompletion h p) (\<lambda>_. replied h) (None, Unkeyed)" for p
    unfolding forwardChatCompletion_def
    by (rule obs_bind, rule obs_mono [OF reply_Resolve])
      (auto simp: resolved_def Replay_def replied_def disowned_def intro!: obs_bind reply_dispatch split: prod.splits option.splits if_splits)
  show ?thesis unfolding serve_def by (auto intro!: obs_option refuse forward)
qed

text \<open>C4. Whatever the ledgers, stores, providers and policies answer, a request sends at most one status line and writes no
  byte before it or after its key is settled; a response recorded under an idempotency key is the status and the bytes the client was sent and has a
  status that may be recorded; a key is settled at most once, by the request that owns it. Unless the request is
  cancelled, it is answered and leaves no key pending.\<close>

theorem chat_reply_faithful:
  assumes "cs_log s = []" and "run_state (serve h post r parsed prov flusher) s = (x, t)"
  shows "\<exists>reply. monitor reply_step (None, Unkeyed) (cs_log t) = Some reply \<and>
    (uncancelled h \<longrightarrow> fst reply \<noteq> None \<and> (\<forall>c. snd reply \<noteq> Owner c))"
  using obs_run [OF reply_serve assms(2,1)] by (simp add: replied_def disowned_def)

section \<open>Calls to providers\<close>

text \<open>The first request, once there was one, and the number of calls that may follow it.\<close>

fun call_step :: "string \<Rightarrow> provider_request option \<times> nat \<Rightarrow> event \<Rightarrow> (provider_request option \<times> nat) option" where
  "call_step name (first, n) (EvComplete prov req) = (case first of
     None \<Rightarrow> if prov = name then Some (Some req, n) else None
   | Some req0 \<Rightarrow>
       if n > 0 \<and> \<not> hasUpstreamOverride req0 \<and> prAPIKeyOverride req = '''' \<and> prBaseURLOverride req = '''' \<and>
          prMessages req = prMessages req0
       then Some (Some req0, n - 1) else None)"
| "call_step name m _ = Some m"

interpretation cl: budget_blind "call_step name" for name
proof
  show "call_step name m ev = Some m" if "bookkeeping ev" for m ev
    using that by (cases m; cases ev) (simp_all add: bookkeeping_def)
qed

lemma call_silent [simp]:
  "call_step name m (EvHeader status code) = Some m" "call_step name m (EvWrite p) = Some m" "call_step name m EvFlush = Some m"
  "call_step name m (EvIdemOwned c) = Some m" "call_step name m (EvIdemCommit c status p) = Some m"
  "call_step name m (EvIdemRelease c) = Some m"
  by (cases m; simp)+

lemma call_WriteStatus: "Q () m \<Longrightarrow> obs (call_step name) (WriteStatus h status code) Q m"
  unfolding WriteStatus_def by (auto intro!: obs_rules)

lemma call_settle_key:
  "Q () m \<Longrightarrow> obs (call_step name) (Finish h pending status body) Q m"
  "Q () m \<Longrightarrow> obs (call_step name) (Abandon h pending) Q m"
  unfolding Finish_def finishLedger_def Abandon_def by (auto split: option.splits)

lemma call_FinishCapture: "Q () m \<Longrightarrow> obs (call_step name) (FinishCapture h pending cw) Q m"
  unfolding FinishCapture_def by (auto intro!: call_settle_key split: option.splits)

lemma call_Resolve: "(\<And>x. Q x m) \<Longrightarrow> obs (call_step name) (Resolve h r parsed) Q m"
  unfolding Resolve_def resolveMissingKey_def claimLedger_def applyLedgerOutcome_def claim_store_def handleOutcome_def
  by (auto intro!: obs_rules call_WriteStatus split: ledger_outcome.splits store_outcome.splits)

lemma call_credentials: "(\<And>x. Q x m) \<Longrightarrow> obs (call_step name) (applyCredentialOverride h r prov req) Q m"
  unfolding applyCredentialOverride_def credentialResolveInputs_def pinned_override_def Let_def
  by (auto intro!: obs_rules call_WriteStatus)

lemma call_claimBudgetAdmission: "(\<And>x. Q x m) \<Longrightarrow> obs (call_step name) (claimBudgetAdmission h r inp) Q m"
  unfolding claimBudgetAdmission_def claimDurableHold_def applyBudgetClaim_def new_hold_def
  by (auto intro!: obs_rules call_WriteStatus cl.obs_claimHoldTimed split: ClaimKind.splits)

lemma call_writeProviderFailure: "Q () m \<Longrightarrow> obs (call_step name) (writeProviderFailure h p pending prov err) Q m"
  unfolding writeProviderFailure_def Let_def captureHeader_def captureWrite_def flushIfSupported_def
  by (auto intro!: obs_rules cl.obs_releaseBudget call_FinishCapture)

lemma call_copySSEEvents: "(\<And>x. Q x m) \<Longrightarrow> obs (call_step name) (copySSEEvents h ls rest final) Q m"
proof (induction ls)
  case Nil
  then show ?case unfolding copySSEEvents.simps writeLineIfPresent_def ctx_err_def by (auto intro!: obs_rules)
next
  case (Cons l ls)
  then show ?case unfolding copySSEEvents.simps writeLineIfPresent_def ctx_err_def by (auto intro!: obs_rules)
qed

lemma call_finishProviderResponse: "Q () m \<Longrightarrow> obs (call_step name) (finishProviderResponse h p pending prov resp audit) Q m"
  unfolding finishProviderResponse_def writeProviderSuccess_def writeJSONSuccess_def forwardSSEStream_def
    writeSSEHeadersAndCopy_def streamCheckpointHook_def flushIfSupported_def ctx_err_def processResponseBody_def Let_def
  by (auto intro!: obs_rules call_WriteStatus call_copySSEEvents cl.obs_settleBudgetOutcome call_settle_key call_writeProviderFailure)

subsection \<open>The chain\<close>

lemma call_tryFallbackHop:
  assumes "\<not> hasUpstreamOverride req" "0 < n"
  shows "obs (call_step name) (tryFallbackHop h p req org reason hopModel) (\<lambda>_ m. fst m = Some req \<and> n - 1 \<le> snd m) (Some req, n)"
  unfolding tryFallbackHop_def Let_def provider_complete_def fallbackHopRequest_def ctx_err_def using assms
  by (auto intro!: obs_rules cl.obs_rebudgetForFallback cl.obs_releaseBudget)

lemma call_walkFallbackChain:
  assumes "\<not> hasUpstreamOverride req"
  shows "length chain \<le> n \<Longrightarrow> obs (call_step name) (walkFallbackChain h p req org reason chain) (\<lambda>_ _. True) (Some req, n)"
proof (induction chain arbitrary: p n)
  case Nil
  show ?case by simp
next
  case (Cons hopModel chain)
  then have "0 < n" "length chain \<le> n - 1" by auto
  show ?case
    unfolding walkFallbackChain.simps ctx_err_def
    apply (rule obs_bind, rule obs_ask, rule obs_if)
     apply simp
    apply (rule obs_bind, rule obs_mono [OF call_tryFallbackHop [OF assms \<open>0 < n\<close>]], rule obs_prod)
    subgoal for tick x m outcome p'
      by (cases outcome; cases m) (use \<open>length chain \<le> n - 1\<close> in \<open>auto intro!: Cons.IH\<close>)
    done
qed

definition fallback_depth :: "'l chatCompletionHandler \<Rightarrow> nat" where
  "fallback_depth h = nat (max 1 (chMaxFallbackDepth h))"

lemma call_tryFallbackComplete:
  assumes "\<not> hasUpstreamOverride req"
  shows "obs (call_step name) (tryFallbackComplete h p req reason) (\<lambda>_ _. True) (Some req, fallback_depth h)"
proof -
  have "length (TruncateChain chain (chMaxFallbackDepth h)) \<le> fallback_depth h" for chain
    using TruncateChain_length [of chain "chMaxFallbackDepth h"] by (simp add: fallback_depth_def)
  then show ?thesis
    unfolding tryFallbackComplete_def
    by (auto intro!: obs_option obs_bind obs_ask obs_sum call_walkFallbackChain [OF assms])
qed

lemma call_handlePrimaryCompleteError:
  "obs (call_step name) (handlePrimaryCompleteError h p pending req err) (\<lambda>_ _. True) (Some req, fallback_depth h)"
proof -
  have "\<not> hasUpstreamOverride req" if "FallbackEligible err req = Some reason" for reason
    using that by (auto simp: FallbackEligible_def)
  then show ?thesis
    unfolding handlePrimaryCompleteError_def ctx_err_def
    by (auto intro!: obs_rules cl.obs_releaseBudget call_writeProviderFailure call_finishProviderResponse
        obs_mono [OF call_tryFallbackComplete])
qed

lemma call_serve: "obs (call_step name) (serve h post r parsed (Some name) flusher) (\<lambda>_ _. True) (None, fallback_depth h)"
proof -
  have complete: "obs (call_step name) (completeAndRespond h p pending req) (\<lambda>_ _. True) (None, fallback_depth h)"
    if "fpProv p = name" for p pending req
    unfolding completeAndRespond_def provider_complete_def using that
    by (auto intro!: obs_rules call_handlePrimaryCompleteError call_finishProviderResponse)
  have dispatch: "obs (call_step name) (dispatchProviderCompletion h p pending) (\<lambda>_ _. True) (None, fallback_depth h)"
    if "fpProv p = name" for p pending
    unfolding dispatchProviderCompletion_def Let_def ctx_err_def
    by (auto simp: that intro!: obs_rules call_settle_key obs_injection call_credentials call_claimBudgetAdmission complete)
  show ?thesis
    unfolding serve_def forwardChatCompletion_def Replay_def
    by (auto intro!: obs_if obs_option obs_bind obs_prod call_WriteStatus call_Resolve dispatch)
qed

fun calls_of :: "event list \<Rightarrow> (string \<times> provider_request) list" where
  "calls_of [] = []"
| "calls_of (EvComplete prov req # evs) = (prov, req) # calls_of evs"
| "calls_of (_ # evs) = calls_of evs"

text \<open>What the monitor accepts, read off the list of the calls.\<close>

lemma calls_after:
  "monitor (call_step name) (Some req, n) evs = Some m \<Longrightarrow> length (calls_of evs) \<le> n \<and>
    (\<forall>(prov, hop) \<in> set (calls_of evs). \<not> hasUpstreamOverride req \<and> prAPIKeyOverride hop = '''' \<and> prBaseURLOverride hop = '''' \<and>
      prMessages hop = prMessages req)"
proof (induction evs arbitrary: n)
  case Nil
  show ?case by simp
next
  case (Cons ev evs)
  then show ?case by (cases ev) (auto split: if_splits dest: Cons.IH)
qed

lemma calls_accepted:
  "monitor (call_step name) (None, n) evs = Some m \<Longrightarrow> calls_of evs = [] \<or>
    (\<exists>req rest. calls_of evs = (name, req) # rest \<and> length rest \<le> n \<and>
      (\<forall>(prov, hop) \<in> set rest. \<not> hasUpstreamOverride req \<and> prAPIKeyOverride hop = '''' \<and> prBaseURLOverride hop = '''' \<and>
        prMessages hop = prMessages req))"
proof (induction evs)
  case Nil
  show ?case by simp
next
  case (Cons ev evs)
  then show ?case by (cases ev) (auto split: if_splits dest: calls_after)
qed

text \<open>C40. A request calls the provider it was routed to first and at most once, and then at most as many fallbacks as the
  configured depth allows (one, if that is not positive), whatever the policy answers. Fallbacks get the messages of the
  first call and no credentials of the organisation, and none is called when the first call carried such credentials.\<close>

theorem chat_calls_bounded:
  assumes "cs_log s = []" and "run_state (serve h post r parsed (Some name) flusher) s = (x, t)"
  shows "calls_of (cs_log t) = [] \<or> (\<exists>req rest. calls_of (cs_log t) = (name, req) # rest \<and>
    int (length rest) \<le> max 1 (chMaxFallbackDepth h) \<and>
    (\<forall>(prov, hop) \<in> set rest. \<not> hasUpstreamOverride req \<and> prAPIKeyOverride hop = '''' \<and> prBaseURLOverride hop = '''' \<and>
      prMessages hop = prMessages req))"
proof -
  from obs_run [OF call_serve assms(2,1)]
  obtain m where "monitor (call_step name) (None, fallback_depth h) (cs_log t) = Some m" by blast
  from calls_accepted [OF this] show ?thesis
  proof (elim disjE exE conjE)
    fix req rest
    assume "calls_of (cs_log t) = (name, req) # rest" "length rest \<le> fallback_depth h"
      "\<forall>(prov, hop) \<in> set rest. \<not> hasUpstreamOverride req \<and> prAPIKeyOverride hop = '''' \<and> prBaseURLOverride hop = '''' \<and>
        prMessages hop = prMessages req"
    moreover from this(2) have "int (length rest) \<le> max 1 (chMaxFallbackDepth h)" by (simp add: fallback_depth_def nat_le_iff)
    ultimately show ?thesis by blast
  qed simp
qed

section \<open>A sample request\<close>

text \<open>The primary model answers 503 and the policy names a second one, which answers.\<close>

definition sample_card :: card where
  "sample_card = \<lparr>card_version = ''v1'', card_prices =
     [\<lparr>pr_provider = ''OpenAI'', pr_model_pattern = ''gpt-*'', pr_input = 10, pr_output = 20\<rparr>]\<rparr>"

definition sample_failure :: "int \<Rightarrow> go_error" where
  "sample_failure status = \<lparr>err_is = [], err_as = Some \<lparr>peProviderName = ''openai'', peStatusCode = status, peRetryAfter = 0, peReason = []\<rparr>\<rparr>"

definition sample_services :: services where
  "sample_services = \<lparr>svCtxErr = (\<lambda>_. None),
     svSnapshot = (\<lambda>_ _. Inr \<lparr>bsHasHardCap = True, bsPublishedCard = sample_card\<rparr>),
     svComplete = (\<lambda>_ _ req. if prModel req = ''gpt-4o'' then Inl (sample_failure 503)
       else Inr \<lparr>respBody = \<lparr>rdBytes = ''{}'', rdErr = None\<rparr>, respStatusCode = 200,
              respUsage = Some \<lparr>puInputTokens = 100, puOutputTokens = 300\<rparr>\<rparr>),
     svFallbackChain = (\<lambda>_ _ _. Inr [''gpt-mini'']),
     svForOrg = (\<lambda>_ _ _. Inr ''openai''),
     svAssemble = (\<lambda>_ _ _ _. \<lparr>arAssembledContext = [], arFallback = True\<rparr>),
     svResolveKey = (\<lambda>_ _ _ _. Inl (sample_failure 500)), svPinURL = (\<lambda>_ _. Inl (sample_failure 500)),
     svDecode = (\<lambda>_. True), svPipeline = (\<lambda>_ body. Inr body), svUsageFromJSON = (\<lambda>_. None),
     svClientWrite = (\<lambda>_ _. True), svAccumulated = (\<lambda>_ _. (True, None)), svEnvelope = (\<lambda>_ _ code. code),
     svHashRequest = (\<lambda>_. replicate 64 (CHR ''a'')), svFingerprint = (\<lambda>_ _ _. Some ''fp''),
     svIdemClaim = (\<lambda>_ _ _ _ _. Inr LConflict), svStoreClaim = (\<lambda>_ _ _ _. Inr KindMiss)\<rparr>"

definition sample_handler :: "'l Ledger \<Rightarrow> 'l chatCompletionHandler" where
  "sample_handler ledger = \<lparr>chBudgetLedger = Some ledger, chBudgetCache = True, chResponsePipeline = False,
     chIdempotencyStore = True, chTerminationLedger = False, chContextClient = False, chContextEnabled = False,
     chCredentialResolver = False, chModelRouter = True, chPolicyFallback = True, chMaxFallbackDepth = 2,
     chServices = sample_services\<rparr>"

definition sample_http :: http_request where
  "sample_http = \<lparr>hqAuthOrg = Some 1, hqAuthAgent = 2, hqAgent = Some 2, hqRequestID = ''r1'', hqDirective = None,
     hqPrincipal = False, hqTraced = False, hqAuthorization = [], hqIdempotencyKey = ''k1'', hqSkipMemory = [],
     hqReservation = None\<rparr>"

definition sample_body :: ChatCompletionRequest where
  "sample_body = \<lparr>ccModel = ''gpt-4o'', ccMessages = [\<lparr>msgRole = ''user'', msgContent = ''hi''\<rparr>], ccStream = False,
     ccMaxTokens = Some 1000\<rparr>"

definition sample_start :: "'l \<Rightarrow> 'l chat_state" where
  "sample_start l = \<lparr>cs_tick = 0, cs_ledger = l, cs_heap = [], cs_log = []\<rparr>"

end
