(* ===== verification/Shared_Budget.thy ===== *)
theory Shared_Budget
  imports Proxy_Ledger Budget_Guarantees
begin

text \<open>
  The budget table with both of its clients: what one call of the proxy's ledger does, in exact arithmetic, and
  runs in which the proxy and the worker claim, settle and sweep in any order.
\<close>

section \<open>What a proxy claim decides\<close>

definition bp_check :: "budget_period \<Rightarrow> bool" where
  "bp_check p \<longleftrightarrow> int_column 64 (bp_cap p) \<and> int_column 64 (bp_spent p)"

text \<open>
  A claim is legal where its sums stay below 64 bits and no row has the nil UUID, which the proxy
  passes to exclude no row.
\<close>

definition claim_legal :: "proxy_env \<Rightarrow> ClaimRequest \<Rightarrow> budget_db \<Rightarrow> bool" where
  "claim_legal e req db \<longleftrightarrow> 0 \<notin> br_id ` set (bd_rows db) \<and>
     (\<forall>p \<in> set (bd_periods db). bp_check p \<and>
        bp_spent p + active_holds (pe_now e) (bp_org p) (bp_id p) None (bd_rows db) + qEstimatedCents req \<le> MaxInt64)"

definition active_period :: "usec \<Rightarrow> uuid \<Rightarrow> budget_db \<Rightarrow> budget_period option" where
  "active_period now org db = sql_max bp_start (filter
     (\<lambda>p. bp_org p = org \<and> bp_start p \<le> now \<and> now < bp_end p \<and> bp_mode p = Hard_cap) (bd_periods db))"

text \<open>The cents of a period held at an instant by claimed rows with a running lease, one row apart.\<close>

definition holds_but :: "usec \<Rightarrow> budget_period \<Rightarrow> uuid option \<Rightarrow> budget_db \<Rightarrow> int" where
  "holds_but now period x db = sum_list (map br_estimated (filter (\<lambda>r.
     br_org r = bp_org period \<and> br_period r = bp_id period \<and> br_state r = BClaimed \<and>
     (case br_lease r of Some l \<Rightarrow> now < l | None \<Rightarrow> False) \<and> x \<noteq> Some (br_id r)) (bd_rows db)))"

definition owned_as :: "Principal \<Rightarrow> ClaimRequest \<Rightarrow> budget_period \<Rightarrow> uuid \<Rightarrow> int \<Rightarrow> ClaimOutcome" where
  "owned_as p req period i v =
     \<lparr>oKind = ClaimOwned,
      oReservation = Some \<lparr>rID = i, rPrincipal = p, rKey = qKey req, rRequestHash = qRequestHash req,
        rPeriodID = bp_id period, rVersion = v\<rparr>,
      oRetryAfter = 0, oRemainingCents = 0\<rparr>"

definition exceeded_by :: "budget_period \<Rightarrow> int \<Rightarrow> ClaimOutcome" where
  "exceeded_by period holds = \<lparr>oKind = ClaimExceeded, oReservation = None, oRetryAfter = 0,
     oRemainingCents = max 0 (bp_cap period - bp_spent period - holds)\<rparr>"

text \<open>
  The decision for a key without a row, and for the row of the key. Every row written is given
  field by field, and the lease, in microseconds, is compared with the proxy's clock, in
  nanoseconds.
\<close>

definition fresh_spec ::
  "usec \<Rightarrow> proxy_env \<Rightarrow> Principal \<Rightarrow> ClaimRequest \<Rightarrow> budget_period \<Rightarrow> budget_db \<Rightarrow> ClaimOutcome \<times> budget_db" where
  "fresh_spec lease e p req period db =
     (let now = pe_now e; holds = holds_but now period None db in
      if bp_spent period + holds + qEstimatedCents req \<le> bp_cap period
      then (owned_as p req period (be_uuid (pe_db e)) 1, db\<lparr>bd_rows := bd_rows db @
        [\<lparr>br_id = be_uuid (pe_db e), br_org = pOrgID p, br_agent = pAgentID p, br_period = bp_id period,
          br_key = qKey req, br_hash = qRequestHash req, br_state = BClaimed, br_estimated = qEstimatedCents req,
          br_price_in = None, br_price_out = None, br_final = None, br_completeness = None,
          br_lease = Some (now + lease), br_version = 1, br_created = now\<rparr>]\<rparr>)
      else (exceeded_by period holds, db))"

definition existing_spec ::
  "usec \<Rightarrow> proxy_env \<Rightarrow> Principal \<Rightarrow> ClaimRequest \<Rightarrow> budget_period \<Rightarrow> reservation \<Rightarrow> budget_db \<Rightarrow> ClaimOutcome \<times> budget_db" where
  "existing_spec lease e p req period row db =
     (let now = pe_now e; holds = holds_but now period (Some (br_id row)) db;
          busy_until = (if br_state row = BClaimed then br_lease row else None);
          rewrite = (\<lambda>row'. db\<lparr>bd_rows := map (\<lambda>r. if br_id r = br_id row then row' else r) (bd_rows db)\<rparr>) in
      if br_hash row \<noteq> qRequestHash req
      then (\<lparr>oKind = ClaimConflict, oReservation = None, oRetryAfter = 0, oRemainingCents = 0\<rparr>, db)
      else if (case busy_until of Some l \<Rightarrow> pe_wall e < 1000 * l | None \<Rightarrow> False)
      then (\<lparr>oKind = ClaimInProgress, oReservation = None,
             oRetryAfter = 1000 * the busy_until - pe_wall_retry e, oRemainingCents = 0\<rparr>, db)
      else if bp_spent period + holds + qEstimatedCents req \<le> bp_cap period
      then (owned_as p req period (br_id row) (br_version row + 1),
        rewrite \<lparr>br_id = br_id row, br_org = br_org row, br_agent = br_agent row, br_period = bp_id period,
          br_key = br_key row, br_hash = br_hash row, br_state = BClaimed, br_estimated = qEstimatedCents req,
          br_price_in = br_price_in row, br_price_out = br_price_out row, br_final = None, br_completeness = None,
          br_lease = Some (now + lease), br_version = br_version row + 1, br_created = br_created row\<rparr>)
      else (exceeded_by period holds,
        if br_state row \<noteq> BClaimed then db
        else rewrite \<lparr>br_id = br_id row, br_org = br_org row, br_agent = br_agent row, br_period = br_period row,
          br_key = br_key row, br_hash = br_hash row, br_state = BExpired, br_estimated = br_estimated row,
          br_price_in = br_price_in row, br_price_out = br_price_out row, br_final = br_final row,
          br_completeness = br_completeness row, br_lease = None, br_version = br_version row + 1,
          br_created = br_created row\<rparr>))"

definition claim_spec ::
  "usec \<Rightarrow> proxy_env \<Rightarrow> Principal \<Rightarrow> ClaimRequest \<Rightarrow> budget_db \<Rightarrow> ClaimOutcome \<times> budget_db" where
  "claim_spec lease e p req db = (case active_period (pe_now e) (pOrgID p) db of
     None \<Rightarrow> (\<lparr>oKind = ClaimNoCap, oReservation = None, oRetryAfter = 0, oRemainingCents = 0\<rparr>, db)
   | Some period \<Rightarrow>
       (case filter (\<lambda>r. br_org r = pOrgID p \<and> br_agent r = pAgentID p \<and> br_key r = qKey req) (bd_rows db) of
         [] \<Rightarrow> fresh_spec lease e p req period db
       | row # _ \<Rightarrow> existing_spec lease e p req period row db))"

text \<open>The specification over the statements of the code.\<close>

lemma holds_but_code: "holds_but now period x db = active_holds now (bp_org period) (bp_id period) x (bd_rows db)"
  unfolding holds_but_def active_holds_def held_def lease_active_def
  by (intro arg_cong [of _ _ "\<lambda>rows. sum_list (map br_estimated rows)"] filter_cong refl)
    (auto split: option.splits)

lemma owned_as_code: "owned_as p req period i v = (outcome_of ClaimOwned)\<lparr>oReservation := Some
     \<lparr>rID = i, rPrincipal = p, rKey = qKey req, rRequestHash = qRequestHash req, rPeriodID = bp_id period,
      rVersion = v\<rparr>\<rparr>"
  by (simp add: owned_as_def outcome_of_def)

lemma exceeded_by_code:
  "exceeded_by period holds = (outcome_of ClaimExceeded)\<lparr>oRemainingCents := max 0 (bp_cap period - bp_spent period - holds)\<rparr>"
  by (simp add: exceeded_by_def outcome_of_def)

lemma fresh_spec_code: "fresh_spec lease e p req period db =
     (let holds = holds_but (pe_now e) period None db; row = proxy_row e p req period lease in
      if bp_spent period + holds + qEstimatedCents req \<le> bp_cap period
      then (owned_as p req period (be_uuid (pe_db e)) 1, db\<lparr>bd_rows := bd_rows db @ [row]\<rparr>)
      else (exceeded_by period holds, db))"
  by (simp add: fresh_spec_def proxy_row_def Let_def)

lemma rewrite_row:
  assumes "budget_inv db" and "row \<in> set (bd_rows db)" and "f row = row'"
  shows "map (\<lambda>r. if br_id r = br_id row then row' else r) (bd_rows db) = sql_update (\<lambda>r. br_id r = br_id row) f (bd_rows db)"
  unfolding sql_update_def using assms(3) same_reservation [OF assms(1) _ assms(2)] by (intro map_cong refl) auto

lemma reset_row: "proxy_reset_fields e req period lease row =
    \<lparr>br_id = br_id row, br_org = br_org row, br_agent = br_agent row, br_period = bp_id period,
     br_key = br_key row, br_hash = br_hash row, br_state = BClaimed, br_estimated = qEstimatedCents req,
     br_price_in = br_price_in row, br_price_out = br_price_out row, br_final = None, br_completeness = None,
     br_lease = Some (pe_now e + lease), br_version = br_version row + 1, br_created = br_created row\<rparr>"
  by (cases row) (simp add: proxy_reset_fields_def)

lemma expire_row: "expire_fields row =
    \<lparr>br_id = br_id row, br_org = br_org row, br_agent = br_agent row, br_period = br_period row,
     br_key = br_key row, br_hash = br_hash row, br_state = BExpired, br_estimated = br_estimated row,
     br_price_in = br_price_in row, br_price_out = br_price_out row, br_final = br_final row,
     br_completeness = br_completeness row, br_lease = None, br_version = br_version row + 1,
     br_created = br_created row\<rparr>"
  by (cases row) (simp add: expire_fields_def)

lemma existing_spec_code:
  assumes "budget_inv db" and "row \<in> set (bd_rows db)"
  shows "existing_spec lease e p req period row db =
     (let holds = holds_but (pe_now e) period (Some (br_id row)) db;
          rewrite = (\<lambda>f. db\<lparr>bd_rows := sql_update (\<lambda>r. br_id r = br_id row) f (bd_rows db)\<rparr>) in
      if br_hash row \<noteq> qRequestHash req then (outcome_of ClaimConflict, db)
      else if liveClaimLease e row
      then ((outcome_of ClaimInProgress)\<lparr>oRetryAfter := the (br_lease row) * 1000 - pe_wall_retry e\<rparr>, db)
      else if bp_spent period + holds + qEstimatedCents req \<le> bp_cap period
      then (owned_as p req period (br_id row) (br_version row + 1), rewrite (proxy_reset_fields e req period lease))
      else (exceeded_by period holds, if br_state row = BClaimed then rewrite expire_fields else db))"
proof -
  note rw = rewrite_row [OF assms]
  have live: "(case (if br_state row = BClaimed then br_lease row else None) of Some l \<Rightarrow> pe_wall e < 1000 * l | None \<Rightarrow> False)
      \<longleftrightarrow> liveClaimLease e row"
    by (auto simp: liveClaimLease_def mult.commute split: option.splits)
  have "br_state row = BClaimed" if "liveClaimLease e row" using that by (simp add: liveClaimLease_def)
  then show ?thesis
    unfolding existing_spec_def Let_def live
      rw [of "proxy_reset_fields e req period lease", OF reset_row] rw [of expire_fields, OF expire_row]
    by (simp add: outcome_of_def mult.commute)
qed

lemma claim_spec_code: "claim_spec lease e p req db = (case active_period (pe_now e) (pOrgID p) db of
     None \<Rightarrow> (outcome_of ClaimNoCap, db)
   | Some period \<Rightarrow> (case sql_first (reservation_has_key (pOrgID p) (pAgentID p) (qKey req)) (bd_rows db) of
       None \<Rightarrow> fresh_spec lease e p req period db
     | Some row \<Rightarrow> existing_spec lease e p req period row db))"
proof -
  have "sql_first q rows = (case filter q rows of [] \<Rightarrow> None | r # _ \<Rightarrow> Some r)" for q and rows :: "reservation list"
    unfolding sql_first_def by (induction rows) simp_all
  then show ?thesis
    unfolding claim_spec_def reservation_has_key_def [abs_def]
    by (simp add: outcome_of_def split: option.splits list.splits)
qed

lemma withOrgTx_Inr: "withOrgTx e m db = (Inr a, db') \<longleftrightarrow> \<not> be_fault (pe_db e) \<and> m db = (Inr a, db')"
  by (simp add: withOrgTx_def session_Inr tx_raise_def)

lemma sql_error_Inr: "sql_error label m db = (Inr a, db') \<longleftrightarrow> m db = (Inr a, db')"
  by (simp add: sql_error_def map_error_Inr)

lemmas proxy_inv = tx_inv withOrgTx_Inr sql_error_Inr checked_update_Inr

lemma active_period_Some:
  "active_period now org db = Some p \<Longrightarrow> p \<in> set (bd_periods db) \<and> bp_org p = org"
  unfolding active_period_def by (drule sql_max_Some) simp

lemma capExceeded_exact:
  assumes "bp_check p" and "0 \<le> holds" and "0 \<le> qEstimatedCents req" and "bp_spent p + holds + qEstimatedCents req \<le> MaxInt64"
  shows "capExceeded p holds req \<longleftrightarrow> \<not> bp_spent p + holds + qEstimatedCents req \<le> bp_cap p"
  using assms by (simp add: capExceeded_def bp_check_def int_column_def wrap64_id int64_def not_le)

lemma exceededOutcome_exact:
  assumes "bp_check p" and "0 \<le> holds" and "bp_spent p + holds \<le> MaxInt64"
  shows "exceededOutcome p holds = exceeded_by p holds"
proof -
  have cap: "0 \<le> bp_cap p" "bp_cap p < 2 ^ 63" "0 \<le> bp_spent p" "bp_spent p < 2 ^ 63"
    using assms(1) by (simp_all add: bp_check_def int_column_def)
  then have "wrap64 (bp_cap p - bp_spent p) = bp_cap p - bp_spent p"
    by (intro wrap64_id) (simp add: int64_def MaxInt64_def)
  moreover have "wrap64 (bp_cap p - bp_spent p - holds) = bp_cap p - bp_spent p - holds"
    using cap assms(2,3) by (intro wrap64_id) (simp add: int64_def MaxInt64_def)
  ultimately show ?thesis by (auto simp: exceededOutcome_def exceeded_by_code Let_def)
qed

text \<open>The holds a legal claim reads are exact, non-negative and fit with the spend.\<close>

lemma legal_holds:
  assumes inv: "budget_inv db" and legal: "claim_legal e req db" and p: "period \<in> set (bd_periods db)"
    and est: "0 \<le> qEstimatedCents req"
  shows "0 \<le> holds_but (pe_now e) period x db"
    and "bp_spent period + holds_but (pe_now e) period x db + qEstimatedCents req \<le> MaxInt64"
    and "bp_check period" and "int64 (holds_but (pe_now e) period x db)"
    and "holds_but (pe_now e) period (Some 0) db = holds_but (pe_now e) period None db"
    and "capExceeded period (holds_but (pe_now e) period x db) req \<longleftrightarrow>
      \<not> bp_spent period + holds_but (pe_now e) period x db + qEstimatedCents req \<le> bp_cap period"
    and "exceededOutcome period (holds_but (pe_now e) period x db) = exceeded_by period (holds_but (pe_now e) period x db)"
proof -
  have le: "holds_but (pe_now e) period x db \<le> holds_but (pe_now e) period None db"
    unfolding holds_but_code by (rule active_holds_exclude [OF inv])
  show nonneg: "0 \<le> holds_but (pe_now e) period x db"
    unfolding holds_but_code active_holds_sum
    by (rule sum_list_nonneg) (auto simp: hold_def dest: budget_invD(3) [OF inv] br_check_estimated)
  show check: "bp_check period" using legal p by (simp add: claim_legal_def)
  show sum: "bp_spent period + holds_but (pe_now e) period x db + qEstimatedCents req \<le> MaxInt64"
    using legal p le by (fastforce simp: claim_legal_def holds_but_code)
  show "int64 (holds_but (pe_now e) period x db)"
    using check nonneg sum est by (simp add: bp_check_def int_column_def int64_def)
  show "capExceeded period (holds_but (pe_now e) period x db) req \<longleftrightarrow>
      \<not> bp_spent period + holds_but (pe_now e) period x db + qEstimatedCents req \<le> bp_cap period"
    by (rule capExceeded_exact [OF check nonneg est sum])
  show "exceededOutcome period (holds_but (pe_now e) period x db) = exceeded_by period (holds_but (pe_now e) period x db)"
    using sum est by (intro exceededOutcome_exact [OF check nonneg]) simp
  have "Some (br_id r) \<noteq> Some 0" if "r \<in> set (bd_rows db)" for r
    using that legal by (auto simp: claim_legal_def)
  then show "holds_but (pe_now e) period (Some 0) db = holds_but (pe_now e) period None db"
    unfolding holds_but_code active_holds_def by (simp cong: filter_cong)
qed

lemma activeHoldCents_Inr:
  assumes "activeHoldCents e p (bp_id period) i db = (Inr holds, db')" and "bp_org period = pOrgID p"
  shows "db' = db" and "holds = holds_but (pe_now e) period (Some i) db"
  using assms by (auto simp: activeHoldCents_def proxy_inv holds_but_code split: if_splits)

lemma claimFresh_spec:
  assumes inv: "budget_inv db" and legal: "claim_legal e req db" and est: "0 \<le> qEstimatedCents req"
    and p: "period \<in> set (bd_periods db)" "bp_org period = pOrgID p"
    and new: "sql_first (reservation_has_key (pOrgID p) (pAgentID p) (qKey req)) (bd_rows db) = None"
    and run: "claimFresh e p req period lease db = (Inr out, db')"
  shows "(out, db') = fresh_spec lease e p req period db"
    and "oKind out = ClaimOwned \<Longrightarrow> adds (pe_now e) period (proxy_row e p req period lease) db db'"
proof -
  let ?h = "holds_but (pe_now e) period None db" and ?row = "proxy_row e p req period lease"
  note h = legal_holds [OF inv legal p(1) est]
  from run obtain holds db1 where a: "activeHoldCents e p (bp_id period) 0 db = (Inr holds, db1)"
    and b: "(if capExceeded period holds req then tx_return (exceededOutcome period holds)
      else tx_bind (sql_error ''budgetledger: insert reservation'' (insert_reservation (pe_db e) ?row)) (\<lambda>inserted.
        case inserted of None \<Rightarrow> tx_return ((outcome_of ClaimInProgress)\<lparr>oRetryAfter := 1000000000\<rparr>)
        | Some row \<Rightarrow> tx_return (ownedOutcome p req (bp_id period) row))) db1 = (Inr out, db')"
    unfolding claimFresh_def tx_bind_Inr by blast
  from activeHoldCents_Inr [OF a p(2)] h(5) have eq: "db1 = db" "holds = ?h" by simp_all
  note ex = h(6) [of None]
  have none: "\<forall>r \<in> set (bd_rows db). \<not> reservation_has_key (br_org ?row) (br_agent ?row) (br_key ?row) r"
    using new by (simp add: sql_first_None proxy_row_def)
  have fits: "out = owned_as p req period (br_id ?row) 1 \<and> insert_reservation (pe_db e) ?row db = (Inr (Some ?row), db')"
    if "bp_spent period + ?h + qEstimatedCents req \<le> bp_cap period"
  proof -
    from b that ex eq obtain ins where "insert_reservation (pe_db e) ?row db = (Inr ins, db')"
      and out: "out = (case ins of None \<Rightarrow> (outcome_of ClaimInProgress)\<lparr>oRetryAfter := 1000000000\<rparr>
        | Some row \<Rightarrow> ownedOutcome p req (bp_id period) row)"
      by (auto simp: proxy_inv split: option.splits)
    moreover from this none have "ins \<noteq> None" by (auto simp: insert_reservation_def split: if_splits)
    ultimately show ?thesis using insert_reservation_Some(1) [of "pe_db e" ?row db _ db']
      by (auto simp: ownedOutcome_def owned_as_code proxy_row_def)
  qed
  have over: "out = exceeded_by period ?h \<and> db' = db" if "\<not> bp_spent period + ?h + qEstimatedCents req \<le> bp_cap period"
    using b that ex eq by (simp add: tx_return_eq h(7))
  show "(out, db') = fresh_spec lease e p req period db"
    using fits over insert_reservation_Some(3) [of "pe_db e" ?row db ?row db']
    by (auto simp: fresh_spec_code Let_def proxy_row_def)
  show "adds (pe_now e) period ?row db db'" if "oKind out = ClaimOwned"
  proof (cases "bp_spent period + ?h + qEstimatedCents req \<le> bp_cap period")
    case True
    with fits insert_reservation_Some [of "pe_db e" ?row db ?row db'] p show ?thesis
      by (auto simp: adds_def room_def proxy_row_def holds_but_code)
  next
    case False
    with over that show ?thesis by (simp add: exceeded_by_code outcome_of_def)
  qed
qed

lemma sql_update_cong: "(\<And>r. r \<in> set rows \<Longrightarrow> p r \<longleftrightarrow> q r) \<Longrightarrow> sql_update p f rows = sql_update q f rows"
  by (simp add: sql_update_def)

lemma row_at_id:
  assumes "budget_inv db" and "row \<in> set (bd_rows db)" and "reservation_has_key (pOrgID p) (pAgentID p) key row"
    and "r \<in> set (bd_rows db)"
  shows "row_at p key row r \<longleftrightarrow> br_id r = br_id row"
  using same_reservation [OF assms(1,4,2)] assms(3) by (auto simp: row_at_def)

lemma expireStaleClaim_Inr:
  assumes inv: "budget_inv db" and row: "row \<in> set (bd_rows db)" "reservation_has_key (pOrgID p) (pAgentID p) key row"
    and run: "expireStaleClaim p key row db = (Inr u, db')"
  shows "db' = (if br_state row = BClaimed then db\<lparr>bd_rows := sql_update (\<lambda>r. br_id r = br_id row) expire_fields (bd_rows db)\<rparr> else db)"
    and "effect now db db'"
proof -
  have at: "row_at p key row r \<and> br_state r = BClaimed \<longleftrightarrow> br_id r = br_id row"
    if "br_state row = BClaimed" "r \<in> set (bd_rows db)" for r
    using that row_at_id [OF inv row that(2)] same_reservation [OF inv that(2) row(1)] by auto
  have upd: "db' = db\<lparr>bd_rows := sql_update (\<lambda>r. br_id r = br_id row) expire_fields (bd_rows db)\<rparr> \<and> br_check (expire_fields row)"
    if c: "br_state row = BClaimed"
  proof -
    from run c have "db' = db\<lparr>bd_rows := sql_update (\<lambda>r. row_at p key row r \<and> br_state r = BClaimed) expire_fields (bd_rows db)\<rparr>"
      and ok: "\<forall>r \<in> set (bd_rows db). row_at p key row r \<and> br_state r = BClaimed \<longrightarrow> br_check (expire_fields r)"
      by (auto simp: expireStaleClaim_def proxy_inv)
    moreover have "sql_update (\<lambda>r. row_at p key row r \<and> br_state r = BClaimed) expire_fields (bd_rows db)
        = sql_update (\<lambda>r. br_id r = br_id row) expire_fields (bd_rows db)"
      by (rule sql_update_cong) (rule at [OF c])
    ultimately show ?thesis using ok at [OF c row(1)] row(1) by auto
  qed
  have same: "db' = db" if "br_state row \<noteq> BClaimed" using run that by (simp add: expireStaleClaim_def proxy_inv)
  show "db' = (if br_state row = BClaimed then db\<lparr>bd_rows := sql_update (\<lambda>r. br_id r = br_id row) expire_fields (bd_rows db)\<rparr> else db)"
    using upd same by simp
  show "effect now db db'"
  proof (cases "br_state row = BClaimed")
    case True
    have "br_state r = BClaimed \<and> br_state (expire_fields r) \<noteq> BClaimed \<and> br_id (expire_fields r) = br_id r \<and>
        reservation_key (expire_fields r) = reservation_key r \<and> br_check (expire_fields r) \<and>
        br_hash (expire_fields r) = br_hash r \<and> br_version (expire_fields r) = br_version r + 1"
      if "r \<in> set (bd_rows db)" "br_id r = br_id row" for r
      using same_reservation [OF inv that(1) row(1) that(2)] upd [OF True] True
      by (simp add: expire_fields_def reservation_key_def)
    then have "closes (\<lambda>r. br_id r = br_id row) expire_fields db db'"
      using upd [OF True] unfolding closes_def by blast
    then show ?thesis by (rule closed)
  next
    case False
    with same show ?thesis by (simp add: effect.same)
  qed
qed

lemma resetHeldRow_written:
  assumes inv: "budget_inv db" and row: "row \<in> set (bd_rows db)" "reservation_has_key (pOrgID p) (pAgentID p) (qKey req) row"
    and run: "resetHeldRow e p req period lease row db = (Inr out, db')"
  shows "out = owned_as p req period (br_id row) (br_version row + 1)"
    and "db' = db\<lparr>bd_rows := sql_update (\<lambda>r. br_id r = br_id row) (proxy_reset_fields e req period lease) (bd_rows db)\<rparr>"
    and "br_check (proxy_reset_fields e req period lease row)"
proof -
  let ?f = "proxy_reset_fields e req period lease"
  note at = row_at_id [OF inv row]
  from run obtain r rest where hit: "r # rest = map ?f (filter (row_at p (qKey req) row) (bd_rows db))"
    and db': "db' = db\<lparr>bd_rows := sql_update (row_at p (qKey req) row) ?f (bd_rows db)\<rparr>"
    and ok: "\<forall>r \<in> set (bd_rows db). row_at p (qKey req) row r \<longrightarrow> br_check (?f r)"
    and out: "out = ownedOutcome p req (bp_id period) r"
    by (auto simp: resetHeldRow_def proxy_inv split: list.splits)
  have "filter (row_at p (qKey req) row) (bd_rows db) = [row]"
    using row at [OF row(1)] by (intro filter_unique [OF budget_invD(1) [OF inv]]) (auto simp: row_at_def)
  with hit have "r = ?f row" by simp
  with out show "out = owned_as p req period (br_id row) (br_version row + 1)"
    by (simp add: ownedOutcome_def owned_as_code proxy_reset_fields_def)
  show "db' = db\<lparr>bd_rows := sql_update (\<lambda>r. br_id r = br_id row) ?f (bd_rows db)\<rparr>"
    unfolding db' using sql_update_cong [of "bd_rows db", OF at] by simp
  show "br_check (?f row)" using ok at [OF row(1)] row(1) by simp
qed

lemma resetHeldRow_effect:
  assumes inv: "budget_inv db" and row: "row \<in> set (bd_rows db)" "reservation_has_key (pOrgID p) (pAgentID p) (qKey req) row"
    and p: "period \<in> set (bd_periods db)" "bp_org period = pOrgID p"
    and room: "bp_spent period + holds_but (pe_now e) period (Some (br_id row)) db + qEstimatedCents req \<le> bp_cap period"
    and run: "resetHeldRow e p req period lease row db = (Inr out, db')"
  shows "effect (pe_now e) db db'"
proof -
  note w = resetHeldRow_written [OF inv row run]
  from w row p room have "readmits (pe_now e) period row (proxy_reset_fields e req period lease) db db'"
    by (auto simp: readmits_def room_def holds_but_code proxy_reset_fields_def reservation_has_key_def reservation_key_def)
  then show ?thesis by (rule rewritten)
qed

lemma resolveExisting_spec:
  assumes inv: "budget_inv db" and legal: "claim_legal e req db" and est: "0 \<le> qEstimatedCents req"
    and p: "period \<in> set (bd_periods db)" "bp_org period = pOrgID p"
    and found: "sql_first (reservation_has_key (pOrgID p) (pAgentID p) (qKey req)) (bd_rows db) = Some row"
    and run: "resolveExisting e p req period lease row db = (Inr out, db')"
  shows "(out, db') = existing_spec lease e p req period row db" and "effect (pe_now e) db db'"
proof -
  let ?h = "holds_but (pe_now e) period (Some (br_id row)) db"
  note h = legal_holds [OF inv legal p(1) est]
  note row = sql_first_Some [OF found, THEN conjunct1] sql_first_Some [OF found, THEN conjunct2]
  note spec = existing_spec_code [OF inv row(1)]
  consider (conflict) "br_hash row \<noteq> qRequestHash req" | (live) "br_hash row = qRequestHash req" "liveClaimLease e row"
    | (over) "br_hash row = qRequestHash req" "\<not> liveClaimLease e row"
        "\<not> bp_spent period + ?h + qEstimatedCents req \<le> bp_cap period"
    | (fits) "br_hash row = qRequestHash req" "\<not> liveClaimLease e row"
        "bp_spent period + ?h + qEstimatedCents req \<le> bp_cap period" by blast
  then have "(out, db') = existing_spec lease e p req period row db \<and> effect (pe_now e) db db'"
  proof cases
    case conflict
    with run show ?thesis by (simp add: resolveExisting_def spec proxy_inv effect.same)
  next
    case live
    then obtain l where "br_lease row = Some l" by (auto simp: liveClaimLease_def split: option.splits)
    with run live show ?thesis by (simp add: resolveExisting_def spec proxy_inv effect.same)
  next
    case over
    from run over obtain holds db1 where a: "activeHoldCents e p (bp_id period) (br_id row) db = (Inr holds, db1)"
      and b: "(if capExceeded period holds req
        then tx_bind (expireStaleClaim p (qKey req) row) (\<lambda>_. tx_return (exceededOutcome period holds))
        else resetHeldRow e p req period lease row) db1 = (Inr out, db')"
      by (auto simp: resolveExisting_def tx_bind_Inr)
    from activeHoldCents_Inr [OF a p(2)] have eq: "db1 = db" "holds = ?h" by simp_all
    with b over(3) obtain u where x: "expireStaleClaim p (qKey req) row db = (Inr u, db')"
      and out: "out = exceeded_by period ?h" by (auto simp: h(6,7) proxy_inv)
    from expireStaleClaim_Inr [OF inv row x] over out show ?thesis
      by (simp add: spec Let_def)
  next
    case fits
    from run fits obtain holds db1 where a: "activeHoldCents e p (bp_id period) (br_id row) db = (Inr holds, db1)"
      and b: "(if capExceeded period holds req
        then tx_bind (expireStaleClaim p (qKey req) row) (\<lambda>_. tx_return (exceededOutcome period holds))
        else resetHeldRow e p req period lease row) db1 = (Inr out, db')"
      by (auto simp: resolveExisting_def tx_bind_Inr)
    from activeHoldCents_Inr [OF a p(2)] have eq: "db1 = db" "holds = ?h" by simp_all
    with b fits(3) have x: "resetHeldRow e p req period lease row db = (Inr out, db')" by (simp add: h(6))
    from resetHeldRow_written [OF inv row x] resetHeldRow_effect [OF inv row p fits(3) x] fits show ?thesis by (simp add: spec Let_def)
  qed
  then show "(out, db') = existing_spec lease e p req period row db" and "effect (pe_now e) db db'" by simp_all
qed

definition normal_request :: "ClaimRequest \<Rightarrow> ClaimRequest" where
  "normal_request req = req\<lparr>qKey := trim_space (qKey req), qRequestHash := trim_space (qRequestHash req)\<rparr>"

lemma Claim_Inr:
  assumes "Claim lease e p req db = (Inr out, db')"
  shows "\<not> be_fault (pe_db e)" and "validClaimRequest p (normal_request req)"
    and "claimInTx (ledger_lease lease) e p (normal_request req) db = (Inr out, db')"
  using assms by (auto simp: Claim_def Let_def normal_request_def proxy_inv split: if_splits)

lemma Claim_spec:
  assumes inv: "budget_inv db" and legal: "claim_legal e req db" and run: "Claim lease e p req db = (Inr out, db')"
  shows "(out, db') = claim_spec (ledger_lease lease) e p (normal_request req) db" and "effect (pe_now e) db db'"
proof -
  let ?req = "normal_request req" and ?lease = "ledger_lease lease"
  note c = Claim_Inr [OF run]
  have legal': "claim_legal e ?req db" and est: "0 \<le> qEstimatedCents ?req"
    using legal c(2) by (simp_all add: claim_legal_def validClaimRequest_def normal_request_def)
  have "(out, db') = claim_spec ?lease e p ?req db \<and> effect (pe_now e) db db'"
  proof (cases "active_period (pe_now e) (pOrgID p) db")
    case None
    with c(3) show ?thesis
      by (auto simp: claimInTx_def loadActivePeriod_def proxy_inv claim_spec_code active_period_def effect.same)
  next
    case (Some period)
    note per = active_period_Some [OF Some, THEN conjunct1] active_period_Some [OF Some, THEN conjunct2]
    show ?thesis
    proof (cases "sql_first (reservation_has_key (pOrgID p) (pAgentID p) (qKey ?req)) (bd_rows db)")
      case None
      with c(3) Some have x: "claimFresh e p ?req period ?lease db = (Inr out, db')"
        by (auto simp: claimInTx_def loadActivePeriod_def loadReservation_def proxy_inv active_period_def)
      note f = claimFresh_spec [OF inv legal' est per None x]
      have "effect (pe_now e) db db'"
      proof (cases "oKind out = ClaimOwned")
        case True
        from f(2) [OF True] show ?thesis by (rule added)
      next
        case False
        with f(1) have "db' = db" by (auto simp: fresh_spec_code Let_def owned_as_code outcome_of_def split: if_splits)
        then show ?thesis by (simp add: effect.same)
      qed
      with f(1) Some None show ?thesis by (simp add: claim_spec_code)
    next
      case row: (Some row)
      with c(3) Some have x: "resolveExisting e p ?req period ?lease row db = (Inr out, db')"
        by (auto simp: claimInTx_def loadActivePeriod_def loadReservation_def proxy_inv active_period_def)
      from resolveExisting_spec [OF inv legal' est per row x] Some row show ?thesis by (simp add: claim_spec_code)
    qed
  qed
  then show "(out, db') = claim_spec ?lease e p ?req db" and "effect (pe_now e) db db'" by simp_all
qed

text \<open>
  C12. The proxy's claim decides as specified, in exact arithmetic. On a table that keeps its
  invariant, where no row has the nil id and, for every period, the caps, the spend and the sum
  of spend, live holds and estimate fit 64 bits, a claim that returns does so as \<open>claim_spec\<close>
  writes it out, for the trimmed key and hash and a lease of 15 minutes unless a positive one is
  configured. No active hard cap: no decision. No row for the key: owned with a new row at version
  1 when spend, holds and estimate are within the cap, exceeded otherwise. A row of the key:
  conflict for another hash; in progress while it is claimed and its lease is after the proxy's
  clock; otherwise owned, rewriting that one row at the next version, when there is room beside
  the other holds, or exceeded, expiring that row if it is still claimed. Nothing else changes.
\<close>

theorem proxy_claim_exact:
  assumes "budget_inv db" and "claim_legal e req db" and "Claim lease e p req db = (Inr out, db')"
  shows "(out, db') = claim_spec (if 0 < lease then lease else 900 * second) e p (normal_request req) db"
proof -
  have "ledger_lease lease = (if 0 < lease then lease else 900 * second)"
    by (simp add: ledger_lease_def DefaultLease_def)
  with Claim_spec(1) [OF assms] show ?thesis by simp
qed

section \<open>Settlement\<close>

lemma settle_Inr:
  assumes inv: "budget_inv db" and run: "settle e own f idem db = (Inr u, db')"
  obtains (written) row where "row \<in> set (bd_rows db)" and "settle_params own row" and "br_check (f row)"
      and "db' = db\<lparr>bd_rows := sql_update (\<lambda>r. br_id r = br_id row) f (bd_rows db)\<rparr>"
  | (replayed) row where "row \<in> set (bd_rows db)" and "br_id row = rID own" and "idem row" and "db' = db"
      and "\<not> (\<exists>r \<in> set (bd_rows db). settle_params own r)"
proof (cases "\<exists>r \<in> set (bd_rows db). settle_params own r")
  case True
  then obtain row where row: "row \<in> set (bd_rows db)" "settle_params own row" by blast
  have at: "settle_params own r \<longleftrightarrow> br_id r = br_id row" if "r \<in> set (bd_rows db)" for r
    using that row same_reservation [OF inv that row(1)] by (auto simp: settle_params_def)
  have "filter (settle_params own) (bd_rows db) = [row]"
    using row by (intro filter_unique [OF budget_invD(1) [OF inv]]) (auto simp: settle_params_def)
  with run have "db' = db\<lparr>bd_rows := sql_update (settle_params own) f (bd_rows db)\<rparr>" "br_check (f row)"
    using row by (auto simp: settle_def proxy_inv)
  with sql_update_cong [of "bd_rows db", OF at] row show thesis by (intro written) simp_all
next
  case False
  then have "filter (settle_params own) (bd_rows db) = []" "sql_update (settle_params own) f (bd_rows db) = bd_rows db"
    by (simp_all add: filter_empty_conv sql_update_none)
  with run obtain row where "sql_first (\<lambda>r. br_id r = rID own \<and> reservation_has_key (pOrgID (rPrincipal own))
      (pAgentID (rPrincipal own)) (rKey own) r) (bd_rows db) = Some row" "idem row" "db' = db"
    by (auto simp: settle_def loadReservationState_def proxy_inv split: option.splits if_splits)
  with False show thesis by (intro replayed [of row]) (auto dest: sql_first_Some)
qed

lemma settle_effect:
  assumes "budget_inv db" and "settle e own f idem db = (Inr u, db')"
    and keep: "\<And>r. br_id (f r) = br_id r \<and> reservation_key (f r) = reservation_key r \<and> br_hash (f r) = br_hash r \<and>
      br_version (f r) = br_version r + 1 \<and> br_state (f r) \<noteq> BClaimed"
  shows "effect now db db'"
  using assms(1,2)
proof (cases rule: settle_Inr)
  case (written row)
  have "r = row" if "r \<in> set (bd_rows db)" "br_id r = br_id row" for r
    by (rule same_reservation [OF assms(1) that(1) written(1) that(2)])
  with written keep have "closes (\<lambda>r. br_id r = br_id row) f db db'"
    unfolding closes_def settle_params_def by metis
  then show ?thesis by (rule closed)
qed (simp add: effect.same)

lemma Finalize_effect: "budget_inv db \<Longrightarrow> Finalize e own amount k db = (Inr u, db') \<Longrightarrow> effect now db db'"
  by (auto simp: Finalize_def proxy_inv finalize_fields_def reservation_key_def split: option.splits if_splits
      elim!: settle_effect)

lemma Release_effect: "budget_inv db \<Longrightarrow> Release e own db = (Inr u, db') \<Longrightarrow> effect now db db'"
  by (auto simp: Release_def proxy_inv release_fields_def reservation_key_def split: if_splits elim!: settle_effect)

section \<open>The proxy as a client\<close>

datatype proxy_cmd = PClaim Principal ClaimRequest | PFinalize Reservation int "completeness option" | PRelease Reservation

datatype proxy_result = POutcome ClaimOutcome | PSettled

fun exec_proxy :: "usec \<Rightarrow> proxy_env \<times> proxy_cmd \<Rightarrow> proxy_result proxy_tx" where
  "exec_proxy lease (e, PClaim p req) = tx_bind (Claim lease e p req) (\<lambda>out. tx_return (POutcome out))"
| "exec_proxy lease (e, PFinalize own amount k) = tx_bind (Finalize e own amount k) (\<lambda>_. tx_return PSettled)"
| "exec_proxy lease (e, PRelease own) = tx_bind (Release e own) (\<lambda>_. tx_return PSettled)"

fun proxy_legal :: "proxy_env \<times> proxy_cmd \<Rightarrow> budget_db \<Rightarrow> bool" where
  "proxy_legal (e, PClaim p req) db = claim_legal e req db"
| "proxy_legal (e, PFinalize own amount k) db = True"
| "proxy_legal (e, PRelease own) db = True"

definition proxy_clock :: "proxy_env \<times> proxy_cmd \<Rightarrow> usec" where
  "proxy_clock c = pe_now (fst c)"

lemma withOrgTx_rollback: "fst (withOrgTx e m db) = Inl x \<Longrightarrow> snd (withOrgTx e m db) = db"
  by (auto simp: withOrgTx_def tx_raise_def dest: session_rollback)

lemma proxy_rollback:
  "fst (Claim lease e p req db) = Inl x \<Longrightarrow> snd (Claim lease e p req db) = db"
  "fst (Finalize e own amount k db) = Inl x \<Longrightarrow> snd (Finalize e own amount k db) = db"
  "fst (Release e own db) = Inl x \<Longrightarrow> snd (Release e own db) = db"
  by (auto simp: Claim_def Finalize_def Release_def settle_def tx_raise_def Let_def withOrgTx_rollback
      split: if_splits option.splits)

lemma exec_proxy_rollback: "fst (exec_proxy lease c db) = Inl x \<Longrightarrow> snd (exec_proxy lease c db) = db"
  by (cases "(lease, c)" rule: exec_proxy.cases) (auto elim!: bind_return_rollback dest: proxy_rollback)

interpretation prx: budget_client "exec_proxy lease" proxy_clock proxy_legal for lease
proof
  show "snd (exec_proxy lease c db) = db" if "fst (exec_proxy lease c db) = Inl x" for lease c db x
    using that by (rule exec_proxy_rollback)
  show "effect (proxy_clock c) db db'"
    if "budget_inv db" "proxy_legal c db" "exec_proxy lease c db = (Inr r, db')" for lease c r db db'
    using that by (cases "(lease, c)" rule: exec_proxy.cases)
      (auto simp: proxy_inv proxy_clock_def intro: Claim_spec(2) Finalize_effect Release_effect)
qed

section \<open>Both clients on one table\<close>

fun either_exec ::
  "('c \<Rightarrow> 's \<Rightarrow> ('e + 'r) \<times> 's) \<Rightarrow> ('d \<Rightarrow> 's \<Rightarrow> ('f + 'q) \<times> 's) \<Rightarrow> 'c + 'd \<Rightarrow> 's \<Rightarrow> (('e + 'f) + ('r + 'q)) \<times> 's" where
  "either_exec f g (Inl c) s = (case f c s of (r, s') \<Rightarrow> (map_sum Inl Inl r, s'))"
| "either_exec f g (Inr c) s = (case g c s of (r, s') \<Rightarrow> (map_sum Inr Inr r, s'))"

lemma map_sum_cases:
  "map_sum f g x = Inl y \<longleftrightarrow> (\<exists>a. x = Inl a \<and> y = f a)" "map_sum f g x = Inr z \<longleftrightarrow> (\<exists>b. x = Inr b \<and> z = g b)"
  by (cases x; auto)+

locale two_clients = a: budget_client exec1 clock1 legal1 + b: budget_client exec2 clock2 legal2
  for exec1 :: "'c \<Rightarrow> budget_db \<Rightarrow> ('e + 'r) \<times> budget_db" and clock1 legal1
    and exec2 :: "'d \<Rightarrow> budget_db \<Rightarrow> ('f + 'q) \<times> budget_db" and clock2 legal2

sublocale two_clients \<subseteq> both: budget_client "either_exec exec1 exec2" "case_sum clock1 clock2" "case_sum legal1 legal2"
proof
  fix c :: "'c + 'd" and db db' x r
  show "snd (either_exec exec1 exec2 c db) = db" if "fst (either_exec exec1 exec2 c db) = Inl x"
  proof (cases c)
    case (Inl u)
    with that obtain y where "fst (exec1 u db) = Inl y" by (auto simp: map_sum_cases split: prod.splits)
    from a.rollback [OF this] Inl show ?thesis by (auto split: prod.splits)
  next
    case (Inr u)
    with that obtain y where "fst (exec2 u db) = Inl y" by (auto simp: map_sum_cases split: prod.splits)
    from b.rollback [OF this] Inr show ?thesis by (auto split: prod.splits)
  qed
  show "effect (case_sum clock1 clock2 c) db db'"
    if "budget_inv db" "case_sum legal1 legal2 c db" "either_exec exec1 exec2 c db = (Inr r, db')"
    using that by (cases c) (auto simp: map_sum_cases split: prod.splits intro: a.commit b.commit)
qed

definition worker_clock :: "budget_env \<times> budget_cmd \<Rightarrow> usec" where
  "worker_clock c = be_now (fst c)"

definition exec_shared where
  "exec_shared worker_lease proxy_lease = either_exec (exec_budget worker_lease) (exec_proxy proxy_lease)"

definition shared_legal :: "(budget_env \<times> budget_cmd) + (proxy_env \<times> proxy_cmd) \<Rightarrow> budget_db \<Rightarrow> bool" where
  "shared_legal = case_sum (\<lambda>_ _. True) proxy_legal"

definition shared_clock :: "(budget_env \<times> budget_cmd) + (proxy_env \<times> proxy_cmd) \<Rightarrow> usec" where
  "shared_clock = case_sum worker_clock proxy_clock"

interpretation shr: two_clients "exec_budget lw" worker_clock "\<lambda>_ _. True" "exec_proxy lp" proxy_clock proxy_legal for lw lp
proof
  show "effect (worker_clock c) db db'" if "budget_inv db" "exec_budget lw c db = (Inr r, db')" for c r db db'
    using wrk.commit [OF that(1) _ that(2)] by (simp add: worker_clock_def split: prod.splits)
qed

text \<open>
  C2. One cap for both services. Whatever claims, settlements and sweeps the worker and whatever claims and
  settlements the proxy run on the table, in any order and with whatever transaction clocks and proxy
  clocks, at every instant not before the transaction clocks of the run the live holds of every budget period stay within
  what its cap leaves after the recorded spend, as long as they do so at that instant at the start, the table keeps its
  invariant, no sum of the proxy reaches \<open>2 ^ 63\<close> and no row that the proxy reads has the nil id.
\<close>

theorem shared_cap_respected:
  assumes "budget_inv db" and "cap_kept t db" and "run_legal shared_legal (exec_shared lw lp) cs db"
    and "\<forall>c \<in> set cs. shared_clock c \<le> t" and "p \<in> set (bd_periods db)"
  shows "active_holds t (bp_org p) (bp_id p) None (bd_rows (run_all (exec_shared lw lp) cs db))
    \<le> max 0 (bp_cap p - bp_spent p)"
proof -
  have "cap_kept t (run_all (exec_shared lw lp) cs db)"
    using assms(2-4) unfolding exec_shared_def shared_legal_def shared_clock_def
    by (intro shr.both.run_cap_kept [OF assms(1)])
  moreover have "bd_periods (run_all (exec_shared lw lp) cs db) = bd_periods db"
    using shr.both.run_keeps [OF assms(1)] assms(3) by (simp add: exec_shared_def shared_legal_def)
  ultimately show ?thesis using assms(5) by (simp add: cap_kept_def)
qed

section \<open>Samples\<close>

definition sample_proxy :: "usec \<Rightarrow> int \<Rightarrow> uuid \<Rightarrow> proxy_env" where
  "sample_proxy now wall i = \<lparr>pe_db = sample_env now i, pe_wall = wall * 1000000000, pe_wall_retry = wall * 1000000000\<rparr>"

definition sample_tenant :: Principal where "sample_tenant = \<lparr>pOrgID = 1, pAgentID = 2\<rparr>"

definition sample_chat :: "string \<Rightarrow> int \<Rightarrow> ClaimRequest" where
  "sample_chat key cents = \<lparr>qKey = key, qRequestHash = sample_hash, qEstimatedCents = cents\<rparr>"

text \<open>The worker's hold runs until second 900; at second 100 a proxy whose clock is at 901 takes it over.\<close>

theorem proxy_claim_exact_witness:
  "lease_active (100 * second) (sample_row 1 900) \<and>
   Claim 0 (sample_proxy 100 901 11) sample_tenant (sample_chat '' k'' 40) (sample_db\<lparr>bd_rows := [sample_row 1 900]\<rparr>) =
     (Inr (owned_as sample_tenant (sample_chat ''k'' 40) (hd (bd_periods sample_db)) 9 2),
      sample_db\<lparr>bd_rows := [(sample_row 2 1000)\<lparr>br_estimated := 40\<rparr>]\<rparr>) \<and>
   (owned_as sample_tenant (sample_chat ''k'' 40) (hd (bd_periods sample_db)) 9 2,
      sample_db\<lparr>bd_rows := [(sample_row 2 1000)\<lparr>br_estimated := 40\<rparr>]\<rparr>) =
     claim_spec (900 * second) (sample_proxy 100 901 11) sample_tenant (normal_request (sample_chat '' k'' 40))
       (sample_db\<lparr>bd_rows := [sample_row 1 900]\<rparr>)"
proof -
  let ?db = "sample_db\<lparr>bd_rows := [sample_row 1 900]\<rparr>"
  have run: "Claim 0 (sample_proxy 100 901 11) sample_tenant (sample_chat '' k'' 40) ?db =
     (Inr (owned_as sample_tenant (sample_chat ''k'' 40) (hd (bd_periods sample_db)) 9 2),
      sample_db\<lparr>bd_rows := [(sample_row 2 1000)\<lparr>br_estimated := 40\<rparr>]\<rparr>)"
    by code_simp
  have "budget_inv ?db" by code_simp
  moreover have "claim_legal (sample_proxy 100 901 11) (sample_chat '' k'' 40) ?db" by code_simp
  ultimately have spec: "(owned_as sample_tenant (sample_chat ''k'' 40) (hd (bd_periods sample_db)) 9 2,
      sample_db\<lparr>bd_rows := [(sample_row 2 1000)\<lparr>br_estimated := 40\<rparr>]\<rparr>) =
     claim_spec (900 * second) (sample_proxy 100 901 11) sample_tenant (normal_request (sample_chat '' k'' 40)) ?db"
    using proxy_claim_exact [OF _ _ run] by simp
  have "lease_active (100 * second) (sample_row 1 900)" by code_simp
  with run spec show ?thesis by blast
qed

definition sample_run :: "((budget_env \<times> budget_cmd) + (proxy_env \<times> proxy_cmd)) list" where
  "sample_run = [Inl (sample_env 0 9, BClaim (sample_request ''k'')),
     Inr (sample_proxy 7 7 10, PClaim sample_tenant (sample_chat ''chat:1'' 40)),
     Inr (sample_proxy 5 5 11, PClaim sample_tenant (sample_chat ''chat:2'' 40)),
     Inl (sample_env 8 12, BClaim (sample_request ''k2''))]"

theorem shared_cap_respected_witness:
  "active_holds (500 * second) 1 7 None (bd_rows (run_all (exec_shared (900 * second) 0) sample_run sample_db)) \<le> 90 \<and>
   length (bd_rows (run_all (exec_shared (900 * second) 0) sample_run sample_db)) = 2"
proof -
  have "cap_kept (500 * second) sample_db"
    by (simp add: cap_kept_def sample_db_def active_holds_def)
  moreover have "run_legal shared_legal (exec_shared (900 * second) 0) sample_run sample_db" by code_simp
  moreover have "\<forall>c \<in> set sample_run. shared_clock c \<le> 500 * second" by code_simp
  moreover have "\<lparr>bp_id = 7, bp_org = 1, bp_start = 0, bp_end = 100000 * second, bp_cap = 100,
      bp_spent = 10, bp_mode = Hard_cap\<rparr> \<in> set (bd_periods sample_db)"
    by (simp add: sample_db_def)
  ultimately have "active_holds (500 * second) 1 7 None (bd_rows (run_all (exec_shared (900 * second) 0) sample_run sample_db)) \<le> 90"
    using shared_cap_respected [OF sample_inv, of "500 * second" "900 * second" 0 sample_run
        "\<lparr>bp_id = 7, bp_org = 1, bp_start = 0, bp_end = 100000 * second, bp_cap = 100, bp_spent = 10, bp_mode = Hard_cap\<rparr>"]
    by simp
  moreover have "length (bd_rows (run_all (exec_shared (900 * second) 0) sample_run sample_db)) = 2" by code_simp
  ultimately show ?thesis ..
qed

section \<open>The cap in 64 bits\<close>



end
