(* ===== verification/Proxy_Postgres.thy ===== *)
theory Proxy_Postgres
  imports Proxy_Tracking Proxy_Replies Shared_Budget
begin

text \<open>
  The chat handler over the database: what a ledger must promise so that no hold outlives its request (the
  interface \<open>hold_store\<close>), and the ledger of \<open>packages/budgetledger\<close>, which keeps the promise on the table it shares
  with the worker and the other proxies, whatever they do to the rows of the request meanwhile.
\<close>

section \<open>The contract of a ledger\<close>

lemma chat_rules_snd [simp]: "snd (chat_rules h parsed) = payable h"
  by (simp add: chat_rules_def)

text \<open>The reservations that the claims of a log were answered with.\<close>

definition owned_by :: "event list \<Rightarrow> Reservation set" where
  "owned_by evs = {claimed_reservation c | q c. EvClaim q (Inr c) \<in> set evs \<and> oKind c = ClaimOwned}"

lemma owned_by_simps [simp]:
  "owned_by [] = {}"
  "\<not> calls_ledger ev \<Longrightarrow> owned_by (ev # evs) = owned_by evs"
  "owned_by (EvRelease own ok # evs) = owned_by evs" "owned_by (EvFinalize own amount quality ok # evs) = owned_by evs"
  "owned_by (EvClaim q out # evs) =
     (case out of Inr c \<Rightarrow> if oKind c = ClaimOwned then {claimed_reservation c} else {} | Inl _ \<Rightarrow> {}) \<union> owned_by evs"
  by (auto simp: owned_by_def calls_ledger_def split: sum.splits)

text \<open>
  A store that knows the reservations it handed out, settles one on release and on finalisation, and never
  reopens a settled one.
\<close>

locale hold_store =
  fixes ledger :: "'l Ledger" and good :: "'l \<Rightarrow> bool" and known :: "Reservation \<Rightarrow> 'l \<Rightarrow> bool"
    and settled :: "Reservation \<Rightarrow> 'l \<Rightarrow> bool"
  assumes claim_law: "good l \<Longrightarrow> ldClaim ledger p q l = (out, l') \<Longrightarrow>
      good l' \<and> (\<forall>own. (known own l \<longrightarrow> known own l') \<and> (settled own l \<longrightarrow> settled own l')) \<and>
      (\<forall>c. out = Inr c \<and> oKind c = ClaimOwned \<longrightarrow>
         known (claimed_reservation c) l' \<and> 0 \<le> qEstimatedCents q \<and> qEstimatedCents q \<le> MaxInt64)"
    and release_law: "good l \<Longrightarrow> known own l \<Longrightarrow> ldRelease ledger own l = (done, l') \<Longrightarrow>
      good l' \<and> settled own l' \<and> (\<forall>other. (known other l \<longrightarrow> known other l') \<and> (settled other l \<longrightarrow> settled other l'))"
    and finalize_law: "good l \<Longrightarrow> known own l \<Longrightarrow> 0 \<le> amount \<Longrightarrow> amount \<le> MaxInt64 \<Longrightarrow>
      ldFinalize ledger own amount (Some quality) l = (done, l') \<Longrightarrow>
      good l' \<and> settled own l' \<and> (\<forall>other. (known other l \<longrightarrow> known other l') \<and> (settled other l \<longrightarrow> settled other l'))"
begin

text \<open>Every reservation handed out so far is settled, but for the one the monitor sees held.\<close>

definition matches :: "phase \<Rightarrow> Reservation set \<Rightarrow> 'l \<Rightarrow> bool" where
  "matches ph given l \<longleftrightarrow> good l \<and> (\<forall>own \<in> given. settled own l \<or> (\<exists>estimate. ph = Held own estimate)) \<and>
     (\<forall>own estimate. ph = Held own estimate \<longrightarrow> known own l \<and> 0 \<le> estimate \<and> estimate \<le> MaxInt64)"

lemma claim_matches:
  assumes "matches ph given l" "\<And>own estimate. ph \<noteq> Held own estimate" "ldClaim ledger p q l = (out, l')"
  shows "matches (claimed_phase q out)
    (given \<union> (case out of Inr c \<Rightarrow> if oKind c = ClaimOwned then {claimed_reservation c} else {} | Inl _ \<Rightarrow> {})) l'"
proof -
  have l: "good l" "\<forall>own \<in> given. settled own l" using assms(1,2) by (auto simp: matches_def)
  with claim_law [OF l(1) assms(3)] show ?thesis
    by (auto simp: matches_def claimed_phase_def split: sum.splits ClaimKind.splits)
qed

lemma payable_bounds:
  "payable h estimate amount quality \<Longrightarrow> 0 \<le> estimate \<Longrightarrow> estimate \<le> MaxInt64 \<Longrightarrow> 0 \<le> amount \<and> amount \<le> MaxInt64"
  by (cases quality) (fastforce simp: payable_def MaxInt64_def dest: EstimateCost_bound)+

text \<open>Along a log the monitor accepts, the ledger is where the monitor says.\<close>

lemma trace_matches:
  "ledger_run ledger mine evs l l' \<Longrightarrow> hold_trace (chat_rules h parsed) ph evs = Some ph' \<Longrightarrow> matches ph given l \<Longrightarrow>
   matches ph' (given \<union> owned_by evs) l'"
proof (induction arbitrary: ph given rule: ledger_run.induct)
  case (stop l)
  then show ?case by simp
next
  case (other ev evs l m)
  from other.prems(1) obtain ph1 where ph1: "hold_step (chat_rules h parsed) ph ev = Some ph1"
      "hold_trace (chat_rules h parsed) ph1 evs = Some ph'" by (auto split: option.splits)
  with other.hyps(1) have "ph1 = Held own estimate \<longleftrightarrow> ph = Held own estimate" for own estimate
    by (cases ev; cases ph) (auto simp: calls_ledger_def split: if_splits)
  with other.prems(2) have "matches ph1 given l" by (simp add: matches_def)
  from other.IH [OF ph1(2) this] other.hyps(1) show ?case by simp
next
  case (claims p q l out k evs m)
  from claims.prems have ph: "\<And>own estimate. ph \<noteq> Held own estimate"
      "hold_trace (chat_rules h parsed) (claimed_phase q out) evs = Some ph'"
    by (auto split: phase.splits)
  from claims.IH [OF ph(2) claim_matches [OF claims.prems(2) ph(1) claims.hyps(2)]] show ?case
    by (simp add: Un_assoc)
next
  case (releases own l out k evs m)
  then obtain estimate where ph: "ph = Held own estimate" "hold_trace (chat_rules h parsed) Idle evs = Some ph'"
    by (auto split: phase.splits if_splits)
  from releases.prems(2) ph(1) release_law [of l own out k] releases.hyps(1)
  have "matches Idle given k" by (auto simp: matches_def)
  from releases.IH [OF ph(2) this] show ?case by simp
next
  case (finalizes own amount quality l out k evs m)
  then obtain estimate where ph: "ph = Held own estimate" "payable h estimate amount quality"
      "hold_trace (chat_rules h parsed) Idle evs = Some ph'"
    by (auto split: phase.splits if_splits)
  from finalizes.prems(2) ph(1) finalize_law [of l own amount quality out k] finalizes.hyps(1) payable_bounds [OF ph(2)]
  have "matches Idle given k" by (auto simp: matches_def)
  from finalizes.IH [OF ph(3) this] show ?case by simp
qed

theorem request_settles:
  assumes "chBudgetLedger h = Some ledger" "chBudgetCache h" "hqReservation r = None"
    and "cs_log s = []" "cs_heap s = []" "good (cs_ledger s)"
    and run: "run_state (serve h post r (Some body) prov flusher) s = (x, t)"
  shows "good (cs_ledger t) \<and> ((\<forall>own \<in> owned_by (cs_log t). settled own (cs_ledger t)) \<or> ccStream body \<and> \<not> flusher)"
proof -
  have "unclaimed h body s" using assms(4,5) by (simp add: unclaimed_def consistent_def open_cells_def)
  from wp_run [OF wp_serve [OF assms(1,2) this assms(3)] run]
  obtain ph where ph: "hold_trace (chat_rules h body) Idle (cs_log t) = Some ph"
    and "(\<forall>own estimate. ph \<noteq> Held own estimate) \<or> ccStream body \<and> \<not> flusher"
    by (auto simp: ended_def consistent_def)
  moreover have "admits (\<lambda>_ _. True) h r" by (simp add: admits_def)
  from tracked_serve [OF assms(1) this] run assms(4)
  have "ledger_run ledger (\<lambda>_ _. True) (cs_log t) (cs_ledger s) (cs_ledger t)"
    unfolding tracks_def by fastforce
  then have "matches ph ({} \<union> owned_by (cs_log t)) (cs_ledger t)"
    by (rule trace_matches [OF _ ph]) (simp add: matches_def assms(6))
  ultimately show ?thesis by (auto simp: matches_def)
qed

end


section \<open>The ledger on the shared table\<close>

text \<open>
  Each call runs in an environment of its own, after whatever the other clients of the table have done since the
  last one.
\<close>

record postgres =
  pg_db :: budget_db
  pg_calls :: nat
  pg_env :: "nat \<Rightarrow> proxy_env"
  pg_others :: "nat \<Rightarrow> budget_db \<Rightarrow> budget_db"

definition pg_call :: "(proxy_env \<Rightarrow> 'a proxy_tx) \<Rightarrow> postgres \<Rightarrow> (proxy_error + 'a) \<times> postgres" where
  "pg_call op l = (case op (pg_env l (pg_calls l)) (pg_others l (pg_calls l) (pg_db l)) of
     (out, db) \<Rightarrow> (out, l\<lparr>pg_db := db, pg_calls := Suc (pg_calls l)\<rparr>))"

definition postgres_ledger :: "usec \<Rightarrow> postgres Ledger" where
  "postgres_ledger lease =
     \<lparr>ldClaim = (\<lambda>p q. pg_call (\<lambda>e. Claim lease e p q)),
      ldFinalize = (\<lambda>own amount quality. pg_call (\<lambda>e. Finalize e own amount quality)),
      ldRelease = (\<lambda>own. pg_call (\<lambda>e. Release e own))\<rparr>"

abbreviation key_rows :: "Principal \<Rightarrow> string \<Rightarrow> budget_db \<Rightarrow> reservation list" where
  "key_rows p key db \<equiv> filter (reservation_has_key (pOrgID p) (pAgentID p) key) (bd_rows db)"

text \<open>
  What the other clients of the table may do to it: anything that keeps its invariant, gives no row the nil id,
  removes no row, and rewrites a row only with a larger version.
\<close>

definition client_step :: "budget_db \<Rightarrow> budget_db \<Rightarrow> bool" where
  "client_step db db' \<longleftrightarrow> budget_inv db' \<and> 0 \<notin> br_id ` set (bd_rows db') \<and> follows db db'"

text \<open>No transaction of this client fails to run, and identifiers generated for it are not the nil UUID.\<close>

definition pg_good :: "postgres \<Rightarrow> bool" where
  "pg_good l \<longleftrightarrow> budget_inv (pg_db l) \<and> 0 \<notin> br_id ` set (bd_rows (pg_db l)) \<and>
     (\<forall>n. \<not> be_fault (pe_db (pg_env l n)) \<and> be_uuid (pe_db (pg_env l n)) \<noteq> 0 \<and>
       (\<forall>db. budget_inv db \<and> 0 \<notin> br_id ` set (bd_rows db) \<longrightarrow> client_step db (pg_others l n db)))"

definition last_version :: int where "last_version = 2 ^ 63 - 1"

text \<open>
  The row of a reservation that was handed out, and the same once the reservation no longer holds anything: the
  row has moved on to a later version or is not claimed, a version that can no longer be counted up aside.
\<close>

definition row_of :: "Reservation \<Rightarrow> reservation \<Rightarrow> bool" where
  "row_of own r \<longleftrightarrow> br_id r = rID own \<and>
     reservation_has_key (pOrgID (rPrincipal own)) (pAgentID (rPrincipal own)) (rKey own) r \<and> rVersion own \<le> br_version r"

definition row_known :: "Reservation \<Rightarrow> budget_db \<Rightarrow> bool" where
  "row_known own db \<longleftrightarrow> validReservation own \<and> (\<exists>r \<in> set (bd_rows db). row_of own r)"

definition row_settled :: "Reservation \<Rightarrow> budget_db \<Rightarrow> bool" where
  "row_settled own db \<longleftrightarrow> (\<exists>r \<in> set (bd_rows db). row_of own r \<and>
     (br_version r = rVersion own \<longrightarrow> br_state r \<noteq> BClaimed \<or> br_version r = last_version))"

lemma row_of_follows: "row_of own r \<Longrightarrow> row_follows r r' \<Longrightarrow> row_of own r' \<and> (r' = r \<or> rVersion own < br_version r')"
  by (auto simp: row_of_def row_follows_def has_key_reservation)

lemma known_follows: "row_known own db \<Longrightarrow> follows db db' \<Longrightarrow> row_known own db'"
  unfolding row_known_def follows_def by (meson row_of_follows)

lemma settled_follows: "row_settled own db \<Longrightarrow> follows db db' \<Longrightarrow> row_settled own db'"
  unfolding row_settled_def follows_def by (metis less_irrefl row_of_follows)

text \<open>A settled reservation passes the fence of no row but such a last version.\<close>

lemma settled_fenced:
  assumes "budget_inv db" "row_settled own db" "r \<in> set (bd_rows db)" "settle_params own r"
  shows "br_version r = last_version"
proof -
  from assms(2) obtain r' where r': "r' \<in> set (bd_rows db)" "row_of own r'"
      "br_version r' = rVersion own \<longrightarrow> br_state r' \<noteq> BClaimed \<or> br_version r' = last_version"
    by (auto simp: row_settled_def)
  have "r = r'" using assms(4) r'(2) by (intro same_reservation [OF assms(1,3) r'(1)]) (simp add: settle_params_def row_of_def)
  with r'(3) assms(4) show ?thesis by (simp add: settle_params_def)
qed

lemma client_step_refl: "budget_inv db \<Longrightarrow> 0 \<notin> br_id ` set (bd_rows db) \<Longrightarrow> client_step db db"
  by (simp add: client_step_def follows_refl)

lemma client_step_trans: "client_step db db' \<Longrightarrow> client_step db' db'' \<Longrightarrow> client_step db db''"
  by (auto simp: client_step_def intro: follows_trans)

lemma client_step_update:
  assumes "budget_inv db" "0 \<notin> br_id ` set (bd_rows db)" "row \<in> set (bd_rows db)"
    and f: "br_id (f row) = br_id row" "reservation_key (f row) = reservation_key row" "br_check (f row)"
      "br_version (f row) = br_version row + 1"
  shows "client_step db (db\<lparr>bd_rows := sql_update (\<lambda>r. br_id r = br_id row) f (bd_rows db)\<rparr>)"
proof -
  have only: "r = row" if "r \<in> set (bd_rows db)" "br_id r = br_id row" for r
    by (rule same_reservation [OF assms(1) that(1) assms(3) that(2)])
  let ?db = "db\<lparr>bd_rows := sql_update (\<lambda>r. br_id r = br_id row) f (bd_rows db)\<rparr>"
  have "budget_inv ?db" using f only by (intro budget_inv_update [OF assms(1)]) auto
  moreover have "row_follows row (f row)" using f by (simp add: row_follows_def)
  then have "follows db ?db" using only by (intro follows_update [OF refl]) blast
  moreover have "br_id (f r) = br_id r" if "r \<in> set (bd_rows db)" "br_id r = br_id row" for r
    using only [OF that] f(1) by simp
  then have "0 \<notin> br_id ` set (bd_rows ?db)" using assms(2) by (auto simp: set_sql_update)
  ultimately show ?thesis by (simp add: client_step_def)
qed

subsection \<open>Settlement\<close>

lemma settle_held:
  assumes inv: "budget_inv db" and up: "\<not> be_fault (pe_db e)" and row: "row \<in> set (bd_rows db)" "settle_params own row"
  shows "\<exists>out. settle e own f idem db = (out, if br_check (f row)
    then db\<lparr>bd_rows := sql_update (settle_params own) f (bd_rows db)\<rparr> else db)"
proof -
  have hit: "filter (settle_params own) (bd_rows db) = [row]"
    using row by (intro filter_unique [OF budget_invD(1) [OF inv]]) (auto simp: settle_params_def)
  then show ?thesis
    by (auto simp: settle_def withOrgTx_def up sql_error_def checked_update_def tx_defs scope_defs Let_def)
qed

text \<open>Settling a known reservation leaves it settled, whether the statement hits, is a replay or is refused.\<close>

lemma settle_settles:
  assumes inv: "budget_inv db" and up: "\<not> be_fault (pe_db e)" and nil: "0 \<notin> br_id ` set (bd_rows db)" and known: "row_known own db"
    and keep: "\<And>r. br_id (f r) = br_id r \<and> reservation_key (f r) = reservation_key r \<and> br_version (f r) = br_version r + 1"
    and check: "\<And>r. br_check r \<Longrightarrow> br_state r = BClaimed \<Longrightarrow> br_version r \<noteq> last_version \<Longrightarrow> br_check (f r)"
    and run: "settle e own f idem db = (out, db')"
  shows "client_step db db' \<and> row_settled own db'"
proof (cases "\<exists>row \<in> set (bd_rows db). settle_params own row")
  case True
  then obtain row where row: "row \<in> set (bd_rows db)" "settle_params own row" by blast
  have at: "settle_params own r \<longleftrightarrow> br_id r = br_id row" if "r \<in> set (bd_rows db)" for r
    using that row same_reservation [OF inv that row(1)] by (auto simp: settle_params_def)
  from settle_held [OF inv up row, of f idem] run
  have db': "db' = (if br_check (f row) then db\<lparr>bd_rows := sql_update (\<lambda>r. br_id r = br_id row) f (bd_rows db)\<rparr> else db)"
    using sql_update_cong [of "bd_rows db", OF at] by auto
  have own: "row_of own row" using row(2) by (simp add: settle_params_def row_of_def)
  show ?thesis
  proof (cases "br_check (f row)")
    case True
    with client_step_update [OF inv nil row(1), of f] keep have step: "client_step db db'" by (simp add: db')
    have "row_follows row (f row)" using keep by (simp add: row_follows_def)
    from row_of_follows [OF own this] have "row_of own (f row)" "rVersion own < br_version (f row)"
      using row(2) keep [of row] by (auto simp: settle_params_def)
    moreover have "f row \<in> set (bd_rows db')" using True row(1) by (auto simp: db' set_sql_update)
    ultimately show ?thesis using step by (auto simp: row_settled_def)
  next
    case False
    with check [OF budget_invD(3) [OF inv row(1)]] row(2) have "br_version row = last_version"
      by (auto simp: settle_params_def)
    with False own row(1) client_step_refl [OF inv nil] show ?thesis by (auto simp: db' row_settled_def)
  qed
next
  case False
  then have "filter (settle_params own) (bd_rows db) = []" "sql_update (settle_params own) f (bd_rows db) = bd_rows db"
    by (simp_all add: filter_empty_conv sql_update_none)
  with run have "db' = db"
    by (auto simp: settle_def withOrgTx_def up sql_error_def checked_update_def loadReservationState_def tx_defs scope_defs Let_def
        split: option.splits if_splits)
  moreover obtain r where r: "r \<in> set (bd_rows db)" "row_of own r" using known by (auto simp: row_known_def)
  with False have "row_settled own db" by (auto simp: row_settled_def row_of_def settle_params_def)
  ultimately show ?thesis using client_step_refl [OF inv nil] by simp
qed

text \<open>A call to the database after the other clients' steps.\<close>

lemma pg_call_step:
  assumes good: "pg_good l" and run: "pg_call op l = (out, l')"
    and op: "\<And>db db'. budget_inv db \<Longrightarrow> 0 \<notin> br_id ` set (bd_rows db) \<Longrightarrow> follows (pg_db l) db \<Longrightarrow>
      op (pg_env l (pg_calls l)) db = (out, db') \<Longrightarrow> client_step db db' \<and> P db'"
  shows "pg_good l' \<and> follows (pg_db l) (pg_db l') \<and> P (pg_db l')"
proof -
  let ?db = "pg_others l (pg_calls l) (pg_db l)"
  from good have others: "client_step (pg_db l) ?db" by (simp add: pg_good_def)
  obtain db' where db': "op (pg_env l (pg_calls l)) ?db = (out, db')" "l' = l\<lparr>pg_db := db', pg_calls := Suc (pg_calls l)\<rparr>"
    using run by (auto simp: pg_call_def split: prod.splits)
  from op [OF _ _ _ db'(1)] others have step: "client_step ?db db'" "P db'" by (auto simp: client_step_def)
  from client_step_trans [OF others step(1)] step(2) good show ?thesis by (auto simp: db'(2) pg_good_def client_step_def)
qed

lemma pg_settle:
  assumes good: "pg_good l" and known: "row_known own (pg_db l)"
    and keep: "\<And>r. br_id (f r) = br_id r \<and> reservation_key (f r) = reservation_key r \<and> br_version (f r) = br_version r + 1"
    and check: "\<And>r. br_check r \<Longrightarrow> br_state r = BClaimed \<Longrightarrow> br_version r \<noteq> last_version \<Longrightarrow> br_check (f r)"
    and run: "pg_call (\<lambda>e. settle e own f idem) l = (out, l')"
  shows "pg_good l' \<and> follows (pg_db l) (pg_db l') \<and> row_settled own (pg_db l')"
  using good run
proof (rule pg_call_step)
  have "\<not> be_fault (pe_db (pg_env l (pg_calls l)))" using good by (simp add: pg_good_def)
  then show "client_step db db' \<and> row_settled own db'"
    if "budget_inv db" "0 \<notin> br_id ` set (bd_rows db)" "follows (pg_db l) db" "settle (pg_env l (pg_calls l)) own f idem db = (out, db')"
    for db db'
    using that keep check known_follows [OF known that(3)] by (intro settle_settles [of db]) auto
qed

lemma pg_release:
  assumes "pg_good l" "row_known own (pg_db l)" "ldRelease (postgres_ledger lease) own l = (out, l')"
  shows "pg_good l' \<and> follows (pg_db l) (pg_db l') \<and> row_settled own (pg_db l')"
proof -
  have "validReservation own" using assms(2) by (simp add: row_known_def)
  with assms(3) have run: "pg_call (\<lambda>e. settle e own release_fields (\<lambda>settled.
      br_version settled = wrap64 (rVersion own + 1) \<and> br_state settled = BReleased)) l = (out, l')"
    by (simp add: postgres_ledger_def Release_def)
  show ?thesis
    by (rule pg_settle [OF assms(1,2) _ _ run])
      (auto simp: release_fields_def reservation_key_def br_check_def last_version_def)
qed

lemma pg_finalize:
  assumes "pg_good l" "row_known own (pg_db l)" "0 \<le> amount" "amount \<le> MaxInt64"
    and "ldFinalize (postgres_ledger lease) own amount (Some quality) l = (out, l')"
  shows "pg_good l' \<and> follows (pg_db l) (pg_db l') \<and> row_settled own (pg_db l')"
proof -
  have "validReservation own" using assms(2) by (simp add: row_known_def)
  with assms(3,5) have run: "pg_call (\<lambda>e. settle e own (finalize_fields amount quality) (\<lambda>settled.
      br_version settled = wrap64 (rVersion own + 1) \<and> finalizedMatches settled amount quality)) l = (out, l')"
    by (simp add: postgres_ledger_def Finalize_def)
  show ?thesis
    using assms(3,4) by (intro pg_settle [OF assms(1,2) _ _ run])
      (auto simp: finalize_fields_def reservation_key_def br_check_def last_version_def int_column_def MaxInt64_def)
qed

subsection \<open>Claims\<close>

text \<open>What a claim that returns can have written.\<close>

lemma Claim_written:
  assumes inv: "budget_inv db" and run: "Claim lease e p q db = (Inr out, db')"
  defines "req \<equiv> normal_request q"
  obtains (refused) "oKind out \<noteq> ClaimOwned" "db' = db"
    | (expired) row where "oKind out \<noteq> ClaimOwned" "row \<in> set (key_rows p (qKey req) db)" "br_state row = BClaimed"
        "db' = db\<lparr>bd_rows := sql_update (\<lambda>r. br_id r = br_id row) expire_fields (bd_rows db)\<rparr>" "budget_inv db'"
    | (fresh) period row where "row = proxy_row e p req period (ledger_lease lease)" "br_check row"
        "out = owned_as p req period (br_id row) 1" "db' = db\<lparr>bd_rows := bd_rows db @ [row]\<rparr>"
        "br_id row \<notin> br_id ` set (bd_rows db)" "reservation_key row \<notin> reservation_key ` set (bd_rows db)"
    | (reset) period row where "row \<in> set (key_rows p (qKey req) db)" "out = owned_as p req period (br_id row) (br_version row + 1)"
        "db' = db\<lparr>bd_rows := sql_update (\<lambda>r. br_id r = br_id row) (proxy_reset_fields e req period (ledger_lease lease)) (bd_rows db)\<rparr>"
        "br_check (proxy_reset_fields e req period (ledger_lease lease) row)"
proof -
  from Claim_Inr(3) [OF run] have "claimInTx (ledger_lease lease) e p req db = (Inr out, db')" by (simp add: req_def)
  then consider (none) "out = outcome_of ClaimNoCap" "db' = db"
    | (new) period where "claimFresh e p req period (ledger_lease lease) db = (Inr out, db')"
    | (old) period row where "row \<in> set (key_rows p (qKey req) db)"
        "resolveExisting e p req period (ledger_lease lease) row db = (Inr out, db')"
    by (auto simp: claimInTx_def loadActivePeriod_def loadReservation_def proxy_inv split: option.splits dest: sql_first_Some)
  then show thesis
  proof cases
    case none
    then show thesis by (intro refused) (simp_all add: outcome_of_def)
  next
    case new
    then consider "oKind out \<noteq> ClaimOwned" "db' = db" | row where
        "insert_reservation (pe_db e) (proxy_row e p req period (ledger_lease lease)) db = (Inr (Some row), db')"
        "out = ownedOutcome p req (bp_id period) row"
      by (auto simp: claimFresh_def activeHoldCents_def proxy_inv exceededOutcome_def outcome_of_def Let_def insert_reservation_def
          split: option.splits if_splits)
    then show thesis
    proof cases
      case 2
      note row = insert_reservation_Some [OF 2(1)]
      from 2(2) row(1) have "out = owned_as p req period (br_id row) 1"
        by (simp add: ownedOutcome_def owned_as_code proxy_row_def)
      with row show thesis by (intro fresh [of row period]) simp_all
    qed (rule refused)
  next
    case old
    have row: "row \<in> set (bd_rows db)" "reservation_has_key (pOrgID p) (pAgentID p) (qKey req) row"
      using old(1) by simp_all
    from old(2) consider "oKind out \<noteq> ClaimOwned" "db' = db"
      | u where "oKind out \<noteq> ClaimOwned" "expireStaleClaim p (qKey req) row db = (Inr u, db')"
      | "resetHeldRow e p req period (ledger_lease lease) row db = (Inr out, db')"
      by (auto simp: resolveExisting_def activeHoldCents_def proxy_inv exceededOutcome_def outcome_of_def Let_def split: if_splits)
    then show thesis
    proof cases
      case 2
      from expireStaleClaim_Inr [OF inv row 2(2)] have w: "db' = (if br_state row = BClaimed
          then db\<lparr>bd_rows := sql_update (\<lambda>r. br_id r = br_id row) expire_fields (bd_rows db)\<rparr> else db)" "effect 0 db db'" by auto
      with 2(1) old(1) inv effect_inv show thesis by (cases "br_state row = BClaimed") (auto intro: refused expired)
    next
      case 3
      with resetHeldRow_written [OF inv row 3] old(1) show thesis by (intro reset) simp_all
    qed (rule refused)
  qed
qed


text \<open>A claim that is answered as owned hands out a known reservation, of an estimate the column can hold.\<close>

lemma owned_known:
  assumes valid: "validClaimRequest p req" and out: "out = owned_as p req period (br_id row) (br_version row)"
    and row: "row \<in> set (bd_rows db')" "reservation_has_key (pOrgID p) (pAgentID p) (qKey req) row" "br_id row \<noteq> 0"
  shows "row_known (claimed_reservation out) db'"
  using assms by (auto simp: owned_as_def row_known_def row_of_def claimed_reservation_def validReservation_def
      validClaimRequest_def)

lemma Claim_step:
  assumes inv: "budget_inv db" and nil: "0 \<notin> br_id ` set (bd_rows db)" and uuid: "be_uuid (pe_db e) \<noteq> 0"
    and run: "Claim lease e p q db = (Inr out, db')"
  shows "client_step db db' \<and> (oKind out = ClaimOwned \<longrightarrow>
    row_known (claimed_reservation out) db' \<and> 0 \<le> qEstimatedCents q \<and> qEstimatedCents q \<le> MaxInt64)"
proof -
  let ?req = "normal_request q"
  note valid = Claim_Inr(2) [OF run]
  have req: "qEstimatedCents ?req = qEstimatedCents q" by (simp add: normal_request_def)
  have est: "0 \<le> qEstimatedCents q" using valid by (simp add: validClaimRequest_def req)
  show ?thesis
    using inv run
  proof (cases rule: Claim_written)
    case refused
    with client_step_refl [OF inv nil] show ?thesis by simp
  next
    case (expired row)
    have "row \<in> set (bd_rows db)" using expired(2) by simp
    moreover from this expired(4,5) have "br_check (expire_fields row)"
      by (intro budget_invD(3) [OF expired(5)]) (auto simp: set_sql_update)
    ultimately show ?thesis using expired(1,4) client_step_update [OF inv nil, of row expire_fields]
      by (simp add: expire_fields_def reservation_key_def)
  next
    case (fresh period row)
    have "budget_inv db'" "follows db db'" using inv fresh by (auto simp: budget_inv_def follows_def row_follows_def)
    moreover have "br_id row \<noteq> 0" "br_version row = 1" "br_estimated row = qEstimatedCents q"
      "reservation_has_key (pOrgID p) (pAgentID p) (qKey ?req) row"
      using uuid by (simp_all add: fresh(1) proxy_row_def req reservation_has_key_def)
    moreover from this have "row_known (claimed_reservation out) db'"
      using fresh(3,4) by (intro owned_known [OF valid]) simp_all
    ultimately show ?thesis using nil fresh(2,4) est by (simp add: client_step_def br_check_def int_column_def MaxInt64_def)
  next
    case (reset period row)
    let ?f = "proxy_reset_fields e ?req period (ledger_lease lease)"
    have row: "row \<in> set (bd_rows db)" "reservation_has_key (pOrgID p) (pAgentID p) (qKey ?req) row" using reset(1) by simp_all
    have f: "br_id (?f row) = br_id row" "reservation_key (?f row) = reservation_key row" "br_version (?f row) = br_version row + 1"
      "br_estimated (?f row) = qEstimatedCents q" "reservation_has_key (pOrgID p) (pAgentID p) (qKey ?req) (?f row)"
      using row(2) by (simp_all add: proxy_reset_fields_def reservation_key_def reservation_has_key_def req)
    have "client_step db db'" using client_step_update [OF inv nil row(1), of ?f] f reset(4) by (simp add: reset(3))
    moreover have "?f row \<in> set (bd_rows db')" using row(1) by (auto simp: reset(3) set_sql_update)
    then have "row_known (claimed_reservation out) db'"
      using reset(2) f row(1) nil by (intro owned_known [OF valid, of _ period "?f row"]) auto
    ultimately show ?thesis using reset(4) f(4) est by (simp add: br_check_def int_column_def MaxInt64_def)
  qed
qed

lemma pg_claim:
  assumes good: "pg_good l" and run: "ldClaim (postgres_ledger lease) p q l = (out, l')"
  shows "pg_good l' \<and> follows (pg_db l) (pg_db l') \<and> (\<forall>c. out = Inr c \<and> oKind c = ClaimOwned \<longrightarrow>
    row_known (claimed_reservation c) (pg_db l') \<and> 0 \<le> qEstimatedCents q \<and> qEstimatedCents q \<le> MaxInt64)"
proof (rule pg_call_step [OF good])
  show "pg_call (\<lambda>e. Claim lease e p q) l = (out, l')" using run by (simp add: postgres_ledger_def)
  fix db db'
  assume db: "budget_inv db" "0 \<notin> br_id ` set (bd_rows db)" and call: "Claim lease (pg_env l (pg_calls l)) p q db = (out, db')"
  have uuid: "be_uuid (pe_db (pg_env l (pg_calls l))) \<noteq> 0" using good by (simp add: pg_good_def)
  show "client_step db db' \<and> (\<forall>c. out = Inr c \<and> oKind c = ClaimOwned \<longrightarrow>
      row_known (claimed_reservation c) db' \<and> 0 \<le> qEstimatedCents q \<and> qEstimatedCents q \<le> MaxInt64)"
  proof (cases out)
    case (Inl err)
    with call proxy_rollback(1) [of lease "pg_env l (pg_calls l)" p q db err] client_step_refl [OF db] show ?thesis by simp
  next
    case (Inr c)
    with call Claim_step [OF db uuid] show ?thesis by simp
  qed
qed

interpretation pg: hold_store "postgres_ledger lease" pg_good "\<lambda>own l. row_known own (pg_db l)"
  "\<lambda>own l. row_settled own (pg_db l)" for lease
proof
  fix lease l p q out l'
  assume "pg_good l" "ldClaim (postgres_ledger lease) p q l = (out, l')"
  from pg_claim [OF this] known_follows settled_follows
  show "pg_good l' \<and> (\<forall>own. (row_known own (pg_db l) \<longrightarrow> row_known own (pg_db l')) \<and>
      (row_settled own (pg_db l) \<longrightarrow> row_settled own (pg_db l'))) \<and>
    (\<forall>c. out = Inr c \<and> oKind c = ClaimOwned \<longrightarrow>
      row_known (claimed_reservation c) (pg_db l') \<and> 0 \<le> qEstimatedCents q \<and> qEstimatedCents q \<le> MaxInt64)" by blast
next
  fix lease l own out l'
  assume "pg_good l" "row_known own (pg_db l)" "ldRelease (postgres_ledger lease) own l = (out, l')"
  from pg_release [OF this] known_follows settled_follows
  show "pg_good l' \<and> row_settled own (pg_db l') \<and> (\<forall>other. (row_known other (pg_db l) \<longrightarrow> row_known other (pg_db l')) \<and>
      (row_settled other (pg_db l) \<longrightarrow> row_settled other (pg_db l')))" by blast
next
  fix lease l own amount quality out l'
  assume "pg_good l" "row_known own (pg_db l)" "0 \<le> amount" "amount \<le> MaxInt64"
    "ldFinalize (postgres_ledger lease) own amount (Some quality) l = (out, l')"
  from pg_finalize [OF this] known_follows settled_follows
  show "pg_good l' \<and> row_settled own (pg_db l') \<and> (\<forall>other. (row_known other (pg_db l) \<longrightarrow> row_known other (pg_db l')) \<and>
      (row_settled other (pg_db l) \<longrightarrow> row_settled other (pg_db l')))" by blast
qed


section \<open>A request leaves no hold behind\<close>

text \<open>What the worker and other proxies do to the table is such a step, as long as no row gets the nil id.\<close>

lemma shared_run_step:
  assumes "budget_inv db" and "run_legal shared_legal (exec_shared lw lp) cs db"
    and "0 \<notin> br_id ` set (bd_rows (run_all (exec_shared lw lp) cs db))"
  shows "client_step db (run_all (exec_shared lw lp) cs db)"
  using shr.both.run_keeps [OF assms(1)] assms(2,3)
  by (simp add: client_step_def exec_shared_def shared_legal_def)

text \<open>
  C1. A chat request settles every hold it took. On the database ledger, from a table that keeps its invariant, the
  table keeps it, and every reservation with which one of the request's claims was answered is settled when the request
  ends: its row is still there and has a later version or is not claimed. This is so whatever the provider, the fallback
  chain and the client do and whatever the other clients of the table do between the request's calls, claims and sweeps
  of the same key included, under these conditions: the request's transactions run and its generated ids are not nil;
  the other clients keep the invariant, give no row the nil id, remove no row and rewrite rows only with a larger
  version, as the worker and the other proxies do. The exceptions are a stream to a writer that cannot be flushed, and a row whose
  version is the largest the column can hold.
\<close>

theorem chat_frees_budget:
  assumes "chBudgetLedger h = Some (postgres_ledger lease)" "chBudgetCache h" "hqReservation r = None"
    and "cs_log s = []" "cs_heap s = []" "pg_good (cs_ledger s)"
    and "run_state (serve h post r (Some body) prov flusher) s = (x, t)"
  shows "budget_inv (pg_db (cs_ledger t)) \<and>
    ((\<forall>q c. EvClaim q (Inr c) \<in> set (cs_log t) \<and> oKind c = ClaimOwned \<longrightarrow>
        row_settled (claimed_reservation c) (pg_db (cs_ledger t))) \<or> ccStream body \<and> \<not> flusher)"
  using pg.request_settles [OF assms] unfolding pg_good_def owned_by_def by blast

section \<open>A request that falls back\<close>

text \<open>
  The primary model answers 503, the policy names a second one, and the request ends with one finalized row at
  the measured price of the second call.
\<close>

definition sample_postgres :: "budget_db \<Rightarrow> postgres" where
  "sample_postgres db = \<lparr>pg_db = db, pg_calls = 0, pg_env = (\<lambda>n. sample_proxy (int n) (int n) (Suc n)), pg_others = (\<lambda>_ db. db)\<rparr>"

abbreviation sample_serve :: "bool \<Rightarrow> (postgres, unit) chat" where
  "sample_serve flusher \<equiv>
     serve (sample_handler (postgres_ledger 0)) True sample_http (Some sample_body) (Some ''openai'') flusher"

definition sample_end :: "postgres chat_state" where
  "sample_end = snd (run_state (sample_serve True) (sample_start (sample_postgres sample_db)))"

lemma sample_run: "run_state (sample_serve True) (sample_start (sample_postgres sample_db)) = ((), sample_end)"
  by (simp add: sample_end_def prod_eq_iff)

lemma sample_settled:
  "List.map (\<lambda>row. (br_state row, br_estimated row, br_final row, br_version row)) (bd_rows (pg_db (cs_ledger sample_end))) =
     [(BFinalized, 21, Some 7, 4)]"
  by code_simp

lemma sample_setup [simp]:
  "chBudgetLedger (sample_handler ledger) = Some ledger" "chBudgetCache (sample_handler ledger)"
  "hqReservation sample_http = None" "cs_log (sample_start l) = []" "cs_heap (sample_start l) = []" "cs_ledger (sample_start l) = l"
  "budgetAdmissionIDs sample_http = Some (sample_tenant, ''chat:r1'')" "ccStream sample_body = False"
  "trim_space ''chat:r1'' = ''chat:r1''"
  by (simp_all add: sample_handler_def sample_http_def sample_start_def sample_body_def budgetAdmissionIDs_def
      tenantIDsFromContext_def budgetReservationKey_def sample_tenant_def) code_simp

text \<open>The same request while the worker's reaper, with a clock far ahead, expires its hold before every call.\<close>

definition late_sweep :: "budget_db \<Rightarrow> budget_db" where
  "late_sweep db = run_all (exec_shared 0 0) [Inl (sample_env 2000 0, BSweep 60 10)] db"

lemma late_sweep_step:
  assumes "budget_inv db" "0 \<notin> br_id ` set (bd_rows db)"
  shows "client_step db (late_sweep db)"
  unfolding late_sweep_def
proof (rule shared_run_step [OF assms(1)])
  have "br_id ` set (bd_rows (snd (expire_stale e g n db))) = br_id ` set (bd_rows db)" for e g n
  proof (cases "expire_stale e g n db")
    case (Pair out db')
    then show ?thesis
    proof (cases out)
      case (Inl x)
      with Pair expire_stale_rollback [of e g n db x] show ?thesis by simp
    next
      case (Inr k)
      have ids: "br_id ` set (sql_update q expire_fields rows) = br_id ` set rows" for q and rows :: "reservation list"
        unfolding set_map [symmetric] by (simp add: map_sql_update expire_fields_def del: set_map)
      from Pair Inr have "expire_stale e g n db = (Inr k, db')" by simp
      note written = expire_stale_Inr(4) [OF this]
      show ?thesis unfolding Pair by (simp add: written ids)
    qed
  qed
  moreover have "run_all (exec_shared 0 0) [Inl (e, BSweep g n)] db = snd (expire_stale e g n db)" for e g n
    by (simp add: exec_shared_def tx_bind_def tx_return_def split: prod.splits sum.splits)
  ultimately show "0 \<notin> br_id ` set (bd_rows (run_all (exec_shared 0 0) [Inl (sample_env 2000 0, BSweep 60 10)] db))"
    using assms(2) by simp
qed (simp add: shared_legal_def)

definition swept_postgres :: postgres where
  "swept_postgres = (sample_postgres sample_db)\<lparr>pg_others := \<lambda>_. late_sweep\<rparr>"

definition swept_end :: "postgres chat_state" where
  "swept_end = snd (run_state (sample_serve True) (sample_start swept_postgres))"

lemma swept_run: "run_state (sample_serve True) (sample_start swept_postgres) = ((), swept_end)"
  by (simp add: swept_end_def prod_eq_iff)

lemma swept_good: "pg_good swept_postgres"
  using sample_inv late_sweep_step
  by (simp add: pg_good_def swept_postgres_def sample_postgres_def sample_proxy_def sample_env_def sample_db_def)

lemma chat_holds_covered_witness:
  "\<exists>ph. hold_trace (chat_rules (sample_handler (postgres_ledger 0)) sample_body) Idle (cs_log sample_end) = Some ph \<and>
    (\<forall>own estimate. ph \<noteq> Held own estimate)"
  using chat_holds_covered [OF sample_setup(1-3) _ _ sample_run] by simp

definition run_summary :: "postgres chat_state \<Rightarrow> bool \<times> (reservation_state \<times> int) list" where
  "run_summary t = (list_ex (\<lambda>ev. case ev of EvClaim q (Inr c) \<Rightarrow> oKind c = ClaimOwned | _ \<Rightarrow> False) (cs_log t),
     List.map (\<lambda>row. (br_state row, br_version row)) (bd_rows (pg_db (cs_ledger t))))"

lemma swept_summary: "run_summary swept_end = (True, [(BExpired, 4)])"
  by code_simp

lemma swept_claims:
  "list_ex (\<lambda>ev. case ev of EvClaim q (Inr c) \<Rightarrow> oKind c = ClaimOwned | _ \<Rightarrow> False) (cs_log swept_end) \<and>
   List.map (\<lambda>row. (br_state row, br_version row)) (bd_rows (pg_db (cs_ledger swept_end))) = [(BExpired, 4)]"
  using swept_summary by (simp add: run_summary_def)

lemma chat_frees_budget_witness:
  "budget_inv (pg_db (cs_ledger swept_end)) \<and>
   (\<exists>q c. EvClaim q (Inr c) \<in> set (cs_log swept_end) \<and> oKind c = ClaimOwned \<and>
     row_settled (claimed_reservation c) (pg_db (cs_ledger swept_end))) \<and>
   List.map (\<lambda>row. (br_state row, br_version row)) (bd_rows (pg_db (cs_ledger swept_end))) = [(BExpired, 4)]"
proof -
  obtain ev where ev: "ev \<in> set (cs_log swept_end)"
      "case ev of EvClaim q (Inr c) \<Rightarrow> oKind c = ClaimOwned | _ \<Rightarrow> False"
    using swept_claims unfolding list_ex_iff by blast
  from ev(2) obtain q c where "ev = EvClaim q (Inr c)" "oKind c = ClaimOwned"
    by (cases ev) (auto split: sum.split_asm)
  with ev(1) have c: "EvClaim q (Inr c) \<in> set (cs_log swept_end)" "oKind c = ClaimOwned" by simp_all
  from chat_frees_budget [OF sample_setup(1-3) _ _ _ swept_run] swept_good c swept_claims show ?thesis by auto
qed

lemma sample_uncancelled: "uncancelled (sample_handler (postgres_ledger 0))"
  by (simp add: uncancelled_def sample_handler_def sample_services_def sample_failure_def is_err_def)

lemma sample_reply:
  "map_option (\<lambda>reply. (fst reply, snd reply = Settled)) (monitor reply_step (None, Unkeyed) (cs_log sample_end)) =
     Some (Some (200, ''{}''), True)"
  by code_simp

lemma chat_reply_faithful_witness:
  "uncancelled (sample_handler (postgres_ledger 0)) \<and>
   (\<exists>reply. monitor reply_step (None, Unkeyed) (cs_log sample_end) = Some reply \<and> fst reply = Some (200, ''{}'') \<and> snd reply = Settled \<and>
     (\<forall>c. snd reply \<noteq> Owner c))"
  using chat_reply_faithful [OF _ sample_run] sample_uncancelled sample_reply by auto

lemma sample_calls: "List.map (\<lambda>(prov, req). (prov, prModel req)) (calls_of (cs_log sample_end)) =
    [(''openai'', ''gpt-4o''), (''openai'', ''gpt-mini'')]"
  by code_simp

lemma chat_calls_bounded_witness:
  "\<exists>req rest. calls_of (cs_log sample_end) = (''openai'', req) # rest \<and> \<not> hasUpstreamOverride req \<and>
    List.map (\<lambda>(prov, hop). (prModel hop, prAPIKeyOverride hop)) rest = [(''gpt-mini'', [])]"
proof -
  from chat_calls_bounded [OF _ sample_run]
  have "calls_of (cs_log sample_end) = [] \<or> (\<exists>req rest. calls_of (cs_log sample_end) = (''openai'', req) # rest \<and>
      (\<forall>(prov, hop) \<in> set rest. \<not> hasUpstreamOverride req \<and> prAPIKeyOverride hop = ''''))"
    by fastforce
  with sample_calls show ?thesis by auto
qed

end
