(* ===== verification/Idempotency_Ledger.thy ===== *)
theory Idempotency_Ledger
  imports Ibex_Prelude
begin

text \<open>
  The request-idempotency ledger of \<open>packages/ibex_idempotency\<close> (\<open>ledger.py\<close>): the table
  \<open>ibex_core.idempotency_ledger\<close> as a list of rows, each SQL statement of the adapter as a
  function on it, and \<open>claim\<close>, \<open>finalize\<close>, \<open>release\<close> composed from them the way the code
  does. A second part interleaves many clients statement by statement and shows fencing, single
  finalisation and stable replay.
\<close>

section \<open>Data\<close>

text \<open>The states the table's CHECK constraint admits; the adapter writes the first two.\<close>

datatype ledger_state = Claimed | Finalized | Reconciling | Failed_terminal

record ledger_row =
  lr_id :: uuid
  lr_org :: uuid
  lr_agent :: uuid
  lr_key :: string
  lr_hash :: string
  lr_state :: ledger_state
  lr_status :: "int option"
  lr_response :: "bytes option"
  lr_lease :: "usec option"
  lr_version :: int

record claim_token =
  ct_id :: uuid
  ct_org :: uuid
  ct_agent :: uuid
  ct_key :: string
  ct_hash :: string
  ct_version :: int

datatype claim_kind = KIND_OWNED | KIND_REPLAY | KIND_CONFLICT | KIND_IN_PROGRESS

record claim_outcome =
  co_kind :: claim_kind
  co_claim :: "claim_token option"
  co_status :: "int option"
  co_response :: "bytes option"
  co_retry_after :: "int option"

definition outcome :: "claim_kind \<Rightarrow> claim_token \<Rightarrow> claim_outcome" where
  "outcome k t = \<lparr>co_kind = k, co_claim = Some t, co_status = None, co_response = None,
     co_retry_after = None\<rparr>"

record resolve_context =
  rc_org :: uuid
  rc_agent :: uuid
  rc_key :: string
  rc_hash :: string
  rc_lease :: usec

text \<open>
  The ledger's own errors; \<open>PythonError\<close> is an exception of another class that escapes.
\<close>

datatype ledger_error =
    LedgerError string
  | LedgerValidationError string
  | LedgerConflictError string
  | PythonError string

text \<open>What a statement can raise before the adapter's handlers translate it.\<close>

datatype exc =
    IntegrityExc string  \<comment> \<open>\<open>IntegrityError\<close> with its SQLSTATE\<close>
  | DriverExc string  \<comment> \<open>another driver or connection error, by class name\<close>
  | LedgerExc ledger_error

text \<open>
  What the outside world supplies to one call: \<open>NOW()\<close> of its transaction, Python's
  \<open>time.time()\<close>, the UUID \<open>gen_random_uuid()\<close> would give to an inserted row, the agents the
  foreign key knows, and a driver failure if there is one.
\<close>

record env =
  env_now :: usec
  env_time :: usec
  env_uuid :: uuid
  env_agents :: "(uuid \<times> uuid) list"
  env_fault :: "string option"

type_synonym ledger_db = "ledger_row list"

section \<open>Statements\<close>

definition has_key :: "uuid \<Rightarrow> uuid \<Rightarrow> string \<Rightarrow> ledger_row \<Rightarrow> bool" where
  "has_key org_id agent_id key r \<longleftrightarrow> lr_org r = org_id \<and> lr_agent r = agent_id \<and> lr_key r = key"

text \<open>
  \<open>INSERT ... ON CONFLICT DO NOTHING RETURNING\<close>: PostgreSQL checks the CHECK constraints of the
  proposed row first, then the conflict target, then the primary key, and the foreign keys once
  a row was inserted.
\<close>

definition new_row :: "env \<Rightarrow> resolve_context \<Rightarrow> ledger_row" where
  "new_row e c = \<lparr>lr_id = env_uuid e, lr_org = rc_org c, lr_agent = rc_agent c, lr_key = rc_key c,
     lr_hash = rc_hash c, lr_state = Claimed, lr_status = None, lr_response = None,
     lr_lease = Some (env_now e + rc_lease c), lr_version = 1\<rparr>"

definition insert_claim :: "env \<Rightarrow> resolve_context \<Rightarrow> (ledger_db, exc, ledger_row option) tx" where
  "insert_claim e c = (\<lambda>db.
     if \<not> is_hash (rc_hash c) \<or> rc_key c = [] \<or> 256 < length (rc_key c)
     then (Inl (IntegrityExc ''23514''), db)
     else if \<exists>r \<in> set db. has_key (rc_org c) (rc_agent c) (rc_key c) r then (Inr None, db)
     else if \<exists>r \<in> set db. lr_id r = env_uuid e then (Inl (IntegrityExc ''23505''), db)
     else if (rc_org c, rc_agent c) \<notin> set (env_agents e) then (Inl (IntegrityExc ''23503''), db)
     else (Inr (Some (new_row e c)), db @ [new_row e c]))"

definition load_claim :: "resolve_context \<Rightarrow> (ledger_db, exc, ledger_row option) tx" where
  "load_claim c = tx_get (sql_first (has_key (rc_org c) (rc_agent c) (rc_key c)))"

definition insert_or_load ::
  "env \<Rightarrow> resolve_context \<Rightarrow> (ledger_db, exc, ledger_row option \<times> bool) tx" where
  "insert_or_load e c =
     tx_bind (insert_claim e c) (\<lambda>inserted. case inserted of
       Some row \<Rightarrow> tx_return (Some row, True)
     | None \<Rightarrow> tx_bind (load_claim c) (\<lambda>loaded. tx_return (loaded, False)))"

definition claim_from_row :: "ledger_row \<Rightarrow> resolve_context \<Rightarrow> claim_token" where
  "claim_from_row row c = \<lparr>ct_id = lr_id row, ct_org = rc_org c, ct_agent = rc_agent c,
     ct_key = rc_key c, ct_hash = lr_hash row, ct_version = lr_version row\<rparr>"

definition reclaimable :: "env \<Rightarrow> ledger_row \<Rightarrow> resolve_context \<Rightarrow> ledger_row \<Rightarrow> bool" where
  "reclaimable e row c r \<longleftrightarrow>
     lr_id r = lr_id row \<and> has_key (rc_org c) (rc_agent c) (rc_key c) r \<and> lr_hash r = rc_hash c \<and>
     lr_state r = Claimed \<and> (case lr_lease r of None \<Rightarrow> False | Some x \<Rightarrow> x \<le> env_now e)"

definition reclaim ::
  "env \<Rightarrow> ledger_row \<Rightarrow> claim_token \<Rightarrow> resolve_context \<Rightarrow> (ledger_db, exc, claim_outcome) tx" where
  "reclaim e row t c = (\<lambda>db.
     let bump = (\<lambda>r. r\<lparr>lr_lease := Some (env_now e + rc_lease c), lr_version := lr_version r + 1\<rparr>);
         db' = sql_update (reclaimable e row c) bump db
     in case sql_first (reclaimable e row c) db of
          None \<Rightarrow> (Inr ((outcome KIND_IN_PROGRESS t)\<lparr>co_retry_after := Some 1\<rparr>), db')
        | Some r \<Rightarrow> (Inr (outcome KIND_OWNED (t\<lparr>ct_version := lr_version (bump r)\<rparr>)), db'))"

definition resolve_existing_row ::
  "env \<Rightarrow> ledger_row \<Rightarrow> claim_token \<Rightarrow> resolve_context \<Rightarrow> (ledger_db, exc, claim_outcome) tx" where
  "resolve_existing_row e row t c =
     (if lr_state row = Finalized then
        (case (lr_status row, lr_response row) of
           (Some status, Some response) \<Rightarrow>
             tx_return ((outcome KIND_REPLAY t)\<lparr>co_status := Some status, co_response := Some response\<rparr>)
         | _ \<Rightarrow> tx_raise (LedgerExc (PythonError ''TypeError'')))
      else case lr_lease row of
        None \<Rightarrow> tx_raise (LedgerExc (LedgerError ''unsupported ledger state''))
      | Some expires \<Rightarrow>
          if lr_state row \<noteq> Claimed then tx_raise (LedgerExc (LedgerError ''unsupported ledger state''))
          else
            let remaining = expires - env_time e in
            if 0 < remaining then
              tx_return ((outcome KIND_IN_PROGRESS t)
                \<lparr>co_retry_after := Some (max 1 (remaining div second + 1))\<rparr>)
            else reclaim e row t c)"

definition resolve_row ::
  "env \<Rightarrow> ledger_row \<Rightarrow> bool \<Rightarrow> resolve_context \<Rightarrow> (ledger_db, exc, claim_outcome) tx" where
  "resolve_row e row fresh c =
     (let t = claim_from_row row c in
      if lr_hash row \<noteq> rc_hash c then tx_return (outcome KIND_CONFLICT t)
      else if fresh then tx_return (outcome KIND_OWNED t)
      else resolve_existing_row e row t c)"

section \<open>The adapter's methods\<close>

definition validate_claim :: "string \<Rightarrow> string \<Rightarrow> ledger_error option" where
  "validate_claim key request_hash =
     (if key = [] \<or> 256 < length key then Some (LedgerError ''invalid idempotency claim'')
      else if request_hash = [] then Some (LedgerError ''invalid idempotency claim'')
      else None)"

definition as_ledger_error :: "string \<Rightarrow> ledger_error" where
  "as_ledger_error sqlstate =
     (if sqlstate = ''23503''
      then LedgerValidationError ''idempotency ledger claim references unknown rows''
      else LedgerError ''idempotency ledger rejected claim'')"

definition unavailable_error :: "string \<Rightarrow> ledger_error" where
  "unavailable_error name = LedgerError (''idempotency ledger unavailable: '' @ name)"

fun claim_handler :: "exc \<Rightarrow> ledger_error" where
  "claim_handler (IntegrityExc st) = as_ledger_error st"
| "claim_handler (DriverExc name) = unavailable_error name"
| "claim_handler (LedgerExc err) = err"

fun mutate_handler :: "exc \<Rightarrow> ledger_error" where
  "mutate_handler (IntegrityExc st) = unavailable_error ''IntegrityError''"
| "mutate_handler (DriverExc name) = unavailable_error name"
| "mutate_handler (LedgerExc err) = err"

definition with_driver :: "env \<Rightarrow> ('s, exc, 'a) tx \<Rightarrow> ('s, exc, 'a) tx" where
  "with_driver e m = (case env_fault e of None \<Rightarrow> m | Some name \<Rightarrow> tx_raise (DriverExc name))"

definition lease_interval :: "usec \<Rightarrow> usec" where
  "lease_interval lease_seconds = max second lease_seconds"

definition claim_ctx :: "usec \<Rightarrow> uuid \<Rightarrow> uuid \<Rightarrow> string \<Rightarrow> string \<Rightarrow> resolve_context" where
  "claim_ctx lease org_id agent_id key h =
     \<lparr>rc_org = org_id, rc_agent = agent_id, rc_key = key, rc_hash = h, rc_lease = lease_interval lease\<rparr>"

definition claim ::
  "usec \<Rightarrow> env \<Rightarrow> uuid \<Rightarrow> uuid \<Rightarrow> string \<Rightarrow> string \<Rightarrow> (ledger_db, ledger_error, claim_outcome) tx" where
  "claim lease e org_id agent_id key request_hash =
     (case validate_claim key request_hash of
        Some err \<Rightarrow> tx_raise err
      | None \<Rightarrow>
          let c = claim_ctx lease org_id agent_id key request_hash in
          map_error claim_handler (service_org_session (with_driver e
            (tx_bind (insert_or_load e c) (\<lambda>(row, fresh). case row of
               None \<Rightarrow> tx_raise (LedgerExc (LedgerError ''idempotency ledger row disappeared''))
             | Some r \<Rightarrow> resolve_row e r fresh c)))))"

text \<open>The fence of \<open>_FINALIZE_CLAIM_SQL\<close> and \<open>_RELEASE_CLAIM_SQL\<close>, with \<open>_claim_params\<close> bound.\<close>

definition claim_params :: "claim_token \<Rightarrow> ledger_row \<Rightarrow> bool" where
  "claim_params t r \<longleftrightarrow>
     lr_id r = ct_id t \<and> has_key (ct_org t) (ct_agent t) (ct_key t) r \<and> lr_hash r = ct_hash t \<and>
     lr_version r = ct_version t \<and> lr_state r = Claimed"

definition finalize_claim_sql :: "claim_token \<Rightarrow> int \<Rightarrow> bytes \<Rightarrow> ledger_db \<Rightarrow> ledger_db" where
  "finalize_claim_sql t status response = sql_update (claim_params t)
     (\<lambda>r. r\<lparr>lr_state := Finalized, lr_status := Some status, lr_response := Some response,
            lr_lease := None, lr_version := lr_version r + 1\<rparr>)"

definition release_claim_sql :: "claim_token \<Rightarrow> ledger_db \<Rightarrow> ledger_db" where
  "release_claim_sql t = sql_delete (claim_params t)"

definition mutate_claim ::
  "env \<Rightarrow> claim_token \<Rightarrow> (ledger_db \<Rightarrow> ledger_db) \<Rightarrow> (ledger_db, ledger_error, unit) tx" where
  "mutate_claim e t statement =
     map_error mutate_handler (service_org_session (with_driver e
       (tx_bind (tx_get (sql_count (claim_params t))) (\<lambda>rowcount.
        tx_bind (tx_put statement) (\<lambda>_.
        if rowcount \<noteq> 1 then tx_raise (LedgerExc (LedgerConflictError ''claim is no longer owned''))
        else tx_return ())))))"

definition finalize :: "env \<Rightarrow> claim_token \<Rightarrow> int \<Rightarrow> bytes \<Rightarrow> (ledger_db, ledger_error, unit) tx" where
  "finalize e t status response = mutate_claim e t (finalize_claim_sql t status response)"

definition release :: "env \<Rightarrow> claim_token \<Rightarrow> (ledger_db, ledger_error, unit) tx" where
  "release e t = mutate_claim e t (release_claim_sql t)"

text \<open>\<open>ping\<close>: the probe row of table existence and the four privileges, all of which must hold.\<close>

definition ping :: "env \<Rightarrow> bool list \<Rightarrow> (ledger_db, ledger_error, unit) tx" where
  "ping e probe = map_error mutate_handler (service_org_session (with_driver e
     (if list_all (\<lambda>b. b) probe then tx_return ()
      else tx_raise (LedgerExc (LedgerError ''idempotency ledger is not ready'')))))"

section \<open>The table's invariant\<close>

definition row_key :: "ledger_row \<Rightarrow> uuid \<times> uuid \<times> string" where
  "row_key r = (lr_org r, lr_agent r, lr_key r)"

definition row_ok :: "ledger_row \<Rightarrow> bool" where
  "row_ok r \<longleftrightarrow> 1 \<le> lr_version r \<and> is_hash (lr_hash r) \<and> lr_key r \<noteq> [] \<and> length (lr_key r) \<le> 256 \<and>
     (lr_state r = Finalized \<longrightarrow> lr_status r \<noteq> None \<and> lr_response r \<noteq> None) \<and>
     (lr_state r = Claimed \<longrightarrow> lr_lease r \<noteq> None)"

definition ledger_inv :: "ledger_db \<Rightarrow> bool" where
  "ledger_inv db \<longleftrightarrow> distinct (map lr_id db) \<and> distinct (map row_key db) \<and> (\<forall>r \<in> set db. row_ok r)"

lemma ledger_invD:
  assumes "ledger_inv db"
  shows "distinct (map lr_id db)" and "distinct (map row_key db)" and "r \<in> set db \<Longrightarrow> row_ok r"
  using assms by (auto simp: ledger_inv_def)

lemma has_key_row_key: "has_key org agent key r \<longleftrightarrow> row_key r = (org, agent, key)"
  by (auto simp: has_key_def row_key_def)

lemma has_key_self [simp]: "has_key (lr_org r) (lr_agent r) (lr_key r) r"
  by (simp add: has_key_def)

text \<open>A statement that updates rows in place without touching their identity.\<close>

lemma ledger_inv_update:
  assumes "ledger_inv db"
    and "\<And>r. r \<in> set db \<Longrightarrow> p r \<Longrightarrow> lr_id (f r) = lr_id r \<and> row_key (f r) = row_key r \<and> row_ok (f r)"
  shows "ledger_inv (sql_update p f db)"
proof -
  have "map lr_id (sql_update p f db) = map lr_id db" and "map row_key (sql_update p f db) = map row_key db"
    using assms(2) by (simp_all add: map_sql_update)
  with assms show ?thesis
    by (auto simp: ledger_inv_def set_sql_update)
qed

lemma ledger_inv_delete: "ledger_inv db \<Longrightarrow> ledger_inv (sql_delete p db)"
  by (auto simp: ledger_inv_def set_sql_delete intro: distinct_sql_delete)

lemma insert_claim_Some:
  assumes "insert_claim e c db = (Inr (Some row), db')"
  shows "db' = db @ [row]" and "lr_id row = env_uuid e" and "lr_version row = 1"
    and "row_key row = (rc_org c, rc_agent c, rc_key c)" and "lr_hash row = rc_hash c"
    and "lr_state row = Claimed" and "lr_lease row = Some (env_now e + rc_lease c)"
    and "is_hash (rc_hash c)" and "rc_key c \<noteq> [] \<and> length (rc_key c) \<le> 256"
    and "lr_key row = rc_key c" and "row_key row \<notin> row_key ` set db" and "lr_id row \<notin> lr_id ` set db"
  using assms by (auto simp: insert_claim_def new_row_def row_key_def has_key_def split: if_splits)

lemma insert_claim_None:
  assumes "insert_claim e c db = (Inr None, db')"
  shows "db' = db" and "\<exists>r \<in> set db. has_key (rc_org c) (rc_agent c) (rc_key c) r"
  using assms by (auto simp: insert_claim_def new_row_def split: if_splits)

lemma insert_claim_error: "insert_claim e c db = (Inl x, db') \<Longrightarrow> db' = db"
  by (auto simp: insert_claim_def new_row_def split: if_splits)

lemma ledger_inv_insert:
  assumes "ledger_inv db" and "insert_claim e c db = (Inr (Some row), db')"
  shows "ledger_inv db'"
proof -
  note ins = insert_claim_Some [OF assms(2)]
  have "row_ok row" using ins by (simp add: row_ok_def)
  with assms(1) ins show ?thesis by (auto simp: ledger_inv_def)
qed

text \<open>
  The row an existing claim resolves to is changed in one way only: an expired lease is taken
  over, which raises its version by one and hands out a token for the new version.
\<close>

definition taken_over :: "env \<Rightarrow> resolve_context \<Rightarrow> ledger_row \<Rightarrow> ledger_row" where
  "taken_over e c r = r\<lparr>lr_lease := Some (env_now e + rc_lease c), lr_version := lr_version r + 1\<rparr>"

lemma reclaim_result:
  assumes inv: "ledger_inv db" and row: "row \<in> set db"
  shows "reclaim e row t c db =
    (if reclaimable e row c row
     then (Inr (outcome KIND_OWNED (t\<lparr>ct_version := lr_version row + 1\<rparr>)),
           sql_update (\<lambda>r. r = row) (taken_over e c) db)
     else (Inr ((outcome KIND_IN_PROGRESS t)\<lparr>co_retry_after := Some 1\<rparr>), db))"
proof (cases "reclaimable e row c row")
  case True
  have same: "reclaimable e row c r \<longleftrightarrow> r = row" if "r \<in> set db" for r
    using that True row ledger_invD(1) [OF inv]
    by (auto simp: reclaimable_def intro: distinct_key_eq)
  have "sql_first (reclaimable e row c) db = Some row"
    using ledger_invD(1) [OF inv] row True
    by (rule sql_first_unique) (simp add: reclaimable_def)
  moreover have "sql_update (reclaimable e row c) (taken_over e c) db
      = sql_update (\<lambda>r. r = row) (taken_over e c) db"
    using same by (auto simp: sql_update_def)
  ultimately show ?thesis using True
    by (simp add: reclaim_def Let_def taken_over_def [abs_def])
next
  case False
  have none: "\<not> reclaimable e row c r" if "r \<in> set db" for r
  proof
    assume "reclaimable e row c r"
    moreover from this that row ledger_invD(1) [OF inv] have "r = row"
      by (auto simp: reclaimable_def intro: distinct_key_eq)
    ultimately show False using False by simp
  qed
  then have "sql_first (reclaimable e row c) db = None" by (simp add: sql_first_None)
  moreover have "sql_update (reclaimable e row c) f db = db" for f
    using none by (intro sql_update_none) blast
  ultimately show ?thesis using False by (simp add: reclaim_def Let_def)
qed

lemma resolve_row_existing:
  assumes "ledger_inv db" and "row \<in> set db"
    and "resolve_row e row False c db = (Inr out, db')"
  obtains (unchanged) "db' = db" "co_kind out \<noteq> KIND_OWNED"
  | (taken) "db' = sql_update (\<lambda>r. r = row) (taken_over e c) db" "lr_state row = Claimed"
      "out = outcome KIND_OWNED ((claim_from_row row c)\<lparr>ct_version := lr_version row + 1\<rparr>)"
      "lr_hash row = rc_hash c"
proof -
  from assms(3) show thesis
    unfolding resolve_row_def resolve_existing_row_def Let_def
    using reclaim_result [OF assms(1,2)]
    by (auto simp: tx_defs outcome_def reclaimable_def intro: unchanged taken
        split: if_splits option.splits)
qed

section \<open>Single calls\<close>

datatype ledger_cmd =
    Claim_cmd env uuid uuid string string
  | Finalize_cmd env claim_token int bytes
  | Release_cmd env claim_token

fun exec_ledger :: "usec \<Rightarrow> ledger_cmd \<Rightarrow> (ledger_db, ledger_error, claim_outcome option) tx" where
  "exec_ledger lease (Claim_cmd e org agent key h) =
     tx_bind (claim lease e org agent key h) (\<lambda>out. tx_return (Some out))"
| "exec_ledger lease (Finalize_cmd e t status response) =
     tx_bind (finalize e t status response) (\<lambda>_. tx_return None)"
| "exec_ledger lease (Release_cmd e t) = tx_bind (release e t) (\<lambda>_. tx_return None)"

lemma claim_rollback: "fst (claim lease e org agent key h db) = Inl x \<Longrightarrow> snd (claim lease e org agent key h db) = db"
  unfolding claim_def Let_def
  by (cases "validate_claim key h")
     (auto simp: tx_raise_def intro!: map_error_rollback session_rollback)

lemma mutate_rollback: "fst (mutate_claim e t st db) = Inl x \<Longrightarrow> snd (mutate_claim e t st db) = db"
  unfolding mutate_claim_def by (rule map_error_rollback) (auto intro: session_rollback)

lemma bind_return_Inr:
  "tx_bind m (\<lambda>a. tx_return (g a)) s = (Inr b, s') \<longleftrightarrow> (\<exists>a. m s = (Inr a, s') \<and> b = g a)"
  by (auto simp: tx_defs split: prod.splits sum.splits)

text \<open>A successful \<open>claim\<close> is a fresh row, or the resolution of the row that has the key.\<close>

lemma claim_Inr:
  assumes "claim lease e org agent key h db = (Inr out, db')"
  obtains (fresh) c row where "c = claim_ctx lease org agent key h"
      "insert_claim e c db = (Inr (Some row), db')" "out = outcome KIND_OWNED (claim_from_row row c)"
  | (existing) c row where "c = claim_ctx lease org agent key h" "row \<in> set db"
      "has_key org agent key row" "resolve_row e row False c db = (Inr out, db')"
proof -
  define c where "c = claim_ctx lease org agent key h"
  have c_simps: "rc_org c = org" "rc_agent c = agent" "rc_key c = key" "rc_hash c = h"
    by (simp_all add: c_def claim_ctx_def)
  from assms have body: "with_driver e (tx_bind (insert_or_load e c) (\<lambda>(row, fresh). case row of
      None \<Rightarrow> tx_raise (LedgerExc (LedgerError ''idempotency ledger row disappeared''))
    | Some r \<Rightarrow> resolve_row e r fresh c)) db = (Inr out, db')"
    by (auto simp: claim_def Let_def c_def [symmetric] map_error_Inr session_Inr tx_raise_def
        split: option.splits)
  then have body: "tx_bind (insert_or_load e c) (\<lambda>(row, fresh). case row of
      None \<Rightarrow> tx_raise (LedgerExc (LedgerError ''idempotency ledger row disappeared''))
    | Some r \<Rightarrow> resolve_row e r fresh c) db = (Inr out, db')"
    by (auto simp: with_driver_def tx_raise_def split: option.splits)
  obtain res db1 where ins: "insert_claim e c db = (res, db1)" by fastforce
  show thesis
  proof (cases res)
    case (Inl x)
    with ins body show thesis by (simp add: insert_or_load_def tx_defs)
  next
    case (Inr r)
    show thesis
    proof (cases r)
      case (Some row)
      with ins Inr have ins': "insert_claim e c db = (Inr (Some row), db1)" by simp
      with body insert_claim_Some(5) [OF ins'] show thesis
        by (intro fresh [of c row]) (simp_all add: c_def insert_or_load_def tx_defs resolve_row_def)
    next
      case None
      with ins Inr have ins': "insert_claim e c db = (Inr None, db1)" by simp
      then have "db1 = db" by (rule insert_claim_None)
      with ins' body obtain row where "sql_first (has_key org agent key) db = Some row"
        and "resolve_row e row False c db = (Inr out, db')"
        by (auto simp: c_simps insert_or_load_def load_claim_def tx_defs split: option.splits)
      then show thesis
        by (intro existing [of c row]) (auto simp: c_def dest: sql_first_Some)
    qed
  qed
qed

lemma mutate_Inr:
  assumes "mutate_claim e t st db = (Inr (), db')"
  shows "db' = st db" and "sql_count (claim_params t) db = 1"
  using assms
  by (auto simp: mutate_claim_def map_error_Inr session_Inr with_driver_def tx_defs
      split: option.splits if_splits)

lemma mutate_fails:
  "env_fault e = None \<Longrightarrow> sql_count (claim_params t) db \<noteq> 1 \<Longrightarrow>
   mutate_claim e t st db = (Inl (LedgerConflictError ''claim is no longer owned''), db)"
  by (simp add: mutate_claim_def with_driver_def tx_defs scope_defs)

lemma row_ok_finalized:
  "row_ok r \<Longrightarrow> row_ok (r\<lparr>lr_state := Finalized, lr_status := Some a, lr_response := Some b,
     lr_lease := None, lr_version := lr_version r + 1\<rparr>)"
  by (simp add: row_ok_def)

lemma ledger_inv_taken:
  "ledger_inv db \<Longrightarrow> lr_state row = Claimed \<Longrightarrow> ledger_inv (sql_update (\<lambda>r. r = row) (taken_over e c) db)"
  by (rule ledger_inv_update)
     (auto dest: ledger_invD(3) simp: taken_over_def row_key_def row_ok_def)

lemma ledger_inv_finalize: "ledger_inv db \<Longrightarrow> ledger_inv (finalize_claim_sql t a b db)"
  unfolding finalize_claim_sql_def
  by (rule ledger_inv_update) (auto intro: row_ok_finalized dest: ledger_invD(3) simp: row_key_def)

lemma ledger_inv_exec:
  assumes "ledger_inv db" and "exec_ledger lease cmd db = (Inr r, db')"
  shows "ledger_inv db'"
proof (cases cmd)
  case (Claim_cmd e org agent key h)
  with assms(2) obtain out where "claim lease e org agent key h db = (Inr out, db')"
    by (auto simp: bind_return_Inr)
  then show ?thesis
  proof (cases rule: claim_Inr)
    case fresh
    then show ?thesis using assms(1) by (blast intro: ledger_inv_insert)
  next
    case (existing c row)
    from assms(1) existing(2,4) show ?thesis
      by (cases rule: resolve_row_existing) (auto intro: ledger_inv_taken simp: assms(1))
  qed
next
  case (Finalize_cmd e t a b)
  with assms(2) have "db' = finalize_claim_sql t a b db"
    by (auto simp: bind_return_Inr finalize_def dest: mutate_Inr(1))
  with assms(1) show ?thesis by (simp add: ledger_inv_finalize)
next
  case (Release_cmd e t)
  with assms(2) have "db' = release_claim_sql t db"
    by (auto simp: bind_return_Inr release_def dest: mutate_Inr(1))
  with assms(1) show ?thesis by (simp add: release_claim_sql_def ledger_inv_delete)
qed

interpretation idem: transactional_inv "exec_ledger lease" ledger_inv for lease
proof unfold_locales
  fix cmd db x
  assume "fst (exec_ledger lease cmd db) = Inl x"
  then show "snd (exec_ledger lease cmd db) = db"
    by (cases cmd)
       (auto simp: finalize_def release_def intro: bind_return_rollback claim_rollback mutate_rollback)
next
  fix cmd db r
  assume "ledger_inv db" and "fst (exec_ledger lease cmd db) = Inr r"
  then show "ledger_inv (snd (exec_ledger lease cmd db))"
    by (cases "exec_ledger lease cmd db") (auto dest: ledger_inv_exec)
qed

section \<open>What a key's entry promises\<close>

text \<open>
  The abstract ledger keeps one entry per (organisation, agent, key): free, held under a request
  hash with a version and a lease, or done with the response to replay.
\<close>

datatype entry = Free | Held string int usec | Done string int bytes

definition entry_of :: "ledger_row \<Rightarrow> entry" where
  "entry_of r =
     (if lr_state r = Finalized then
        (case (lr_status r, lr_response r) of
           (Some status, Some response) \<Rightarrow> Done (lr_hash r) status response
         | _ \<Rightarrow> Free)
      else (case lr_lease r of None \<Rightarrow> Free | Some x \<Rightarrow> Held (lr_hash r) (lr_version r) x))"

lemma entry_of_claimed:
  "lr_state r = Claimed \<Longrightarrow> lr_lease r = Some x \<Longrightarrow> entry_of r = Held (lr_hash r) (lr_version r) x"
  by (simp add: entry_of_def)

lemma entry_of_finalized:
  "lr_state r = Finalized \<Longrightarrow> lr_status r = Some a \<Longrightarrow> lr_response r = Some b \<Longrightarrow>
   entry_of r = Done (lr_hash r) a b"
  by (simp add: entry_of_def)

lemma entry_of_Held: "entry_of r = Held g v x \<Longrightarrow> lr_version r = v"
  by (auto simp: entry_of_def split: if_splits option.splits)

definition abs_ledger :: "ledger_db \<Rightarrow> uuid \<times> uuid \<times> string \<Rightarrow> entry" where
  "abs_ledger db k = (case sql_first (\<lambda>r. row_key r = k) db of None \<Rightarrow> Free | Some r \<Rightarrow> entry_of r)"

text \<open>
  What a claim answers and leaves behind, on one entry: the key is the caller's, is busy for so
  many seconds, was used for another request, or has a recorded response.
\<close>

datatype answer = Yours | Busy int | Other_request | Recorded int bytes

fun spec_claim :: "env \<Rightarrow> usec \<Rightarrow> string \<Rightarrow> entry \<Rightarrow> answer \<times> entry" where
  "spec_claim e lease h Free = (Yours, Held h 1 (env_now e + lease))"
| "spec_claim e lease h (Held g v x) =
     (if g \<noteq> h then (Other_request, Held g v x)
      else if env_time e < x then (Busy ((x - env_time e) div 1000000 + 1), Held g v x)
      else if env_now e < x then (Busy 1, Held g v x)
      else (Yours, Held g (v + 1) (env_now e + lease)))"
| "spec_claim e lease h (Done g status response) =
     (if g \<noteq> h then Other_request else Recorded status response, Done g status response)"

fun answer_outcome :: "answer \<Rightarrow> claim_token \<Rightarrow> claim_outcome" where
  "answer_outcome Yours t = \<lparr>co_kind = KIND_OWNED, co_claim = Some t, co_status = None,
     co_response = None, co_retry_after = None\<rparr>"
| "answer_outcome (Busy s) t = \<lparr>co_kind = KIND_IN_PROGRESS, co_claim = Some t, co_status = None,
     co_response = None, co_retry_after = Some s\<rparr>"
| "answer_outcome Other_request t = \<lparr>co_kind = KIND_CONFLICT, co_claim = Some t, co_status = None,
     co_response = None, co_retry_after = None\<rparr>"
| "answer_outcome (Recorded status response) t = \<lparr>co_kind = KIND_REPLAY, co_claim = Some t,
     co_status = Some status, co_response = Some response, co_retry_after = None\<rparr>"

definition token_for_row :: "ledger_row \<Rightarrow> claim_token" where
  "token_for_row r = \<lparr>ct_id = lr_id r, ct_org = lr_org r, ct_agent = lr_agent r, ct_key = lr_key r,
     ct_hash = lr_hash r, ct_version = lr_version r\<rparr>"

lemma claim_from_row_token:
  "row_key row = (rc_org c, rc_agent c, rc_key c) \<Longrightarrow> claim_from_row row c = token_for_row row"
  by (simp add: claim_from_row_def token_for_row_def row_key_def)

lemma fence_count:
  assumes "distinct (map lr_id db)" and "row \<in> set db" and "lr_state row = Claimed"
  shows "sql_count (claim_params (token_for_row row)) db = 1"
  using assms(1,2)
proof (rule sql_count_unique)
  show "claim_params (token_for_row row) row"
    using assms(3) by (simp add: claim_params_def token_for_row_def)
qed (simp add: claim_params_def token_for_row_def)

text \<open>The adapter writes only \<open>claimed\<close> and \<open>finalized\<close> rows.\<close>

definition live_states :: "ledger_db \<Rightarrow> bool" where
  "live_states db \<longleftrightarrow> (\<forall>r \<in> set db. lr_state r \<in> {Claimed, Finalized})"

definition claim_env_ok :: "env \<Rightarrow> ledger_db \<Rightarrow> uuid \<Rightarrow> uuid \<Rightarrow> bool" where
  "claim_env_ok e db org agent \<longleftrightarrow> env_fault e = None \<and> (org, agent) \<in> set (env_agents e) \<and>
     env_uuid e \<notin> lr_id ` set db"

lemma is_hash_nonempty: "is_hash h \<Longrightarrow> h \<noteq> []"
  by (auto simp: is_hash_def)

lemma abs_ledger_row:
  "ledger_inv db \<Longrightarrow> row \<in> set db \<Longrightarrow> abs_ledger db (row_key row) = entry_of row"
  using sql_first_unique [of row_key db row "\<lambda>r. row_key r = row_key row"]
  by (simp add: abs_ledger_def ledger_inv_def)

lemma abs_ledger_None: "(\<And>r. r \<in> set db \<Longrightarrow> row_key r \<noteq> k) \<Longrightarrow> abs_ledger db k = Free"
  using sql_first_None [of "\<lambda>r. row_key r = k" db] by (simp add: abs_ledger_def)

lemma abs_ledger_append:
  assumes "row_key row \<notin> row_key ` set db"
  shows "abs_ledger (db @ [row]) = (abs_ledger db)(row_key row := entry_of row)"
proof
  fix k
  have none: "sql_first (\<lambda>r. row_key r = row_key row) db = None"
    using assms unfolding sql_first_None by (metis image_eqI)
  have "sql_first p (db @ [row]) =
      (case sql_first p db of None \<Rightarrow> if p row then Some row else None | Some r \<Rightarrow> Some r)" for p
    unfolding sql_first_def by (induction db) auto
  with none show "abs_ledger (db @ [row]) k = ((abs_ledger db)(row_key row := entry_of row)) k"
    by (auto simp: abs_ledger_def split: option.splits)
qed

lemma abs_ledger_update:
  assumes inv: "ledger_inv db" and row: "row \<in> set db" and f: "row_key (f row) = row_key row"
  shows "abs_ledger (sql_update (\<lambda>r. r = row) f db) = (abs_ledger db)(row_key row := entry_of (f row))"
proof
  fix k
  have upd: "sql_first (\<lambda>r. row_key r = k) (sql_update (\<lambda>r. r = row) f db)
      = map_option (\<lambda>r. if r = row then f r else r) (sql_first (\<lambda>r. row_key r = k) db)"
    using f unfolding sql_update_def sql_first_def by (induction db) auto
  show "abs_ledger (sql_update (\<lambda>r. r = row) f db) k
      = ((abs_ledger db)(row_key row := entry_of (f row))) k"
  proof (cases "k = row_key row")
    case True
    have "sql_first (\<lambda>r. row_key r = row_key row) db = Some row"
      by (rule sql_first_unique [OF ledger_invD(2) [OF inv] row]) simp_all
    with upd True show ?thesis by (simp add: abs_ledger_def)
  next
    case False
    have "sql_first (\<lambda>r. row_key r = k) db \<noteq> Some row"
      using False by (auto dest: sql_first_Some)
    with upd False show ?thesis
      by (cases "sql_first (\<lambda>r. row_key r = k) db") (simp_all add: abs_ledger_def)
  qed
qed

lemma claim_body:
  assumes "env_fault e = None" and "key \<noteq> []" and "length key \<le> 256" and "is_hash h"
  shows "claim lease e org agent key h db =
    (let c = claim_ctx lease org agent key h in
     map_error claim_handler (service_org_session (tx_bind (insert_or_load e c) (\<lambda>(row, fresh).
       case row of None \<Rightarrow> tx_raise (LedgerExc (LedgerError ''idempotency ledger row disappeared''))
       | Some r \<Rightarrow> resolve_row e r fresh c))) db)"
  using assms is_hash_nonempty [OF assms(4)]
  by (simp add: claim_def validate_claim_def with_driver_def Let_def)

lemma claim_absent:
  assumes "claim_env_ok e db org agent" and "key \<noteq> []" and "length key \<le> 256" and "is_hash h"
    and "(org, agent, key) \<notin> row_key ` set db"
  shows "claim lease e org agent key h db =
    (let c = claim_ctx lease org agent key h
     in (Inr (outcome KIND_OWNED (claim_from_row (new_row e c) c)), db @ [new_row e c]))"
proof -
  let ?c = "claim_ctx lease org agent key h"
  have ctx: "rc_org ?c = org" "rc_agent ?c = agent" "rc_key ?c = key" "rc_hash ?c = h"
    by (simp_all add: claim_ctx_def)
  have "\<forall>r \<in> set db. \<not> has_key org agent key r"
    using assms(5) by (auto simp: has_key_row_key image_iff)
  moreover have "\<forall>r \<in> set db. lr_id r \<noteq> env_uuid e" and "(org, agent) \<in> set (env_agents e)"
    using assms(1) by (auto simp: claim_env_ok_def image_iff)
  ultimately have "insert_claim e ?c db = (Inr (Some (new_row e ?c)), db @ [new_row e ?c])"
    using assms(2-4) by (auto simp: insert_claim_def ctx)
  moreover have "lr_hash (new_row e ?c) = h" by (simp add: new_row_def ctx)
  moreover have "env_fault e = None" using assms(1) by (simp add: claim_env_ok_def)
  ultimately show ?thesis
    using assms(2-4)
    by (simp add: claim_body Let_def insert_or_load_def resolve_row_def tx_defs scope_defs ctx)
qed

lemma claim_present:
  assumes inv: "ledger_inv db" and row: "row \<in> set db" and key: "row_key row = (org, agent, key)"
    and "env_fault e = None" and h: "is_hash h"
  shows "claim lease e org agent key h db =
    (let c = claim_ctx lease org agent key h in
     map_error claim_handler (service_org_session (resolve_row e row False c)) db)"
proof -
  let ?c = "claim_ctx lease org agent key h"
  have ctx: "rc_org ?c = org" "rc_agent ?c = agent" "rc_key ?c = key" "rc_hash ?c = h"
    by (simp_all add: claim_ctx_def)
  have key': "has_key org agent key row" using key by (simp add: has_key_row_key)
  have key_ok: "key \<noteq> []" "length key \<le> 256"
    using ledger_invD(3) [OF inv row] key by (auto simp: row_ok_def row_key_def)
  with h row key' have "insert_claim e ?c db = (Inr None, db)"
    by (auto simp: insert_claim_def ctx)
  moreover have "sql_first (has_key org agent key) db = Some row"
    by (rule sql_first_unique [OF ledger_invD(2) [OF inv] row]) (simp_all add: has_key_row_key key)
  ultimately show ?thesis
    using assms(4) h key_ok
    by (simp add: claim_body Let_def insert_or_load_def load_claim_def tx_defs scope_defs ctx)
qed

definition answered :: "usec \<Rightarrow> env \<Rightarrow> uuid \<Rightarrow> uuid \<Rightarrow> string \<Rightarrow> string \<Rightarrow> ledger_db \<Rightarrow> bool" where
  "answered lease e org agent key h db \<longleftrightarrow> (\<exists>ans en row db'.
     spec_claim e (max second lease) h (abs_ledger db (org, agent, key)) = (ans, en) \<and>
     claim lease e org agent key h db = (Inr (answer_outcome ans (token_for_row row)), db') \<and>
     row \<in> set db' \<and> row_key row = (org, agent, key) \<and> entry_of row = en \<and>
     abs_ledger db' = (abs_ledger db)((org, agent, key) := en) \<and>
     (ans = Yours \<longrightarrow> sql_count (claim_params (token_for_row row)) db' = 1))"

lemma answered_same:
  assumes "ledger_inv db" and row: "row \<in> set db" and k: "row_key row = (org, agent, key)"
    and "spec_claim e (max second lease) h (entry_of row) = (ans, entry_of row)" and "ans \<noteq> Yours"
    and "claim lease e org agent key h db = (Inr (answer_outcome ans (token_for_row row)), db)"
  shows "answered lease e org agent key h db"
proof -
  note entry = abs_ledger_row [OF assms(1) row, unfolded k]
  then have "(abs_ledger db)((org, agent, key) := entry_of row) = abs_ledger db"
    by (simp add: fun_eq_iff)
  then show ?thesis using assms(4-6) entry row k unfolding answered_def
    by (intro exI [of _ ans] exI [of _ "entry_of row"] exI [of _ row] exI [of _ db]) simp
qed

lemma answered_taken:
  assumes inv: "ledger_inv db" and row: "row \<in> set db" and k: "row_key row = (org, agent, key)"
    and held: "lr_state row = Claimed" and taken: "taken = taken_over e c row"
    and "spec_claim e (max second lease) h (entry_of row) = (Yours, entry_of taken)"
    and "claim lease e org agent key h db
      = (Inr (answer_outcome Yours (token_for_row taken)), sql_update (\<lambda>r. r = row) (taken_over e c) db)"
  shows "answered lease e org agent key h db"
proof -
  let ?db = "sql_update (\<lambda>r. r = row) (taken_over e c) db"
  note entry = abs_ledger_row [OF inv row, unfolded k]
  have tk: "row_key (taken_over e c row) = (org, agent, key)" using k by (simp add: taken_over_def row_key_def)
  have mem: "taken \<in> set ?db" using row by (auto simp: set_sql_update taken)
  have "distinct (map lr_id ?db)"
    using ledger_invD(1) [OF inv] by (simp add: map_sql_update taken_over_def)
  then have "sql_count (claim_params (token_for_row taken)) ?db = 1"
    using mem by (rule fence_count) (use held in \<open>simp add: taken_over_def taken\<close>)
  then show ?thesis
    using assms(6,7) entry tk mem abs_ledger_update [OF inv row, of "taken_over e c", unfolded k, OF tk]
    unfolding answered_def
    by (intro exI [of _ Yours] exI [of _ "entry_of taken"] exI [of _ taken] exI [of _ ?db]) (simp add: taken)
qed

lemma claim_answered:
  assumes inv: "ledger_inv db" and row: "row \<in> set db" and k: "row_key row = (org, agent, key)"
    and fault: "env_fault e = None" and h: "is_hash h" and live: "live_states db"
  shows "answered lease e org agent key h db"
proof -
  let ?c = "claim_ctx lease org agent key h"
  let ?taken = "taken_over e ?c row"
  have ctx: "rc_hash ?c = h" "has_key (rc_org ?c) (rc_agent ?c) (rc_key ?c) row"
    "row_key row = (rc_org ?c, rc_agent ?c, rc_key ?c)"
    using k by (simp_all add: claim_ctx_def has_key_row_key)
  note tok = claim_from_row_token [OF ctx(3)]
  note same = answered_same [OF inv row k]
  note present = claim_present [OF inv row k fault h, of lease, unfolded Let_def]
  note resolve = present resolve_row_def resolve_existing_row_def reclaim_result [OF inv row] reclaimable_def
    outcome_def tok Let_def tx_defs scope_defs
  have ok: "row_ok row" using inv row by (rule ledger_invD)
  show ?thesis
  proof (cases "lr_state row = Finalized")
    case True
    with ok obtain a b where ab: "lr_status row = Some a" "lr_response row = Some b"
      by (auto simp: row_ok_def)
    with entry_of_finalized [OF True ab] True ctx show ?thesis
      by (intro same [of _ _ _ "if lr_hash row \<noteq> h then Other_request else Recorded a b"]) (simp_all add: resolve)
  next
    case False
    with live row have held: "lr_state row = Claimed" by (auto simp: live_states_def)
    with ok obtain x where x: "lr_lease row = Some x" by (auto simp: row_ok_def)
    note row_entry = entry_of_claimed [OF held x]
    show ?thesis
    proof (cases "lr_hash row = h \<and> x \<le> env_time e \<and> x \<le> env_now e")
      case True
      have "entry_of ?taken = Held (lr_hash row) (lr_version row + 1) (env_now e + max second lease)"
        using held by (simp add: taken_over_def entry_of_def claim_ctx_def lease_interval_def)
      moreover have "(token_for_row row)\<lparr>ct_version := lr_version row + 1\<rparr> = token_for_row ?taken"
        by (simp add: token_for_row_def taken_over_def)
      ultimately show ?thesis using True held x ctx
        by (intro answered_taken [OF inv row k held refl, of e lease h ?c]) (simp_all add: row_entry resolve)
    next
      case False
      have "0 < d \<Longrightarrow> max 1 (d div second + 1) = d div second + 1" for d :: int by simp
      with False held x ctx show ?thesis
        by (intro same [of _ _ _ "if lr_hash row \<noteq> h then Other_request
            else Busy (if env_time e < x then (x - env_time e) div second + 1 else 1)"])
          (auto simp add: row_entry resolve)
    qed
  qed
qed

text \<open>
  C18. \<open>claim\<close> implements the abstract ledger. On a table that keeps the invariant and holds only
  claimed and finalised rows, when the driver does not fail, the agent exists and the fresh row
  id is unused, and for a key of 1 to 256 characters and a well-formed hash, \<open>claim\<close> always
  returns. The whole outcome is the one the key's entry prescribes: owned when the key is free,
  or when the lease ran out on both clocks; in progress with the seconds that remain while it
  runs; the recorded status and response when done; conflict for another request hash. The
  token in it is, field by field, the identity and current version of the key's row in the new
  table, so an owner's token passes the fence on exactly one row. The key's entry changes in
  the prescribed way and every other entry is untouched.
\<close>

theorem claim_refines_entry:
  assumes inv: "ledger_inv db" and live: "live_states db" and env: "claim_env_ok e db org agent"
    and key: "key \<noteq> []" "length key \<le> 256" and h: "is_hash h"
  shows "\<exists>ans en row db'.
    spec_claim e (max 1000000 lease) h (abs_ledger db (org, agent, key)) = (ans, en) \<and>
    claim lease e org agent key h db = (Inr (answer_outcome ans (token_for_row row)), db') \<and>
    row \<in> set db' \<and> row_key row = (org, agent, key) \<and> entry_of row = en \<and>
    abs_ledger db' = (abs_ledger db)((org, agent, key) := en) \<and>
    (ans = Yours \<longrightarrow> sql_count (claim_params (token_for_row row)) db' = 1)"
proof (cases "(org, agent, key) \<in> row_key ` set db")
  case False
  let ?c = "claim_ctx lease org agent key h"
  let ?row = "new_row e ?c"
  have k: "row_key ?row = (org, agent, key)" by (simp add: new_row_def row_key_def claim_ctx_def)
  have "spec_claim e (max 1000000 lease) h (abs_ledger db (org, agent, key)) = (Yours, entry_of ?row)"
    using False by (subst abs_ledger_None)
      (auto simp: entry_of_def new_row_def claim_ctx_def lease_interval_def image_iff)
  moreover have "distinct (map lr_id (db @ [?row]))"
    using env ledger_invD(1) [OF inv] by (simp add: claim_env_ok_def new_row_def)
  then have "sql_count (claim_params (token_for_row ?row)) (db @ [?row]) = 1"
    by (rule fence_count) (simp_all add: new_row_def)
  moreover have "claim lease e org agent key h db = (Inr (answer_outcome Yours (token_for_row ?row)), db @ [?row])"
    using claim_absent [OF env key h False, of lease] k
    by (simp add: Let_def outcome_def claim_from_row_token claim_ctx_def)
  moreover have "abs_ledger (db @ [?row]) = (abs_ledger db)((org, agent, key) := entry_of ?row)"
    using abs_ledger_append [of ?row db] False k by simp
  ultimately show ?thesis using k
    by (intro exI [of _ Yours] exI [of _ "entry_of ?row"] exI [of _ ?row] exI [of _ "db @ [?row]"]) simp
next
  case True
  then obtain row where row: "row \<in> set db" and k: "row_key row = (org, agent, key)" by auto
  have "env_fault e = None" using env by (simp add: claim_env_ok_def)
  then show ?thesis using claim_answered [OF inv row k _ h live, of e lease] unfolding answered_def by blast
qed

definition demo_hash :: string where
  "demo_hash = replicate 64 (CHR ''a'')"

definition demo_env :: env where
  "demo_env = \<lparr>env_now = 500, env_time = 500, env_uuid = 9, env_agents = [(1, 2)], env_fault = None\<rparr>"

definition demo_row :: ledger_row where
  "demo_row = \<lparr>lr_id = 7, lr_org = 1, lr_agent = 2, lr_key = ''k'', lr_hash = demo_hash,
     lr_state = Claimed, lr_status = None, lr_response = None, lr_lease = Some 400, lr_version = 3\<rparr>"

lemma demo_hash_ok: "is_hash demo_hash"
  by (simp add: is_hash_def demo_hash_def list_all_iff)

lemma demo_inv: "ledger_inv [demo_row]"
  using demo_hash_ok by (simp add: ledger_inv_def row_ok_def demo_row_def)

theorem claim_refines_entry_witness:
  "\<exists>row db'. claim (60 * second) demo_env 1 2 ''k'' demo_hash [demo_row]
       = (Inr (answer_outcome Yours (token_for_row row)), db') \<and>
     lr_version row = 4 \<and> sql_count (claim_params (token_for_row row)) db' = 1 \<and>
     abs_ledger db' (1, 2, ''k'') = Held demo_hash 4 (500 + 60 * second)"
proof -
  have live: "live_states [demo_row]" and env: "claim_env_ok demo_env [demo_row] 1 2"
    by (simp_all add: live_states_def claim_env_ok_def demo_row_def demo_env_def)
  have "abs_ledger [demo_row] (1, 2, ''k'') = Held demo_hash 3 400"
    by (simp add: abs_ledger_def sql_first_def row_key_def entry_of_def demo_row_def)
  with claim_refines_entry [OF demo_inv live env _ _ demo_hash_ok, of "''k''" "60 * second"]
  show ?thesis by (simp add: demo_env_def) (metis entry_of_Held fun_upd_same)
qed

end
