(* ===== verification/Idempotency_System.thy ===== *)
theory Idempotency_System
  imports Idempotency_Ledger
begin

text \<open>
  Many clients of the idempotency ledger at once. \<open>claim\<close> is two statements: the INSERT, which
  commits to a fresh row at once, and, when the key exists, the SELECT FOR UPDATE, before which
  any other client may act (release the row, take it over, finalise it). \<open>finalize\<close> and
  \<open>release\<close> are one statement each. A step is one such statement with its consequences; the
  ghost components record every token handed out as owned and every row id ever generated
  (\<open>gen_random_uuid\<close> does not repeat).
\<close>

record ledger_sys =
  ls_db :: ledger_db
  ls_wait :: "nat \<Rightarrow> resolve_context option"
  ls_owned :: "claim_token list"
  ls_used :: "uuid set"

definition init_sys :: ledger_sys where
  "init_sys = \<lparr>ls_db = [], ls_wait = (\<lambda>_. None), ls_owned = [], ls_used = {}\<rparr>"

datatype ledger_event =
    Ev_claim resolve_context claim_outcome
  | Ev_wait nat resolve_context
  | Ev_gone nat
  | Ev_finalize claim_token int bytes
  | Ev_release claim_token

definition granted :: "claim_outcome \<Rightarrow> claim_token list" where
  "granted out = (if co_kind out = KIND_OWNED then (case co_claim out of None \<Rightarrow> [] | Some t \<Rightarrow> [t]) else [])"

inductive ledger_step :: "ledger_sys \<Rightarrow> ledger_event \<Rightarrow> ledger_sys \<Rightarrow> bool" where
  start_fresh:
    "insert_claim e c (ls_db s) = (Inr (Some row), db) \<Longrightarrow> env_uuid e \<notin> ls_used s \<Longrightarrow>
     resolve_row e row True c db = (Inr out, db') \<Longrightarrow>
     ledger_step s (Ev_claim c out)
       (s\<lparr>ls_db := db', ls_owned := ls_owned s @ granted out, ls_used := insert (env_uuid e) (ls_used s)\<rparr>)"
| start_wait:
    "insert_claim e c (ls_db s) = (Inr None, db) \<Longrightarrow>
     ledger_step s (Ev_wait i c) (s\<lparr>ls_db := db, ls_wait := (ls_wait s)(i := Some c)\<rparr>)"
| resume:
    "ls_wait s i = Some c \<Longrightarrow> load_claim c (ls_db s) = (Inr (Some row), db) \<Longrightarrow>
     resolve_row e row False c db = (Inr out, db') \<Longrightarrow>
     ledger_step s (Ev_claim c out)
       (s\<lparr>ls_db := db', ls_wait := (ls_wait s)(i := None), ls_owned := ls_owned s @ granted out\<rparr>)"
| resume_gone:
    "ls_wait s i = Some c \<Longrightarrow> load_claim c (ls_db s) = (Inr None, db) \<Longrightarrow>
     ledger_step s (Ev_gone i) (s\<lparr>ls_wait := (ls_wait s)(i := None)\<rparr>)"
| do_finalize:
    "finalize e t status response (ls_db s) = (Inr (), db') \<Longrightarrow>
     ledger_step s (Ev_finalize t status response) (s\<lparr>ls_db := db'\<rparr>)"
| do_release:
    "release e t (ls_db s) = (Inr (), db') \<Longrightarrow> ledger_step s (Ev_release t) (s\<lparr>ls_db := db'\<rparr>)"

inductive ledger_run :: "ledger_sys \<Rightarrow> ledger_event list \<Rightarrow> ledger_sys \<Rightarrow> bool" where
  run_nil: "ledger_run s [] s"
| run_snoc: "ledger_run s evs s' \<Longrightarrow> ledger_step s' ev s'' \<Longrightarrow> ledger_run s (evs @ [ev]) s''"

inductive_cases run_nilE: "ledger_run s [] s'"
inductive_cases run_snocE: "ledger_run s (evs @ [ev]) s'"

section \<open>The system's invariant\<close>

definition fence :: "claim_token \<Rightarrow> uuid \<times> int" where
  "fence t = (ct_id t, ct_version t)"

definition sys_inv :: "ledger_sys \<Rightarrow> bool" where
  "sys_inv s \<longleftrightarrow> ledger_inv (ls_db s) \<and> lr_id ` set (ls_db s) \<subseteq> ls_used s \<and>
     ct_id ` set (ls_owned s) \<subseteq> ls_used s \<and>
     (\<forall>t \<in> set (ls_owned s). \<forall>r \<in> set (ls_db s). lr_id r = ct_id t \<longrightarrow> ct_version t \<le> lr_version r) \<and>
     distinct (map fence (ls_owned s))"

lemma sys_inv_init: "sys_inv init_sys"
  by (simp add: sys_inv_def init_sys_def ledger_inv_def)

lemma sys_invD:
  assumes "sys_inv s"
  shows sys_inv_db: "ledger_inv (ls_db s)" and sys_inv_ids: "lr_id ` set (ls_db s) \<subseteq> ls_used s"
    and sys_inv_tokens: "ct_id ` set (ls_owned s) \<subseteq> ls_used s"
    and sys_inv_versions: "t \<in> set (ls_owned s) \<Longrightarrow> r \<in> set (ls_db s) \<Longrightarrow> lr_id r = ct_id t \<Longrightarrow>
      ct_version t \<le> lr_version r"
    and sys_inv_fences: "distinct (map fence (ls_owned s))"
  using assms by (simp_all add: sys_inv_def)

lemma load_claim_row:
  "load_claim c db = (Inr (Some row), db') \<Longrightarrow>
   db' = db \<and> row \<in> set db \<and> has_key (rc_org c) (rc_agent c) (rc_key c) row"
  by (auto simp: load_claim_def tx_get_def dest: sql_first_Some)

lemma resolve_fresh:
  "insert_claim e c db = (Inr (Some row), db1) \<Longrightarrow> resolve_row e row True c db1 = (Inr out, db') \<Longrightarrow>
   db' = db1 \<and> out = outcome KIND_OWNED (claim_from_row row c)"
  by (auto simp: resolve_row_def tx_return_def Let_def dest: insert_claim_Some(5))

lemma granted_owned [simp]: "granted (outcome KIND_OWNED t) = [t]"
  by (simp add: granted_def outcome_def)

lemma granted_other [simp]: "co_kind out \<noteq> KIND_OWNED \<Longrightarrow> granted out = []"
  by (simp add: granted_def)

text \<open>Statements that rewrite rows in place without lowering a version keep the fences.\<close>

lemma sys_inv_update:
  assumes "sys_inv s" and "ledger_inv (sql_update p f (ls_db s))"
    and "\<And>r. p r \<Longrightarrow> lr_id (f r) = lr_id r \<and> lr_version r \<le> lr_version (f r)"
  shows "sys_inv (s\<lparr>ls_db := sql_update p f (ls_db s)\<rparr>)"
proof -
  have "lr_id ` set (sql_update p f (ls_db s)) \<subseteq> lr_id ` set (ls_db s)"
    using assms(3) by (auto simp: set_sql_update)
  from this sys_inv_ids [OF assms(1)] have ids: "lr_id ` set (sql_update p f (ls_db s)) \<subseteq> ls_used s"
    by (rule order_trans)
  have "ct_version t \<le> lr_version r'"
    if "t \<in> set (ls_owned s)" "r' \<in> set (sql_update p f (ls_db s))" "lr_id r' = ct_id t" for t r'
  proof -
    from that(2) assms(3) obtain r where "r \<in> set (ls_db s)" "lr_id r = lr_id r'" "lr_version r \<le> lr_version r'"
      by (auto simp: set_sql_update)
    with sys_inv_versions [OF assms(1) that(1) \<open>r \<in> set (ls_db s)\<close>] that(3) show ?thesis by simp
  qed
  with assms(1,2) ids show ?thesis by (simp add: sys_inv_def)
qed

lemma sys_inv_delete: "sys_inv s \<Longrightarrow> sys_inv (s\<lparr>ls_db := sql_delete p (ls_db s)\<rparr>)"
  unfolding sys_inv_def by (auto simp: set_sql_delete ledger_inv_delete)

text \<open>A granted token must be new: above every earlier token of its row.\<close>

lemma sys_inv_grant:
  assumes "sys_inv s" and "ct_id t \<in> ls_used s"
    and "\<And>u. u \<in> set (ls_owned s) \<Longrightarrow> ct_id u = ct_id t \<Longrightarrow> ct_version u < ct_version t"
    and "\<And>r. r \<in> set (ls_db s) \<Longrightarrow> lr_id r = ct_id t \<Longrightarrow> ct_version t \<le> lr_version r"
  shows "sys_inv (s\<lparr>ls_owned := ls_owned s @ [t]\<rparr>)"
proof -
  have "fence t \<notin> fence ` set (ls_owned s)"
    by (auto simp: fence_def dest: assms(3))
  with assms(1,2,4) show ?thesis by (simp add: sys_inv_def ball_Un)
qed

lemma sys_inv_wait [simp]: "sys_inv (s\<lparr>ls_wait := w\<rparr>) = sys_inv s"
  by (simp add: sys_inv_def)

lemma sys_inv_fresh:
  assumes inv: "sys_inv s" and new: "env_uuid e \<notin> ls_used s"
    and ins: "insert_claim e c (ls_db s) = (Inr (Some row), db)"
  shows "sys_inv (s\<lparr>ls_db := db, ls_owned := ls_owned s @ [claim_from_row row c],
                   ls_used := insert (env_uuid e) (ls_used s)\<rparr>)"
proof -
  note row = insert_claim_Some [OF ins]
  let ?s = "s\<lparr>ls_db := db, ls_used := insert (env_uuid e) (ls_used s)\<rparr>"
  have tokens: "ct_id u \<noteq> env_uuid e" if "u \<in> set (ls_owned s)" for u
    using sys_inv_tokens [OF inv] new that by auto
  have rows: "lr_id r \<noteq> env_uuid e" if "r \<in> set (ls_db s)" for r
    using sys_inv_ids [OF inv] new that by auto
  have "ledger_inv db" using sys_inv_db [OF inv] ins by (rule ledger_inv_insert)
  with inv row(1,2) have inv': "sys_inv ?s" by (auto simp: sys_inv_def dest: tokens)
  have "sys_inv (?s\<lparr>ls_owned := ls_owned ?s @ [claim_from_row row c]\<rparr>)"
    by (rule sys_inv_grant [OF inv']) (use tokens rows row(1,2) in \<open>auto simp: claim_from_row_def\<close>)
  then show ?thesis by (simp add: sys_inv_def)
qed

lemma sys_inv_taken:
  assumes inv: "sys_inv s" and row: "row \<in> set (ls_db s)" "lr_state row = Claimed"
    and t: "t = (claim_from_row row c)\<lparr>ct_version := lr_version row + 1\<rparr>"
  shows "sys_inv (s\<lparr>ls_db := sql_update (\<lambda>r. r = row) (taken_over e c) (ls_db s),
                   ls_owned := ls_owned s @ [t]\<rparr>)"
proof -
  let ?s = "s\<lparr>ls_db := sql_update (\<lambda>r. r = row) (taken_over e c) (ls_db s)\<rparr>"
  have inv': "sys_inv ?s"
    using inv row(2) by (intro sys_inv_update) (auto intro: ledger_inv_taken sys_inv_db simp: taken_over_def)
  have only: "r = row" if "r \<in> set (ls_db s)" "lr_id r = lr_id row" for r
    using that row(1) ledger_invD(1) [OF sys_inv_db [OF inv]] by (auto intro: distinct_key_eq)
  have "sys_inv (?s\<lparr>ls_owned := ls_owned ?s @ [t]\<rparr>)"
  proof (rule sys_inv_grant [OF inv'])
    show "ct_id t \<in> ls_used ?s" using sys_inv_ids [OF inv] row(1) t by (auto simp: claim_from_row_def)
  next
    fix u assume "u \<in> set (ls_owned ?s)" and "ct_id u = ct_id t"
    with sys_inv_versions [OF inv _ row(1), of u] t show "ct_version u < ct_version t"
      by (simp add: claim_from_row_def)
  next
    fix r assume "r \<in> set (ls_db ?s)" and "lr_id r = ct_id t"
    with only t show "ct_version t \<le> lr_version r"
      by (auto simp: set_sql_update claim_from_row_def taken_over_def)
  qed
  then show ?thesis by (simp add: sys_inv_def)
qed

lemma sys_inv_step: "ledger_step s ev s' \<Longrightarrow> sys_inv s \<Longrightarrow> sys_inv s'"
proof (induction rule: ledger_step.induct)
  case (start_fresh e c s row db out db')
  with resolve_fresh [OF start_fresh(1,3)] show ?case
    using sys_inv_fresh [of s e c row db] by simp
next
  case (start_wait e c s db i)
  with insert_claim_None(1) [OF start_wait(1)] show ?case by simp
next
  case (resume s i c row db e out db')
  note load = load_claim_row [OF resume(2)]
  from load resume(3) have row: "row \<in> set (ls_db s)"
    and res: "resolve_row e row False c (ls_db s) = (Inr out, db')" by simp_all
  from sys_inv_db [OF resume(4)] row res show ?case
  proof (cases rule: resolve_row_existing)
    case unchanged
    with resume(4) show ?thesis by simp
  next
    case taken
    with sys_inv_taken [OF resume(4) row, of _ c e] show ?thesis by (simp add: sys_inv_def)
  qed
next
  case (do_finalize e t status response s db')
  then have "db' = finalize_claim_sql t status response (ls_db s)"
    by (simp add: finalize_def mutate_Inr(1))
  with do_finalize(2) ledger_inv_finalize [OF sys_inv_db [OF do_finalize(2)]] show ?case
    unfolding finalize_claim_sql_def by (auto intro: sys_inv_update)
next
  case (do_release e t s db')
  then show ?case by (auto simp: release_def release_claim_sql_def dest!: mutate_Inr(1) intro: sys_inv_delete)
qed simp

lemma sys_inv_run: "ledger_run s evs s' \<Longrightarrow> sys_inv s \<Longrightarrow> sys_inv s'"
  by (induction rule: ledger_run.induct) (auto dest: sys_inv_step)

section \<open>Finalised rows are permanent\<close>

text \<open>A finalised row survives every statement of every client unchanged.\<close>

lemma finalized_step:
  assumes "ledger_step s ev s'" and "sys_inv s" and "r \<in> set (ls_db s)" and "lr_state r = Finalized"
  shows "r \<in> set (ls_db s')"
  using assms
proof (induction rule: ledger_step.induct)
  case (start_fresh e c s row db out db')
  with resolve_fresh [OF start_fresh(1,3)] insert_claim_Some(1) [OF start_fresh(1)] show ?case by simp
next
  case (start_wait e c s db i)
  with insert_claim_None(1) [OF start_wait(1)] show ?case by simp
next
  case (resume s i c row db e out db')
  note load = load_claim_row [OF resume(2)]
  from load resume(3) have row: "row \<in> set (ls_db s)"
    and res: "resolve_row e row False c (ls_db s) = (Inr out, db')" by simp_all
  from sys_inv_db [OF resume(4)] row res show ?case
  proof (cases rule: resolve_row_existing)
    case taken
    with resume(5,6) show ?thesis by (auto simp: set_sql_update)
  qed (use resume(5) in simp)
next
  case (do_finalize e t status response s db')
  then show ?case
    by (auto simp: finalize_def finalize_claim_sql_def claim_params_def set_sql_update dest!: mutate_Inr(1))
next
  case (do_release e t s db')
  then show ?case
    by (auto simp: release_def release_claim_sql_def claim_params_def set_sql_delete dest!: mutate_Inr(1))
qed simp

lemma finalized_run:
  "ledger_run s evs s' \<Longrightarrow> sys_inv s \<Longrightarrow> r \<in> set (ls_db s) \<Longrightarrow> lr_state r = Finalized \<Longrightarrow>
   r \<in> set (ls_db s')"
proof (induction rule: ledger_run.induct)
  case (run_snoc s evs s' ev s'')
  then show ?case using sys_inv_run [OF run_snoc(1)] finalized_step by blast
qed

text \<open>What a successful \<open>finalize\<close> leaves behind: the token's row, finalised with its response.\<close>

lemma finalize_row:
  assumes "finalize e t status response db = (Inr (), db')"
  obtains r where "r \<in> set db" "claim_params t r"
    "r\<lparr>lr_state := Finalized, lr_status := Some status, lr_response := Some response,
      lr_lease := None, lr_version := lr_version r + 1\<rparr> \<in> set db'"
proof -
  from assms have db': "db' = finalize_claim_sql t status response db"
    and "sql_count (claim_params t) db = 1"
    by (auto simp: finalize_def dest: mutate_Inr)
  then have "\<exists>r \<in> set db. claim_params t r"
    using sql_count_eq_0 [of "claim_params t" db] by auto
  then obtain r where "r \<in> set db" "claim_params t r" by blast
  with db' show thesis by (intro that [of r]) (auto simp: finalize_claim_sql_def set_sql_update)
qed

definition finalizes :: "uuid \<Rightarrow> ledger_event \<Rightarrow> bool" where
  "finalizes i ev = (case ev of Ev_finalize t status response \<Rightarrow> ct_id t = i | _ \<Rightarrow> False)"

lemma finalizes_step:
  assumes "ledger_step s ev s'" and "finalizes i ev"
  shows "\<exists>r \<in> set (ls_db s). lr_id r = i \<and> lr_state r = Claimed"
    and "\<exists>r \<in> set (ls_db s'). lr_id r = i \<and> lr_state r = Finalized"
proof -
  from assms obtain e t status response db' where
    "finalize e t status response (ls_db s) = (Inr (), db')" and s': "s' = s\<lparr>ls_db := db'\<rparr>" "ct_id t = i"
    by (cases rule: ledger_step.cases) (auto simp: finalizes_def)
  then obtain r where r: "r \<in> set (ls_db s)" "claim_params t r"
    and r': "r\<lparr>lr_state := Finalized, lr_status := Some status, lr_response := Some response,
      lr_lease := None, lr_version := lr_version r + 1\<rparr> \<in> set db'"
    by (auto elim: finalize_row)
  from r s'(2) show "\<exists>r \<in> set (ls_db s). lr_id r = i \<and> lr_state r = Claimed"
    by (auto simp: claim_params_def)
  from r' r(2) s' show "\<exists>r \<in> set (ls_db s'). lr_id r = i \<and> lr_state r = Finalized"
    by (auto simp: claim_params_def intro!: bexI [OF _ r'])
qed

lemma finalizes_at_most_once:
  assumes "ledger_run s evs s'" and "sys_inv s"
  shows "length (filter (finalizes i) evs) \<le> 1 \<and>
    (filter (finalizes i) evs \<noteq> [] \<longrightarrow> (\<exists>r \<in> set (ls_db s'). lr_id r = i \<and> lr_state r = Finalized))"
  using assms
proof (induction rule: ledger_run.induct)
  case (run_snoc s evs s' ev s'')
  have inv: "sys_inv s'" using run_snoc(1,4) by (rule sys_inv_run)
  show ?case
  proof (cases "finalizes i ev")
    case True
    note new = finalizes_step [OF run_snoc(2) True]
    have "filter (finalizes i) evs = []"
    proof (rule ccontr)
      assume "filter (finalizes i) evs \<noteq> []"
      with run_snoc(3,4) obtain r where r: "r \<in> set (ls_db s')" "lr_id r = i" "lr_state r = Finalized" by blast
      from new(1) obtain r' where r': "r' \<in> set (ls_db s')" "lr_id r' = i" "lr_state r' = Claimed" by blast
      from r r' have "r = r'"
        by (auto intro: distinct_key_eq [OF ledger_invD(1) [OF sys_inv_db [OF inv]]])
      with r r' show False by simp
    qed
    with True new(2) show ?thesis by simp
  next
    case False
    with run_snoc(3,4) finalized_step [OF run_snoc(2) inv] show ?thesis by (auto 4 3)
  qed
qed simp

section \<open>Properties of the interleaved ledger\<close>

lemma run_init_inv: "ledger_run init_sys evs s \<Longrightarrow> sys_inv s"
  using sys_inv_run sys_inv_init by blast

lemma outrun_token:
  assumes "sys_inv s" and "u \<in> set (ls_owned s)" and "ct_id u = ct_id t" and "ct_version t < ct_version u"
  shows "sql_count (claim_params t) (ls_db s) = 0"
  using sys_inv_versions [OF assms(1,2)] assms(3,4)
  by (force simp: sql_count_eq_0 claim_params_def)

text \<open>
  C7. Fencing. In every reachable state, an owner whose lease was taken over (a token with a
  higher version of the same row has been handed out) can neither finalise nor release: both
  calls raise the conflict error and leave the table unchanged.
\<close>

theorem stale_owner_fenced:
  assumes "ledger_run init_sys evs s" and "t \<in> set (ls_owned s)" and "u \<in> set (ls_owned s)"
    and "ct_id t = ct_id u" and "ct_version t < ct_version u" and "env_fault e = None"
  shows "finalize e t status response (ls_db s)
      = (Inl (LedgerConflictError ''claim is no longer owned''), ls_db s) \<and>
    release e t (ls_db s) = (Inl (LedgerConflictError ''claim is no longer owned''), ls_db s)"
  using mutate_fails [OF assms(6)] outrun_token [OF run_init_inv [OF assms(1)] assms(3) _ assms(5)] assms(4)
  by (simp add: finalize_def release_def)

text \<open>
  C16. Mutual exclusion. In every reachable state, of all tokens ever handed out for one
  (organisation, agent, key), at most one would still pass the fence of \<open>finalize\<close> and
  \<open>release\<close>.
\<close>

theorem single_live_owner:
  assumes "ledger_run init_sys evs s" and "t \<in> set (ls_owned s)" and "u \<in> set (ls_owned s)"
    and "ct_org t = ct_org u" and "ct_agent t = ct_agent u" and "ct_key t = ct_key u"
    and "sql_count (claim_params t) (ls_db s) = 1" and "sql_count (claim_params u) (ls_db s) = 1"
  shows "t = u"
proof -
  note inv = run_init_inv [OF assms(1)]
  have ex: "\<exists>r \<in> set (ls_db s). claim_params x r" if "sql_count (claim_params x) (ls_db s) = 1" for x
    using that sql_count_eq_0 [of "claim_params x" "ls_db s"] by auto
  from ex [OF assms(7)] ex [OF assms(8)] obtain r r' where r: "r \<in> set (ls_db s)" "claim_params t r"
    and r': "r' \<in> set (ls_db s)" "claim_params u r'" by blast
  have "row_key r = row_key r'" using r r' assms(4-6) by (simp add: claim_params_def has_key_row_key)
  with r r' have "r = r'" by (intro distinct_key_eq [OF ledger_invD(2) [OF sys_inv_db [OF inv]]])
  with r r' have "fence t = fence u" by (simp add: fence_def claim_params_def)
  with assms(2,3) show ?thesis by (intro distinct_key_eq [OF sys_inv_fences [OF inv]])
qed

text \<open>
  C20. A row is finalised at most once over any interleaving of any number of clients, whatever
  tokens they present.
\<close>

theorem finalized_once:
  assumes "ledger_run init_sys evs s"
  shows "length (filter (finalizes i) evs) \<le> 1"
  using finalizes_at_most_once [OF assms sys_inv_init] by blast

text \<open>
  C21. Stable replay. Once a row is finalised, whatever other clients do afterwards, every claim
  with its key and request hash returns that status and response, every claim with its key and
  another hash is a conflict, and neither changes the table.
\<close>

theorem finalized_replay_stable:
  assumes "ledger_run init_sys evs s" and "r \<in> set (ls_db s)" and "lr_state r = Finalized"
    and "ledger_run s evs' s'" and "env_fault e = None" and "is_hash h"
  shows "\<exists>t a b. lr_status r = Some a \<and> lr_response r = Some b \<and>
    claim lease e (lr_org r) (lr_agent r) (lr_key r) h (ls_db s') =
      (Inr (if h = lr_hash r
            then (outcome KIND_REPLAY t)\<lparr>co_status := Some a, co_response := Some b\<rparr>
            else outcome KIND_CONFLICT t), ls_db s')"
proof -
  note inv = run_init_inv [OF assms(1)]
  have r': "r \<in> set (ls_db s')" using assms(4) inv assms(2,3) by (rule finalized_run)
  have inv': "ledger_inv (ls_db s')" using sys_inv_run [OF assms(4) inv] by (rule sys_inv_db)
  have k: "row_key r = (lr_org r, lr_agent r, lr_key r)" by (simp add: row_key_def)
  obtain a b where ab: "lr_status r = Some a" "lr_response r = Some b"
    using ledger_invD(3) [OF inv' r'] assms(3) by (auto simp: row_ok_def)
  let ?c = "claim_ctx lease (lr_org r) (lr_agent r) (lr_key r) h"
  have "rc_hash ?c = h" by (simp add: claim_ctx_def)
  with ab assms(3) show ?thesis
    unfolding claim_present [OF inv' r' k assms(5,6)]
    by (auto simp: Let_def resolve_row_def resolve_existing_row_def tx_defs scope_defs)
qed

section \<open>A concrete interleaving\<close>

definition demo_ctx :: resolve_context where
  "demo_ctx = claim_ctx second 1 2 ''k'' demo_hash"

definition demo_env_at :: "usec \<Rightarrow> env" where
  "demo_env_at now = \<lparr>env_now = now, env_time = now, env_uuid = 7, env_agents = [(1, 2)], env_fault = None\<rparr>"

definition demo_token :: "int \<Rightarrow> claim_token" where
  "demo_token v = \<lparr>ct_id = 7, ct_org = 1, ct_agent = 2, ct_key = ''k'', ct_hash = demo_hash, ct_version = v\<rparr>"

definition demo_row_at :: "int \<Rightarrow> usec \<Rightarrow> ledger_row" where
  "demo_row_at v x = \<lparr>lr_id = 7, lr_org = 1, lr_agent = 2, lr_key = ''k'', lr_hash = demo_hash,
     lr_state = Claimed, lr_status = None, lr_response = None, lr_lease = Some x, lr_version = v\<rparr>"

definition demo_done :: ledger_row where
  "demo_done = (demo_row_at 3 0)\<lparr>lr_state := Finalized, lr_status := Some 200, lr_response := Some [1, 2],
     lr_lease := None\<rparr>"

definition demo_taken_sys :: ledger_sys where
  "demo_taken_sys = \<lparr>ls_db = [demo_row_at 2 (3 * second)], ls_wait = (\<lambda>_. None),
     ls_owned = [demo_token 1, demo_token 2], ls_used = {7}\<rparr>"

definition demo_events :: "ledger_event list" where
  "demo_events = [Ev_claim demo_ctx (outcome KIND_OWNED (demo_token 1)), Ev_wait 0 demo_ctx,
     Ev_claim demo_ctx (outcome KIND_OWNED (demo_token 2))]"

lemmas demo_defs = demo_ctx_def demo_env_at_def demo_token_def demo_row_at_def claim_ctx_def
  lease_interval_def has_key_def

lemma demo_start:
  "ledger_step init_sys (Ev_claim demo_ctx (outcome KIND_OWNED (demo_token 1)))
     \<lparr>ls_db = [demo_row_at 1 second], ls_wait = (\<lambda>_. None), ls_owned = [demo_token 1], ls_used = {7}\<rparr>"
proof -
  have ins: "insert_claim (demo_env_at 0) demo_ctx (ls_db init_sys)
      = (Inr (Some (demo_row_at 1 second)), [demo_row_at 1 second])"
    using demo_hash_ok by (simp add: insert_claim_def new_row_def init_sys_def demo_defs)
  have res: "resolve_row (demo_env_at 0) (demo_row_at 1 second) True demo_ctx [demo_row_at 1 second]
      = (Inr (outcome KIND_OWNED (demo_token 1)), [demo_row_at 1 second])"
    by (simp add: resolve_row_def claim_from_row_def tx_defs demo_defs)
  show ?thesis
    using ledger_step.start_fresh [OF ins _ res] by (simp add: init_sys_def demo_env_at_def)
qed

lemma demo_wait:
  "ledger_step \<lparr>ls_db = [demo_row_at 1 second], ls_wait = (\<lambda>_. None), ls_owned = [demo_token 1], ls_used = {7}\<rparr>
     (Ev_wait 0 demo_ctx)
     \<lparr>ls_db = [demo_row_at 1 second], ls_wait = (\<lambda>_. None)(0 := Some demo_ctx), ls_owned = [demo_token 1],
      ls_used = {7}\<rparr>"
proof -
  have "insert_claim (demo_env_at 0) demo_ctx [demo_row_at 1 second] = (Inr None, [demo_row_at 1 second])"
    using demo_hash_ok by (simp add: insert_claim_def demo_defs)
  then show ?thesis
    using ledger_step.start_wait [of "demo_env_at 0" demo_ctx
        "\<lparr>ls_db = [demo_row_at 1 second], ls_wait = (\<lambda>_. None), ls_owned = [demo_token 1], ls_used = {7}\<rparr>"
        "[demo_row_at 1 second]" 0] by simp
qed

lemma demo_resume:
  "ledger_step \<lparr>ls_db = [demo_row_at 1 second], ls_wait = (\<lambda>_. None)(0 := Some demo_ctx),
      ls_owned = [demo_token 1], ls_used = {7}\<rparr>
     (Ev_claim demo_ctx (outcome KIND_OWNED (demo_token 2))) demo_taken_sys"
proof -
  let ?s = "\<lparr>ls_db = [demo_row_at 1 second], ls_wait = (\<lambda>_. None)(0 := Some demo_ctx),
      ls_owned = [demo_token 1], ls_used = {7}\<rparr>"
  have wait: "ls_wait ?s 0 = Some demo_ctx" by simp
  have load: "load_claim demo_ctx (ls_db ?s) = (Inr (Some (demo_row_at 1 second)), [demo_row_at 1 second])"
    by (simp add: load_claim_def sql_first_def tx_defs demo_defs)
  have res: "resolve_row (demo_env_at (2 * second)) (demo_row_at 1 second) False demo_ctx
      [demo_row_at 1 second] = (Inr (outcome KIND_OWNED (demo_token 2)), [demo_row_at 2 (3 * second)])"
    by (simp add: resolve_row_def resolve_existing_row_def reclaim_def reclaimable_def sql_first_def
        sql_update_def claim_from_row_def tx_defs demo_defs Let_def)
  show ?thesis
    using ledger_step.resume [OF wait load res] by (simp add: demo_taken_sys_def fun_upd_idem)
qed

lemma demo_run: "ledger_run init_sys demo_events demo_taken_sys"
proof -
  have "ledger_run init_sys ([] @ [Ev_claim demo_ctx (outcome KIND_OWNED (demo_token 1))])
     \<lparr>ls_db = [demo_row_at 1 second], ls_wait = (\<lambda>_. None), ls_owned = [demo_token 1], ls_used = {7}\<rparr>"
    by (rule run_snoc [OF run_nil demo_start])
  from run_snoc [OF run_snoc [OF this demo_wait] demo_resume] show ?thesis
    by (simp add: demo_events_def)
qed

theorem stale_owner_fenced_witness:
  "finalize (demo_env_at 0) (demo_token 1) 200 [1] (ls_db demo_taken_sys)
     = (Inl (LedgerConflictError ''claim is no longer owned''), ls_db demo_taken_sys) \<and>
   release (demo_env_at 0) (demo_token 1) (ls_db demo_taken_sys)
     = (Inl (LedgerConflictError ''claim is no longer owned''), ls_db demo_taken_sys)"
  by (rule stale_owner_fenced [OF demo_run, of _ "demo_token 2"])
     (simp_all add: demo_taken_sys_def demo_token_def demo_env_at_def)

theorem single_live_owner_witness:
  "demo_token 2 = demo_token 2 \<and> sql_count (claim_params (demo_token 2)) (ls_db demo_taken_sys) = 1 \<and>
   sql_count (claim_params (demo_token 1)) (ls_db demo_taken_sys) = 0"
proof -
  have live: "sql_count (claim_params (demo_token 2)) (ls_db demo_taken_sys) = 1"
    and dead: "sql_count (claim_params (demo_token 1)) (ls_db demo_taken_sys) = 0"
    by (simp_all add: sql_count_def claim_params_def demo_taken_sys_def demo_defs)
  have mem: "demo_token 2 \<in> set (ls_owned demo_taken_sys)" by (simp add: demo_taken_sys_def)
  from single_live_owner [OF demo_run mem mem refl refl refl live live] live dead show ?thesis by simp
qed

lemma demo_finalize:
  "ledger_step demo_taken_sys (Ev_finalize (demo_token 2) 200 [1, 2])
     (demo_taken_sys\<lparr>ls_db := [demo_done]\<rparr>)"
proof (rule ledger_step.do_finalize [of "demo_env_at 0"])
  show "finalize (demo_env_at 0) (demo_token 2) 200 [1, 2] (ls_db demo_taken_sys) = (Inr (), [demo_done])"
    by (simp add: finalize_def mutate_claim_def finalize_claim_sql_def sql_count_def sql_update_def
        claim_params_def with_driver_def tx_defs scope_defs demo_taken_sys_def demo_done_def demo_defs)
qed

theorem finalized_once_witness:
  "\<exists>s evs. ledger_run init_sys evs s \<and> last evs = Ev_finalize (demo_token 2) 200 [1, 2] \<and>
     length (filter (finalizes 7) evs) = 1"
proof -
  let ?evs = "demo_events @ [Ev_finalize (demo_token 2) 200 [1, 2]]"
  have run: "ledger_run init_sys ?evs (demo_taken_sys\<lparr>ls_db := [demo_done]\<rparr>)"
    by (rule run_snoc [OF demo_run demo_finalize])
  have "length (filter (finalizes 7) ?evs) \<le> 1" by (rule finalized_once [OF run])
  moreover have "finalizes 7 (Ev_finalize (demo_token 2) 200 [1, 2])" by (simp add: finalizes_def demo_token_def)
  ultimately have "length (filter (finalizes 7) ?evs) = 1" by simp
  with run show ?thesis by (intro exI [of _ "demo_taken_sys\<lparr>ls_db := [demo_done]\<rparr>"] exI [of _ ?evs]) simp
qed

theorem finalized_replay_stable_witness:
  "\<exists>t a b. lr_status demo_done = Some a \<and> lr_response demo_done = Some b \<and>
    claim second (demo_env_at 0) (lr_org demo_done) (lr_agent demo_done) (lr_key demo_done) demo_hash [demo_done]
      = (Inr (if demo_hash = lr_hash demo_done
              then (outcome KIND_REPLAY t)\<lparr>co_status := Some a, co_response := Some b\<rparr>
              else outcome KIND_CONFLICT t), [demo_done])"
proof -
  let ?s = "demo_taken_sys\<lparr>ls_db := [demo_done]\<rparr>"
  have run: "ledger_run init_sys (demo_events @ [Ev_finalize (demo_token 2) 200 [1, 2]]) ?s"
    by (rule run_snoc [OF demo_run demo_finalize])
  have mem: "demo_done \<in> set (ls_db ?s)" and st: "lr_state demo_done = Finalized"
    and fault: "env_fault (demo_env_at 0) = None"
    by (simp_all add: demo_done_def demo_env_at_def)
  from finalized_replay_stable [OF run mem st run_nil fault demo_hash_ok, of second] show ?thesis by simp
qed

end
