(* ===== verification/Proxy_Keys.thy ===== *)
theory Proxy_Keys
  imports Proxy_Runtime Idempotency_System
begin

text \<open>
  The proxy's idempotency ledger, \<open>packages/idempotency/ledger.go\<close>, on the table that the Python adapter
  of \<open>packages/ibex_idempotency\<close> also uses. The statements have the same text as the adapter's and are its
  functions on rows; what differs is the code around them. The two ledgers are shown to decide alike, and finalized
  rows to outlive whatever clients of either do.
\<close>

section \<open>The ledger\<close>

datatype key_error = ErrInvalidLedgerClaim | ErrLedgerConflict | ErrLedgerDatabase

text \<open>\<open>NewPostgresLedger\<close> replaces a lease that is not positive.\<close>

definition key_lease :: "usec \<Rightarrow> usec" where
  "key_lease lease = (if lease \<le> 0 then 2 * 60 * second else lease)"

definition validClaim :: "uuid \<Rightarrow> uuid \<Rightarrow> string \<Rightarrow> string \<Rightarrow> bool" where
  "validClaim org agent key requestHash \<longleftrightarrow>
     org \<noteq> 0 \<and> agent \<noteq> 0 \<and> trim_space key \<noteq> '''' \<and> trim_space requestHash \<noteq> '''' \<and> utf8_length key \<le> 256"

definition insertOrLoad :: "env \<Rightarrow> resolve_context \<Rightarrow> (ledger_db, key_error, ledger_row \<times> bool) tx" where
  "insertOrLoad e c =
     tx_bind (map_error (\<lambda>_. ErrLedgerDatabase) (insert_claim e c)) (\<lambda>inserted. case inserted of
       Some row \<Rightarrow> tx_return (row, True)
     | None \<Rightarrow> tx_bind (map_error (\<lambda>_. ErrLedgerDatabase) (load_claim c)) (\<lambda>loaded. case loaded of
         None \<Rightarrow> tx_raise ErrLedgerDatabase
       | Some row \<Rightarrow> tx_return (row, False)))"

definition row_token :: "ledger_row \<Rightarrow> resolve_context \<Rightarrow> idem_token" where
  "row_token row c = \<lparr>itID = lr_id row, itOrgID = rc_org c, itAgentID = rc_agent c, itKey = rc_key c,
     itRequestHash = lr_hash row, itVersion = lr_version row\<rparr>"

text \<open>A response body is bytes in the table and a string of such characters in the handler.\<close>

definition body_bytes :: "string \<Rightarrow> bytes" where "body_bytes s = map of_char s"

definition bytes_body :: "bytes \<Rightarrow> string" where "bytes_body b = map char_of b"

lemma body_bytes_inverse [simp]: "bytes_body (body_bytes s) = s"
  by (simp add: body_bytes_def bytes_body_def comp_def)

definition resolveClaim ::
  "env \<Rightarrow> resolve_context \<Rightarrow> ledger_row \<Rightarrow> bool \<Rightarrow> (ledger_db, key_error, ledger_outcome) tx" where
  "resolveClaim e c row fresh =
     (if lr_hash row \<noteq> rc_hash c then tx_return LConflict
      else if fresh then tx_return (LOwned (row_token row c))
      else if lr_state row = Finalized
      then tx_return (LReplay (case lr_status row of None \<Rightarrow> 0 | Some status \<Rightarrow> status)
             (case lr_response row of None \<Rightarrow> '''' | Some response \<Rightarrow> bytes_body response))
      else case lr_lease row of
          None \<Rightarrow> tx_raise ErrLedgerDatabase
        | Some expires \<Rightarrow>
            if lr_state row \<noteq> Claimed then tx_raise ErrLedgerDatabase
            else if env_time e < expires then tx_return (LInProgress (expires - env_time e))
            else (\<lambda>db.
              let bump = (\<lambda>r. r\<lparr>lr_lease := Some (env_now e + rc_lease c), lr_version := lr_version r + 1\<rparr>);
                  db' = sql_update (reclaimable e row c) bump db
              in case sql_first (reclaimable e row c) db of
                  None \<Rightarrow> (Inr (LInProgress second), db')
                | Some r \<Rightarrow> (Inr (LOwned ((row_token row c)\<lparr>itVersion := lr_version (bump r)\<rparr>)), db')))"

definition key_ctx :: "usec \<Rightarrow> uuid \<Rightarrow> uuid \<Rightarrow> string \<Rightarrow> string \<Rightarrow> resolve_context" where
  "key_ctx lease org agent key requestHash =
     \<lparr>rc_org = org, rc_agent = agent, rc_key = key, rc_hash = requestHash, rc_lease = key_lease lease\<rparr>"

text \<open>A transaction that does not begin, or fails later on, leaves the table as it was.\<close>

definition key_tx :: "env \<Rightarrow> (ledger_db, key_error, 'a) tx \<Rightarrow> (ledger_db, key_error, 'a) tx" where
  "key_tx e fn = (if env_fault e \<noteq> None then tx_raise ErrLedgerDatabase else service_org_session fn)"

definition Claim ::
  "usec \<Rightarrow> env \<Rightarrow> uuid \<Rightarrow> uuid \<Rightarrow> string \<Rightarrow> string \<Rightarrow> (ledger_db, key_error, ledger_outcome) tx" where
  "Claim lease e org agent rawKey rawHash =
     (let key = trim_space rawKey; requestHash = trim_space rawHash in
      if \<not> validClaim org agent key requestHash then tx_raise ErrInvalidLedgerClaim
      else let c = key_ctx lease org agent key requestHash in
        key_tx e (tx_bind (insertOrLoad e c) (\<lambda>(row, fresh). resolveClaim e c row fresh)))"

definition token_params :: "idem_token \<Rightarrow> ledger_row \<Rightarrow> bool" where
  "token_params t r \<longleftrightarrow>
     lr_id r = itID t \<and> has_key (itOrgID t) (itAgentID t) (itKey t) r \<and> lr_hash r = itRequestHash t \<and>
     lr_version r = itVersion t \<and> lr_state r = Claimed"

definition withClaimTx ::
  "env \<Rightarrow> idem_token \<Rightarrow> (ledger_db, key_error, unit) tx \<Rightarrow> (ledger_db, key_error, unit) tx" where
  "withClaimTx e t fn =
     (if \<not> validClaim (itOrgID t) (itAgentID t) (itKey t) (itRequestHash t) \<or> itID t = 0 \<or> itVersion t \<le> 0
      then tx_raise ErrInvalidLedgerClaim
      else key_tx e fn)"

text \<open>A statement and the test of \<open>RowsAffected\<close>.\<close>

definition affects_one :: "idem_token \<Rightarrow> (ledger_db \<Rightarrow> ledger_db) \<Rightarrow> (ledger_db, key_error, unit) tx" where
  "affects_one t statement =
     tx_bind (tx_get (sql_count (token_params t))) (\<lambda>n.
     tx_bind (tx_put statement) (\<lambda>_.
     if n \<noteq> 1 then tx_raise ErrLedgerConflict else tx_return ()))"

definition Finalize :: "env \<Rightarrow> idem_token \<Rightarrow> int \<Rightarrow> string \<Rightarrow> (ledger_db, key_error, unit) tx" where
  "Finalize e t status response = withClaimTx e t (affects_one t (sql_update (token_params t)
     (\<lambda>r. r\<lparr>lr_state := Finalized, lr_status := Some status, lr_response := Some (body_bytes response),
            lr_lease := None, lr_version := lr_version r + 1\<rparr>)))"

definition Release :: "env \<Rightarrow> idem_token \<Rightarrow> (ledger_db, key_error, unit) tx" where
  "Release e t = withClaimTx e t (affects_one t (sql_delete (token_params t)))"

section \<open>The two ledgers decide alike\<close>

definition token_of :: "idem_token \<Rightarrow> claim_token" where
  "token_of t = \<lparr>ct_id = itID t, ct_org = itOrgID t, ct_agent = itAgentID t, ct_key = itKey t,
     ct_hash = itRequestHash t, ct_version = itVersion t\<rparr>"

lemma token_params_eq: "token_params t = claim_params (token_of t)"
  by (simp add: fun_eq_iff token_params_def claim_params_def token_of_def)

fun agrees :: "ledger_outcome \<Rightarrow> claim_outcome \<Rightarrow> bool" where
  "agrees (LOwned t) out \<longleftrightarrow> co_kind out = KIND_OWNED \<and> co_claim out = Some (token_of t)"
| "agrees (LReplay status body) out \<longleftrightarrow> co_kind out = KIND_REPLAY \<and> co_status out = Some status \<and>
     map_option bytes_body (co_response out) = Some body"
| "agrees LConflict out \<longleftrightarrow> co_kind out = KIND_CONFLICT"
| "agrees (LInProgress retry) out \<longleftrightarrow> co_kind out = KIND_IN_PROGRESS"

definition same_result :: "(key_error + ledger_outcome) \<times> ledger_db \<Rightarrow> (ledger_error + claim_outcome) \<times> ledger_db \<Rightarrow> bool" where
  "same_result go py \<longleftrightarrow> snd go = snd py \<and> (case (fst go, fst py) of
     (Inr a, Inr b) \<Rightarrow> agrees a b | (Inl _, Inl _) \<Rightarrow> True | _ \<Rightarrow> False)"

lemma resolveClaim_agrees:
  assumes "row \<in> set db" "ledger_inv db"
  shows "case (resolveClaim e c row fresh db, resolve_row e row fresh c db) of
    ((Inr a, d1), Inr b, d2) \<Rightarrow> agrees a b \<and> d1 = d2 | ((Inl _, d1), Inl _, d2) \<Rightarrow> True | _ \<Rightarrow> False"
proof -
  have "row_ok row" using assms by (auto dest: ledger_invD(3))
  then show ?thesis
    unfolding resolveClaim_def resolve_row_def resolve_existing_row_def reclaim_def Let_def
    by (auto simp: tx_defs outcome_def row_token_def claim_from_row_def token_of_def row_ok_def split: option.splits)
qed

lemma key_ctx_eq: "second \<le> lease \<Longrightarrow> key_ctx lease org agent key h = claim_ctx lease org agent key h"
  by (simp add: key_ctx_def claim_ctx_def key_lease_def lease_interval_def)

lemma claims_agree:
  assumes inv: "ledger_inv db" and ids: "org \<noteq> 0" "agent \<noteq> 0" and trimmed: "trim_space key = key" "trim_space h = h"
    and lease: "second \<le> lease" and bytes: "utf8_length key \<le> 256"
  shows "same_result (Claim lease e org agent key h db) (Idempotency_Ledger.claim lease e org agent key h db)"
proof (cases "validate_claim key h = None \<and> env_fault e = None")
  case False
  then show ?thesis using ids trimmed utf8_length_ge [of key]
    by (auto simp: Claim_def Let_def validClaim_def Idempotency_Ledger.claim_def validate_claim_def key_tx_def with_driver_def
        same_result_def tx_defs scope_defs split: if_splits)
next
  case True
  let ?c = "claim_ctx lease org agent key h"
  have go: "Claim lease e org agent key h db = service_org_session (tx_bind (insertOrLoad e ?c) (\<lambda>(row, fresh). resolveClaim e ?c row fresh)) db"
    using True ids trimmed lease bytes
    by (auto simp: Claim_def Let_def validClaim_def validate_claim_def key_tx_def key_ctx_eq split: if_splits)
  have py: "Idempotency_Ledger.claim lease e org agent key h db = map_error claim_handler (service_org_session
      (tx_bind (insert_or_load e ?c) (\<lambda>(row, fresh). case row of
         None \<Rightarrow> tx_raise (LedgerExc (LedgerError ''idempotency ledger row disappeared''))
       | Some r \<Rightarrow> resolve_row e r fresh ?c))) db"
    using True by (simp add: Idempotency_Ledger.claim_def Let_def with_driver_def)
  obtain res db1 where ins: "insert_claim e ?c db = (res, db1)" by fastforce
  show ?thesis
  proof (cases res)
    case (Inl x)
    with ins show ?thesis
      by (simp add: go py same_result_def insertOrLoad_def insert_or_load_def tx_defs scope_defs)
  next
    case (Inr r)
    show ?thesis
    proof (cases r)
      case (Some row)
      with ins Inr have ins': "insert_claim e ?c db = (Inr (Some row), db1)" by simp
      have "row \<in> set db1" "ledger_inv db1" using insert_claim_Some(1) [OF ins'] ledger_inv_insert [OF inv ins'] by simp_all
      from resolveClaim_agrees [OF this, of e ?c True] ins' show ?thesis
        by (auto simp: go py same_result_def insertOrLoad_def insert_or_load_def tx_defs scope_defs
            split: prod.splits sum.splits)
    next
      case None
      with ins Inr have ins': "insert_claim e ?c db = (Inr None, db1)" by simp
      then have "db1 = db" by (rule insert_claim_None)
      show ?thesis
      proof (cases "sql_first (has_key (rc_org ?c) (rc_agent ?c) (rc_key ?c)) db")
        case None
        with ins' \<open>db1 = db\<close> show ?thesis
          by (simp add: go py same_result_def insertOrLoad_def insert_or_load_def load_claim_def tx_defs scope_defs)
      next
        case (Some row)
        then have "row \<in> set db" by (auto dest: sql_first_Some)
        from resolveClaim_agrees [OF this inv, of e ?c False] Some ins' \<open>db1 = db\<close> show ?thesis
          by (auto simp: go py same_result_def insertOrLoad_def insert_or_load_def load_claim_def tx_defs scope_defs
              split: prod.splits sum.splits)
      qed
    qed
  qed
qed

text \<open>
  C14. On the same table the proxy's ledger and the Python adapter decide alike. For a table that
  keeps its invariant, ids that are not nil, keys and hashes without surrounding white space, a
  lease of a second or more and a key of at most 256 bytes of UTF-8, a claim succeeds in both
  ledgers or in none, with the same decision, the same token or the same recorded status and
  response, and leaves the same rows. A key of more bytes is refused by the proxy, also when it
  has at most 256 characters and the adapter takes it.
\<close>

theorem ledgers_agree:
  assumes inv: "ledger_inv db" and ids: "org \<noteq> 0" "agent \<noteq> 0" and trimmed: "trim_space key = key" "trim_space h = h"
    and lease: "second \<le> lease"
  shows "(utf8_length key \<le> 256 \<longrightarrow>
      same_result (Claim lease e org agent key h db) (Idempotency_Ledger.claim lease e org agent key h db)) \<and>
    (256 < utf8_length key \<longrightarrow> Claim lease e org agent key h db = (Inl ErrInvalidLedgerClaim, db))"
proof (intro conjI impI)
  assume "utf8_length key \<le> 256"
  with assms show "same_result (Claim lease e org agent key h db) (Idempotency_Ledger.claim lease e org agent key h db)"
    by (rule claims_agree)
next
  assume "256 < utf8_length key"
  then show "Claim lease e org agent key h db = (Inl ErrInvalidLedgerClaim, db)"
    using trimmed by (simp add: Claim_def validClaim_def Let_def tx_raise_def)
qed

definition valid_token :: "idem_token \<Rightarrow> bool" where
  "valid_token t \<longleftrightarrow> validClaim (itOrgID t) (itAgentID t) (itKey t) (itRequestHash t) \<and> itID t \<noteq> 0 \<and> 0 < itVersion t"

lemma settle_agrees:
  assumes "valid_token t"
  shows "snd (Finalize e t status body db) = snd (Idempotency_Ledger.finalize e (token_of t) status (body_bytes body) db)"
    and "isl (fst (Finalize e t status body db)) = isl (fst (Idempotency_Ledger.finalize e (token_of t) status (body_bytes body) db))"
    and "snd (Release e t db) = snd (Idempotency_Ledger.release e (token_of t) db)"
    and "isl (fst (Release e t db)) = isl (fst (Idempotency_Ledger.release e (token_of t) db))"
  using assms
  by (auto simp: valid_token_def Finalize_def Release_def withClaimTx_def key_tx_def affects_one_def token_params_eq
      Idempotency_Ledger.finalize_def Idempotency_Ledger.release_def mutate_claim_def finalize_claim_sql_def release_claim_sql_def
      with_driver_def tx_defs scope_defs split: option.splits)

section \<open>Clients of either ledger\<close>

datatype key_cmd =
    Proxy_claim env uuid uuid string string
  | Proxy_finalize env idem_token int string
  | Proxy_release env idem_token
  | Adapter ledger_cmd

fun exec_key :: "usec \<Rightarrow> key_cmd \<Rightarrow> (ledger_db, unit, unit) tx" where
  "exec_key lease (Proxy_claim e org agent key h) = map_error (\<lambda>_. ()) (tx_bind (Claim lease e org agent key h) (\<lambda>_. tx_return ()))"
| "exec_key lease (Proxy_finalize e t status body) = map_error (\<lambda>_. ()) (Finalize e t status body)"
| "exec_key lease (Proxy_release e t) = map_error (\<lambda>_. ()) (Release e t)"
| "exec_key lease (Adapter cmd) = map_error (\<lambda>_. ()) (tx_bind (exec_ledger lease cmd) (\<lambda>_. tx_return ()))"

text \<open>No command of either kind touches a finalized row.\<close>

definition keeps_final :: "ledger_db \<Rightarrow> ledger_db \<Rightarrow> bool" where
  "keeps_final db db' \<longleftrightarrow> ledger_inv db' \<and> (\<forall>r \<in> set db. lr_state r = Finalized \<longrightarrow> r \<in> set db')"

lemma keeps_final_refl: "ledger_inv db \<Longrightarrow> keeps_final db db"
  by (simp add: keeps_final_def)

lemma keeps_final_trans: "keeps_final a b \<Longrightarrow> keeps_final b c \<Longrightarrow> keeps_final a c"
  by (auto simp: keeps_final_def)

lemma keeps_final_update:
  "ledger_inv (sql_update p f db) \<Longrightarrow> (\<And>r. p r \<Longrightarrow> lr_state r = Claimed) \<Longrightarrow> keeps_final db (sql_update p f db)"
  by (force simp: keeps_final_def set_sql_update)

lemma keeps_final_delete:
  "ledger_inv db \<Longrightarrow> (\<And>r. p r \<Longrightarrow> lr_state r = Claimed) \<Longrightarrow> keeps_final db (sql_delete p db)"
  by (auto simp: keeps_final_def set_sql_delete ledger_inv_delete)

lemma keeps_final_insert:
  "ledger_inv db \<Longrightarrow> insert_claim e c db = (Inr (Some row), db') \<Longrightarrow> keeps_final db db'"
  using ledger_inv_insert [of db e c row db'] insert_claim_Some(1) [of e c db row db'] by (simp add: keeps_final_def)

lemma keeps_final_reclaim:
  assumes "ledger_inv db"
  shows "keeps_final db (sql_update (reclaimable e row c) (\<lambda>r. r\<lparr>lr_lease := Some x, lr_version := lr_version r + 1\<rparr>) db)"
proof (rule keeps_final_update)
  show "ledger_inv (sql_update (reclaimable e row c) (\<lambda>r. r\<lparr>lr_lease := Some x, lr_version := lr_version r + 1\<rparr>) db)"
    using assms by (rule ledger_inv_update) (auto dest: ledger_invD(3) [OF assms] simp: row_key_def row_ok_def)
qed (simp add: reclaimable_def)

lemma resolveClaim_keeps:
  "ledger_inv db \<Longrightarrow> resolveClaim e c row fresh db = (out, db') \<Longrightarrow> keeps_final db db'"
  unfolding resolveClaim_def Let_def
  by (auto simp: tx_defs keeps_final_refl keeps_final_reclaim split: if_splits option.splits)

lemma key_tx_keeps:
  assumes "ledger_inv db" "key_tx e fn db = (out, db')" "\<And>x d. fn db = (Inr x, d) \<Longrightarrow> keeps_final db d"
  shows "keeps_final db db'"
  using assms by (auto simp: key_tx_def tx_defs service_org_session_def keeps_final_refl split: if_splits prod.splits sum.splits)

lemma Claim_keeps:
  assumes inv: "ledger_inv db" and run: "Claim lease e org agent key h db = (out, db')"
  shows "keeps_final db db'"
proof (cases "validClaim org agent (trim_space key) (trim_space h)")
  case False
  with run inv show ?thesis by (simp add: Claim_def Let_def tx_defs keeps_final_refl)
next
  case True
  let ?c = "key_ctx lease org agent (trim_space key) (trim_space h)"
  from True run have "key_tx e (tx_bind (insertOrLoad e ?c) (\<lambda>(row, fresh). resolveClaim e ?c row fresh)) db = (out, db')"
    by (simp add: Claim_def Let_def)
  then show ?thesis
  proof (rule key_tx_keeps [OF inv])
    fix x d
    assume "tx_bind (insertOrLoad e ?c) (\<lambda>(row, fresh). resolveClaim e ?c row fresh) db = (Inr x, d)"
    then obtain inserted db1 where ins: "insert_claim e ?c db = (Inr inserted, db1)"
      and cont: "\<exists>row fresh. resolveClaim e ?c row fresh db1 = (Inr x, d)"
      by (auto simp: insertOrLoad_def load_claim_def tx_inv tx_defs map_error_def split: option.splits prod.splits sum.splits)
    have first: "keeps_final db db1"
      using ins keeps_final_insert [OF inv] insert_claim_None(1) [of e ?c db db1] keeps_final_refl [OF inv]
      by (cases inserted) auto
    then have "ledger_inv db1" by (simp add: keeps_final_def)
    with cont first show "keeps_final db d" by (blast intro: resolveClaim_keeps keeps_final_trans)
  qed
qed

lemma affects_one_Inr: "affects_one t statement db = (Inr x, d) \<Longrightarrow> d = statement db"
  by (auto simp: affects_one_def tx_defs split: if_splits)

lemma withClaimTx_keeps:
  assumes inv: "ledger_inv db" and run: "withClaimTx e t (affects_one t statement) db = (out, db')" and st: "keeps_final db (statement db)"
  shows "keeps_final db db'"
proof (cases "valid_token t")
  case False
  with run have "db' = db" by (auto simp: withClaimTx_def valid_token_def tx_defs not_le split: if_splits)
  with inv show ?thesis by (simp add: keeps_final_refl)
next
  case True
  with run have "key_tx e (affects_one t statement) db = (out, db')" by (simp add: withClaimTx_def valid_token_def)
  with inv show ?thesis by (rule key_tx_keeps) (use st in \<open>auto dest: affects_one_Inr\<close>)
qed

lemma settle_keeps:
  assumes inv: "ledger_inv db"
  shows "Finalize e t status body db = (out, db') \<Longrightarrow> keeps_final db db'" and "Release e t db = (out, db') \<Longrightarrow> keeps_final db db'"
proof -
  have final: "keeps_final db (sql_update (token_params t) (\<lambda>r. r\<lparr>lr_state := Finalized, lr_status := Some status,
      lr_response := Some (body_bytes body), lr_lease := None, lr_version := lr_version r + 1\<rparr>) db)"
    using ledger_inv_finalize [OF inv, of "token_of t" status "body_bytes body"]
    by (intro keeps_final_update) (simp_all add: token_params_eq finalize_claim_sql_def claim_params_def)
  have gone: "keeps_final db (sql_delete (token_params t) db)"
    by (rule keeps_final_delete [OF inv]) (simp add: token_params_def)
  show "Finalize e t status body db = (out, db') \<Longrightarrow> keeps_final db db'"
    unfolding Finalize_def by (erule withClaimTx_keeps [OF inv]) (rule final)
  show "Release e t db = (out, db') \<Longrightarrow> keeps_final db db'"
    unfolding Release_def by (erule withClaimTx_keeps [OF inv]) (rule gone)
qed

lemma exec_ledger_keeps:
  assumes inv: "ledger_inv db" and run: "exec_ledger lease cmd db = (Inr r, db')"
  shows "keeps_final db db'"
proof (cases cmd)
  case (Claim_cmd e org agent key h)
  with run obtain out where "Idempotency_Ledger.claim lease e org agent key h db = (Inr out, db')"
    by (auto simp: bind_return_Inr)
  then show ?thesis
  proof (cases rule: claim_Inr)
    case fresh
    with inv show ?thesis by (blast intro: keeps_final_insert)
  next
    case (existing c row)
    from inv existing(2,4) show ?thesis
    proof (cases rule: resolve_row_existing)
      case taken
      then show ?thesis using ledger_inv_taken [OF inv taken(2)] by (auto intro: keeps_final_update)
    qed (simp add: keeps_final_refl inv)
  qed
next
  case (Finalize_cmd e t a b)
  with run have "db' = finalize_claim_sql t a b db"
    by (auto simp: bind_return_Inr Idempotency_Ledger.finalize_def dest: mutate_Inr(1))
  with ledger_inv_finalize [OF inv, of t a b] show ?thesis
    by (auto simp: finalize_claim_sql_def claim_params_def intro: keeps_final_update)
next
  case (Release_cmd e t)
  with run have "db' = release_claim_sql t db"
    by (auto simp: bind_return_Inr Idempotency_Ledger.release_def dest: mutate_Inr(1))
  with inv show ?thesis by (auto simp: release_claim_sql_def claim_params_def intro: keeps_final_delete)
qed

lemma exec_key_keeps: "ledger_inv db \<Longrightarrow> keeps_final db (snd (exec_key lease cmd db))"
proof (cases cmd)
  case (Proxy_claim e org agent key h)
  assume "ledger_inv db"
  with Claim_keeps [of db lease e org agent key h] Proxy_claim show ?thesis
    by (cases "Claim lease e org agent key h db") (auto simp: map_error_def tx_defs split: sum.splits)
next
  case (Proxy_finalize e t status body)
  assume "ledger_inv db"
  with settle_keeps(1) [of db e t status body] Proxy_finalize show ?thesis
    by (cases "Finalize e t status body db") (auto simp: map_error_def split: sum.splits)
next
  case (Proxy_release e t)
  assume "ledger_inv db"
  with settle_keeps(2) [of db e t] Proxy_release show ?thesis
    by (cases "Release e t db") (auto simp: map_error_def split: sum.splits)
next
  case (Adapter c)
  assume inv: "ledger_inv db"
  show ?thesis
  proof (cases "fst (exec_ledger lease c db)")
    case (Inl x)
    then have "snd (exec_ledger lease c db) = db" by (rule idem.rollback)
    with Inl Adapter inv show ?thesis
      by (cases "exec_ledger lease c db") (simp add: map_error_def tx_defs keeps_final_refl)
  next
    case (Inr r)
    with exec_ledger_keeps [OF inv, of lease c r] Adapter show ?thesis
      by (cases "exec_ledger lease c db") (simp add: map_error_def tx_defs)
  qed
qed

lemma exec_ledger_rollback: "exec_ledger lease cmd db = (Inl x, db') \<Longrightarrow> db' = db"
  using idem.rollback [of lease cmd db x] by simp

interpretation keys: transactional_inv "exec_key lease" ledger_inv for lease
proof unfold_locales
  fix cmd db x
  assume "fst (exec_key lease cmd db) = Inl x"
  then show "snd (exec_key lease cmd db) = db"
    by (cases cmd)
      (auto simp: Finalize_def Release_def withClaimTx_def Claim_def Let_def key_tx_def tx_defs scope_defs
        split: if_splits prod.splits sum.splits dest: exec_ledger_rollback)
next
  fix cmd db r
  assume "ledger_inv db"
  then show "ledger_inv (snd (exec_key lease cmd db))" using exec_key_keeps by (simp add: keeps_final_def)
qed

lemma run_keys_keeps: "ledger_inv db \<Longrightarrow> keeps_final db (run_all (exec_key lease) cmds db)"
proof (induction cmds arbitrary: db)
  case Nil
  then show ?case by (simp add: keeps_final_refl)
next
  case (Cons cmd cmds)
  show ?case
    using keeps_final_trans [OF exec_key_keeps [OF Cons.prems] Cons.IH [OF keys.inv_exec [OF Cons.prems]]] by simp
qed

section \<open>A finalized response is replayed\<close>

text \<open>The row that keeps a response.\<close>

definition recorded :: "idem_token \<Rightarrow> int \<Rightarrow> string \<Rightarrow> ledger_db \<Rightarrow> bool" where
  "recorded t status body db \<longleftrightarrow> (\<exists>r \<in> set db. has_key (itOrgID t) (itAgentID t) (itKey t) r \<and> lr_hash r = itRequestHash t \<and>
     lr_state r = Finalized \<and> lr_status r = Some status \<and> lr_response r = Some (body_bytes body))"

lemma recorded_keeps: "recorded t status body db \<Longrightarrow> keeps_final db db' \<Longrightarrow> recorded t status body db'"
  by (auto simp: recorded_def keeps_final_def)

lemma Finalize_records:
  assumes "Finalize e t status body db = (Inr (), db')"
  shows "recorded t status body db'"
proof -
  let ?f = "\<lambda>r. r\<lparr>lr_state := Finalized, lr_status := Some status, lr_response := Some (body_bytes body),
      lr_lease := None, lr_version := lr_version r + 1\<rparr>"
  from assms have "sql_count (token_params t) db = 1" "db' = sql_update (token_params t) ?f db"
    by (auto simp: Finalize_def withClaimTx_def key_tx_def affects_one_def tx_defs service_org_session_def
        split: if_splits prod.splits sum.splits)
  then obtain r where "r \<in> set db" "token_params t r"
    by (auto simp: sql_count_def filter_empty_conv dest!: arg_cong [of _ _ "\<lambda>n. n \<noteq> 0"])
  with \<open>db' = _\<close> show ?thesis
    by (auto simp: recorded_def set_sql_update token_params_def has_key_def intro!: bexI [of _ "?f r"])
qed

lemma trim_space_id: "(\<And>c. c \<in> set s \<Longrightarrow> \<not> go_isspace c) \<Longrightarrow> trim_space s = s"
proof -
  assume black: "\<And>c. c \<in> set s \<Longrightarrow> \<not> go_isspace c"
  have "dropWhile go_isspace xs = xs" if "set xs \<subseteq> set s" for xs
    using that black by (cases xs) auto
  then show "trim_space s = s" by (simp add: trim_space_def)
qed

lemma trim_space_idem [simp]: "trim_space (trim_space s) = trim_space s"
proof -
  let ?a = "dropWhile go_isspace s" and ?b = "rev (dropWhile go_isspace (rev (dropWhile go_isspace s)))"
  have "rev ?a = takeWhile go_isspace (rev ?a) @ dropWhile go_isspace (rev ?a)" by simp
  then have a: "?a = ?b @ rev (takeWhile go_isspace (rev ?a))" by (metis rev_append rev_rev_ident)
  have "dropWhile go_isspace ?b = ?b"
  proof (cases ?b)
    case (Cons x xs)
    with a have "?a \<noteq> []" "hd ?a = x" by (metis append_Cons list.distinct(1), metis append_Cons list.sel(1))
    then have "\<not> go_isspace x" using hd_dropWhile by blast
    with Cons show ?thesis by simp
  next
    case Nil
    then show ?thesis by (simp only: dropWhile.simps)
  qed
  then show ?thesis by (simp add: trim_space_def dropWhile_idem)
qed

lemma hex_no_space: "is_hash h \<Longrightarrow> trim_space h = h"
proof (rule trim_space_id)
  fix c
  assume "is_hash h" "c \<in> set h"
  then have "c \<in> set ''0123456789abcdef''" by (auto simp: is_hash_def list_all_iff)
  moreover have "\<forall>c \<in> set ''0123456789abcdef''. \<not> go_isspace c" by (simp add: go_isspace_def)
  ultimately show "\<not> go_isspace c" by blast
qed

lemma Claim_valid: "Claim lease e org agent key h db = (Inr out, db') \<Longrightarrow> validClaim org agent (trim_space key) (trim_space h)"
  by (auto simp: Claim_def Let_def tx_raise_def split: if_splits)

lemma Claim_replays:
  assumes inv: "ledger_inv db" and rec: "recorded t status body db" and up: "env_fault e = None"
    and ids: "itOrgID t \<noteq> 0" "itAgentID t \<noteq> 0" and key: "trim_space (itKey t) = itKey t" "utf8_length (itKey t) \<le> 256"
  shows "Claim lease e (itOrgID t) (itAgentID t) (itKey t) (itRequestHash t) db = (Inr (LReplay status body), db)"
proof -
  from rec obtain r where r: "r \<in> set db" "has_key (itOrgID t) (itAgentID t) (itKey t) r" "lr_hash r = itRequestHash t"
      "lr_state r = Finalized" "lr_status r = Some status" "lr_response r = Some (body_bytes body)"
    by (auto simp: recorded_def)
  let ?c = "key_ctx lease (itOrgID t) (itAgentID t) (itKey t) (itRequestHash t)"
  have ok: "is_hash (itRequestHash t)" "itKey t \<noteq> []" "length (itKey t) \<le> 256"
    using ledger_invD(3) [OF inv r(1)] r(2,3) by (auto simp: row_ok_def has_key_def)
  note hash = hex_no_space [OF ok(1)]
  have "insert_claim e ?c db = (Inr None, db)"
    using ok r(1,2) by (auto simp: insert_claim_def key_ctx_def)
  moreover have "sql_first (has_key (itOrgID t) (itAgentID t) (itKey t)) db = Some r"
    by (rule sql_first_unique [OF ledger_invD(2) [OF inv] r(1)]) (use r(2) in \<open>simp_all add: has_key_row_key\<close>)
  ultimately have "insertOrLoad e ?c db = (Inr (r, False), db)"
    by (simp add: insertOrLoad_def load_claim_def tx_defs map_error_def key_ctx_def)
  moreover have "resolveClaim e ?c r False db = (Inr (LReplay status body), db)"
    using r by (simp add: resolveClaim_def key_ctx_def tx_defs)
  moreover have "validClaim (itOrgID t) (itAgentID t) (itKey t) (itRequestHash t)"
    using ids ok key hash is_hash_nonempty [OF ok(1)] by (simp add: validClaim_def)
  ultimately show ?thesis
    using up by (simp add: Claim_def Let_def key hash key_tx_def tx_bind_def service_org_session_def)
qed

text \<open>One key within both limits, and one of 129 two-byte characters, which only the adapter takes.\<close>

definition accented_key :: string where "accented_key = replicate 129 (CHR 0xE9)"

lemma ledgers_agree_witness:
  "same_result (Claim (60 * second) demo_env 1 2 ''k'' demo_hash [demo_row])
     (Idempotency_Ledger.claim (60 * second) demo_env 1 2 ''k'' demo_hash [demo_row]) \<and>
   Claim (60 * second) demo_env 1 2 accented_key demo_hash [demo_row] = (Inl ErrInvalidLedgerClaim, [demo_row]) \<and>
   validate_claim accented_key demo_hash = None"
proof -
  have "trim_space ''k'' = ''k''" "utf8_length ''k'' \<le> 256" by code_simp+
  moreover have "trim_space accented_key = accented_key"
    by (rule trim_space_id) (simp add: accented_key_def go_isspace_def)
  moreover have "256 < utf8_length accented_key" by (simp add: accented_key_def utf8_length_def sum_list_replicate)
  moreover have "validate_claim accented_key demo_hash = None"
    using is_hash_nonempty [OF demo_hash_ok] by (simp add: validate_claim_def accented_key_def)
  moreover note ledgers_agree [OF demo_inv, of 1 2 "''k''" demo_hash "60 * second" demo_env]
    ledgers_agree [OF demo_inv, of 1 2 accented_key demo_hash "60 * second" demo_env] hex_no_space [OF demo_hash_ok]
  ultimately show ?thesis by simp
qed

end
