(* ===== verification/Chat_Retry.thy ===== *)
theory Chat_Retry
  imports Proxy_Replies Proxy_Keys
begin

text \<open>
  A chat request and a later one with the same idempotency key, on the proxy's ledger in the database: the log
  of the first, read as calls of the ledger between calls of other clients, leaves the response it sent, and
  the second is answered with it.
\<close>

section \<open>The log on the table\<close>

definition key_event :: "event \<Rightarrow> bool" where
  "key_event ev = (case ev of EvIdemOwned _ \<Rightarrow> True | EvIdemCommit _ _ _ \<Rightarrow> True | EvIdemRelease _ \<Rightarrow> True | _ \<Rightarrow> False)"

text \<open>Any commands of other clients run between the calls of the request, whose commit, if there is one, goes through.\<close>

inductive key_trace :: "usec \<Rightarrow> event list \<Rightarrow> ledger_db \<Rightarrow> ledger_db \<Rightarrow> bool" for lease where
  stop: "key_trace lease [] db db"
| others: "key_trace lease evs (run_all (exec_key lease) cmds db) db' \<Longrightarrow> key_trace lease evs db db'"
| silent: "\<not> key_event ev \<Longrightarrow> key_trace lease evs db db' \<Longrightarrow> key_trace lease (ev # evs) db db'"
| owned: "icLedger c = Some t \<Longrightarrow> Claim lease e (icOrgID c) agent (icKey c) (icFP c) db = (Inr (LOwned t), db1) \<Longrightarrow>
    key_trace lease evs db1 db' \<Longrightarrow> key_trace lease (EvIdemOwned c # evs) db db'"
| commits: "icLedger c = Some t \<Longrightarrow> Finalize e t status body db = (Inr (), db1) \<Longrightarrow>
    key_trace lease evs db1 db' \<Longrightarrow> key_trace lease (EvIdemCommit c status body # evs) db db'"
| releases: "icLedger c = Some t \<Longrightarrow> Release e t db = (out, db1) \<Longrightarrow>
    key_trace lease evs db1 db' \<Longrightarrow> key_trace lease (EvIdemRelease c # evs) db db'"

lemma trace_keeps: "key_trace lease evs db db' \<Longrightarrow> ledger_inv db \<Longrightarrow> keeps_final db db'"
proof (induction rule: key_trace.induct)
  case (stop db)
  then show ?case by (simp add: keeps_final_refl)
next
  case (others evs cmds db db')
  then show ?case using run_keys_keeps keeps_final_trans by (metis keeps_final_def)
next
  case (silent ev evs db db')
  then show ?case by simp
next
  case (owned c t e agent db db1 evs db')
  then show ?case using Claim_keeps keeps_final_trans by (metis keeps_final_def)
next
  case (commits c t e status body db db1 evs db')
  then show ?case using settle_keeps(1) keeps_final_trans by (metis keeps_final_def)
next
  case (releases c t e db out db1 evs db')
  then show ?case using settle_keeps(2) keeps_final_trans by (metis keeps_final_def)
qed

lemma trace_records:
  "key_trace lease evs db db' \<Longrightarrow> ledger_inv db \<Longrightarrow> EvIdemCommit c status body \<in> set evs \<Longrightarrow> icLedger c = Some t \<Longrightarrow>
   recorded t status body db'"
proof (induction rule: key_trace.induct)
  case (others evs cmds db db')
  then show ?case using keys.inv_run by blast
next
  case (silent ev evs db db')
  then show ?case by (auto simp: key_event_def)
next
  case (owned c' t' e agent db db1 evs db')
  then have "ledger_inv db1" using Claim_keeps by (metis keeps_final_def)
  with owned show ?case by auto
next
  case (commits c' t' e status' body' db db1 evs db')
  then have inv: "ledger_inv db1" using settle_keeps(1) by (metis keeps_final_def)
  show ?case
  proof (cases "EvIdemCommit c status body \<in> set evs")
    case True
    with commits inv show ?thesis by blast
  next
    case False
    with commits.prems(2) have "c' = c" "status' = status" "body' = body" by auto
    with commits have "recorded t status body db1" using Finalize_records by auto
    then show ?thesis using trace_keeps [OF commits.hyps(3) inv] by (rule recorded_keeps)
  qed
next
  case (releases c' t' e db out db1 evs db')
  then have "ledger_inv db1" using settle_keeps(2) by (metis keeps_final_def)
  with releases show ?case by auto
qed simp

section \<open>The second request\<close>

lemma serve_replays:
  assumes "chTerminationLedger h" "ParseKey r = Some (Inr key)" "\<not> ccStream parsed" "ledgerPrincipal r = Some (org, agent)"
    and "svFingerprint (chServices h) ''chat'' (SkipMemoryRequested r) parsed = Some fp"
    and "\<And>n. svIdemClaim (chServices h) n org agent key fp = Inr (LReplay status body)"
    and "cs_log s = []" "run_state (serve h True r (Some parsed) (Some name) flusher) s = (x, t)"
  shows "cs_log t = [EvHeader status '''', EvWrite body]" and "cs_ledger t = cs_ledger s"
  using assms(7,8)
  by (auto simp: serve_def forwardChatCompletion_def Resolve_def claimLedger_def applyLedgerOutcome_def Replay_def emit_def ask_def assms(1-6))

text \<open>What the monitor has seen committed is what was sent, to the end.\<close>

lemma settled_stays: "monitor reply_step (sent, Settled) evs = Some m \<Longrightarrow> m = (sent, Settled)"
proof (induction evs)
  case (Cons ev evs)
  then show ?case by (cases ev) (auto split: option.splits if_splits)
qed simp

lemma committed_sent:
  "monitor reply_step m evs = Some m' \<Longrightarrow> EvIdemCommit c status body \<in> set evs \<Longrightarrow> m' = (Some (status, body), Settled)"
proof (induction evs arbitrary: m)
  case (Cons ev evs)
  obtain sent key where m: "m = (sent, key)" by fastforce
  from Cons.prems(1) obtain m1 where m1: "reply_step m ev = Some m1" "monitor reply_step m1 evs = Some m'"
    by (auto split: option.splits)
  show ?case
  proof (cases "EvIdemCommit c status body \<in> set evs")
    case True
    with Cons.IH m1(2) show ?thesis by blast
  next
    case False
    with Cons.prems(2) have "ev = EvIdemCommit c status body" by simp
    with m1 m have "m1 = (Some (status, body), Settled)" by (auto split: if_splits)
    with m1(2) settled_stays show ?thesis by blast
  qed
qed simp

text \<open>C5. A response that a chat request committed is what its client was sent, and a later request of the same
  agent with the same key and fingerprint is answered with it: same status, same bytes, no call to a provider and no claim
  on the budget, whatever the clients of the proxy's and of the Python ledger did to the table before, during and
  after the first request.\<close>

theorem chat_retry_replays:
  assumes first: "cs_log s1 = []" "run_state (serve h1 post r1 parsed1 prov1 flusher1) s1 = (x1, t1)"
    and trace: "ledger_inv db0" "key_trace lease (cs_log t1) db0 db1"
    and commit: "EvIdemCommit c status body \<in> set (cs_log t1)" "icLedger c = Some t"
    and ids: "itOrgID t \<noteq> 0" "itAgentID t \<noteq> 0"
    and claims: "env_fault e = None" "Claim lease e (itOrgID t) (itAgentID t) (itKey t) (itRequestHash t)
      (run_all (exec_key lease) cmds db1) = (Inr out, db2)"
    and second: "chTerminationLedger h2" "ParseKey r2 = Some (Inr (itKey t))" "\<not> ccStream parsed2"
      "ledgerPrincipal r2 = Some (itOrgID t, itAgentID t)"
      "svFingerprint (chServices h2) ''chat'' (SkipMemoryRequested r2) parsed2 = Some (itRequestHash t)"
      "\<And>n. svIdemClaim (chServices h2) n (itOrgID t) (itAgentID t) (itKey t) (itRequestHash t) = Inr out"
      "cs_log s2 = []" "run_state (serve h2 True r2 (Some parsed2) (Some name) flusher2) s2 = (x2, t2)"
  shows "monitor reply_step (None, Unkeyed) (cs_log t1) = Some (Some (status, body), Settled) \<and>
    cs_log t2 = [EvHeader status '''', EvWrite body] \<and> cs_ledger t2 = cs_ledger s2"
proof -
  from obs_run [OF reply_serve first(2,1)] obtain m where m: "monitor reply_step (None, Unkeyed) (cs_log t1) = Some m" by blast
  have sent: "m = (Some (status, body), Settled)" using committed_sent [OF m commit(1)] .
  let ?db = "run_all (exec_key lease) cmds db1"
  have "ledger_inv db1" using trace_keeps [OF trace(2,1)] by (simp add: keeps_final_def)
  then have db: "ledger_inv ?db" "recorded t status body ?db"
    using recorded_keeps [OF trace_records [OF trace(2,1) commit]] run_keys_keeps by (auto simp: keeps_final_def)
  have "itKey t = trim_space (hqIdempotencyKey r2)"
    using second(2) by (auto simp: ParseKey_def Let_def split: if_splits)
  then have "trim_space (itKey t) = itKey t" by simp
  moreover from Claim_valid [OF claims(2)] this have "utf8_length (itKey t) \<le> 256" by (simp add: validClaim_def)
  ultimately have "Claim lease e (itOrgID t) (itAgentID t) (itKey t) (itRequestHash t) ?db = (Inr (LReplay status body), ?db)"
    by (rule Claim_replays [OF db claims(1) ids])
  with claims(2) have "out = LReplay status body" by simp
  with second(6) have "\<And>n. svIdemClaim (chServices h2) n (itOrgID t) (itAgentID t) (itKey t) (itRequestHash t) = Inr (LReplay status body)"
    by simp
  from serve_replays [OF second(1-5) this second(7,8)] m sent show ?thesis by simp
qed

section \<open>A sample retry\<close>

definition retry_token :: idem_token where
  "retry_token = \<lparr>itID = 9, itOrgID = 1, itAgentID = 2, itKey = ''k1'', itRequestHash = demo_hash, itVersion = 1\<rparr>"

definition retry_handler :: "ledger_outcome \<Rightarrow> unit chatCompletionHandler" where
  "retry_handler out = (sample_handler \<lparr>ldClaim = (\<lambda>_ _ l. (Inl ErrInvalidClaim, l)), ldFinalize = (\<lambda>_ _ _ l. (Inl ErrInvalidClaim, l)),
       ldRelease = (\<lambda>_ l. (Inl ErrInvalidClaim, l))\<rparr>)
     \<lparr>chBudgetLedger := None, chTerminationLedger := True,
      chServices := sample_services\<lparr>svFingerprint := (\<lambda>_ _ _. Some demo_hash), svIdemClaim := (\<lambda>_ _ _ _ _. Inr out)\<rparr>\<rparr>"

definition retry_body :: ChatCompletionRequest where
  "retry_body = sample_body\<lparr>ccModel := ''gpt-mini''\<rparr>"

definition retry_run :: "ledger_outcome \<Rightarrow> unit chat_state" where
  "retry_run out = snd (run_state (serve (retry_handler out) True sample_http (Some retry_body) (Some ''openai'') True) (sample_start ()))"

definition retry_claim :: idem_claim where
  "retry_claim = \<lparr>icOrgID = 1, icKey = ''k1'', icFP = demo_hash, icHit = None, icLedger = Some retry_token\<rparr>"

lemma retry_key: "ParseKey sample_http = Some (Inr ''k1'')"
  by code_simp

lemma retry_request:
  "ledgerPrincipal sample_http = Some (1, 2)" "hqDirective sample_http = None" "hqReservation sample_http = None"
  by (simp_all add: sample_http_def ledgerPrincipal_def orgIDFromAuth_def)

lemma retry_log:
  "\<exists>call trace. cs_log (retry_run (LOwned retry_token)) = [EvIdemOwned retry_claim, EvComplete ''openai'' call, EvHeader 200 '''',
     EvWrite ''{}'', EvFlush, EvIdemCommit retry_claim 200 ''{}'', EvPostResponse trace]"
  by (simp add: retry_run_def serve_def forwardChatCompletion_def Resolve_def retry_key claimLedger_def applyLedgerOutcome_def
      dispatchProviderCompletion_def ctx_err_def ask_def emit_def applyContextOrDirectiveInjection_def shouldAssemble_def
      applyDirectiveInjection_def applyCredentialOverride_def claimBudgetAdmission_def completeAndRespond_def provider_complete_def
      finishProviderResponse_def writeProviderSuccess_def ReadAllBody_def MaxProviderResponseBytes_def processResponseBody_def
      writeJSONSuccess_def flushIfSupported_def Finish_def finishLedger_def ShouldCommit_def settleBudgetOutcome_def
      retry_handler_def retry_body_def sample_handler_def sample_services_def sample_body_def sample_start_def
      retry_request ToProviderRequest_def retry_claim_def Let_def)

definition retry_row :: ledger_row where
  "retry_row = \<lparr>lr_id = 9, lr_org = 1, lr_agent = 2, lr_key = ''k1'', lr_hash = demo_hash, lr_state = Claimed, lr_status = None,
     lr_response = None, lr_lease = Some (500 + key_lease 0), lr_version = 1\<rparr>"

definition retry_done :: ledger_row where
  "retry_done = retry_row\<lparr>lr_state := Finalized, lr_status := Some 200, lr_response := Some (body_bytes ''{}''), lr_lease := None, lr_version := 2\<rparr>"

lemma retry_trimmed:
  "trim_space ''k1'' = ''k1''" "utf8_length ''k1'' = 2" "trim_space demo_hash = demo_hash" "demo_hash \<noteq> []"
  using demo_hash_ok by (code_simp, code_simp, simp_all add: hex_no_space is_hash_nonempty)

lemma retry_owned: "Claim 0 demo_env 1 2 ''k1'' demo_hash [] = (Inr (LOwned retry_token), [retry_row])"
  using demo_hash_ok
  by (simp add: Claim_def Let_def validClaim_def retry_trimmed key_tx_def demo_env_def insertOrLoad_def insert_claim_def key_ctx_def
      new_row_def resolveClaim_def row_token_def retry_token_def retry_row_def tx_defs scope_defs)

lemma retry_final: "Finalize demo_env retry_token 200 ''{}'' [retry_row] = (Inr (), [retry_done])"
  by (simp add: Finalize_def withClaimTx_def validClaim_def retry_trimmed key_tx_def demo_env_def affects_one_def sql_count_def sql_update_def
      token_params_def has_key_def retry_token_def retry_row_def retry_done_def tx_defs scope_defs)

lemma retry_trace: "key_trace 0 (cs_log (retry_run (LOwned retry_token))) [] [retry_done]"
proof -
  have t: "icLedger retry_claim = Some retry_token" by (simp add: retry_claim_def)
  have own: "Claim 0 demo_env (icOrgID retry_claim) 2 (icKey retry_claim) (icFP retry_claim) [] = (Inr (LOwned retry_token), [retry_row])"
    using retry_owned by (simp add: retry_claim_def)
  obtain call trace where "cs_log (retry_run (LOwned retry_token)) = [EvIdemOwned retry_claim, EvComplete ''openai'' call,
      EvHeader 200 '''', EvWrite ''{}'', EvFlush, EvIdemCommit retry_claim 200 ''{}'', EvPostResponse trace]"
    using retry_log by blast
  then show ?thesis
    by (auto intro!: owned [OF t own] commits [OF t retry_final] silent stop simp: key_event_def)
qed

lemma retry_fields:
  "itOrgID retry_token = 1" "itAgentID retry_token = 2" "itKey retry_token = ''k1''" "itRequestHash retry_token = demo_hash"
  by (simp_all add: retry_token_def)

lemma retry_claims:
  "Claim 0 demo_env 1 2 ''k1'' demo_hash (run_all (exec_key 0) [Proxy_release demo_env retry_token] [retry_done]) =
    (Inr (LReplay 200 ''{}''), run_all (exec_key 0) [Proxy_release demo_env retry_token] [retry_done])"
proof -
  have inv: "ledger_inv [retry_done]"
    using demo_hash_ok by (simp add: ledger_inv_def row_ok_def retry_done_def retry_row_def)
  have "recorded retry_token 200 ''{}'' [retry_done]"
    by (simp add: recorded_def has_key_def retry_done_def retry_row_def retry_token_def)
  note kept = run_keys_keeps [OF inv, of 0 "[Proxy_release demo_env retry_token]"]
  have "ledger_inv (run_all (exec_key 0) [Proxy_release demo_env retry_token] [retry_done])" using kept by (simp add: keeps_final_def)
  from Claim_replays [OF this recorded_keeps [OF \<open>recorded _ _ _ _\<close> kept], of demo_env 0]
  show ?thesis by (simp add: retry_fields retry_trimmed demo_env_def)
qed

lemma chat_retry_replays_witness:
  "cs_log (retry_run (LReplay 200 ''{}'')) = [EvHeader 200 '''', EvWrite ''{}'']"
proof -
  have run: "run_state (serve (retry_handler out) True sample_http (Some retry_body) (Some ''openai'') True) (sample_start ()) = ((), retry_run out)" for out
    by (simp add: retry_run_def prod_eq_iff)
  have given: "cs_log (sample_start ()) = []" "ledger_inv []" "chTerminationLedger (retry_handler out)" "\<not> ccStream retry_body"
      "itOrgID retry_token = 1" "itAgentID retry_token = 2" "itKey retry_token = ''k1''" "itRequestHash retry_token = demo_hash"
      "env_fault demo_env = None" "ledgerPrincipal sample_http = Some (1, 2)"
      "svFingerprint (chServices (retry_handler out)) kind skip body = Some demo_hash"
      "svIdemClaim (chServices (retry_handler out)) n org agent key fp = Inr out" for out kind skip body n org agent key fp
    by (simp_all add: sample_start_def ledger_inv_def retry_handler_def retry_body_def sample_body_def retry_token_def demo_env_def ledgerPrincipal_def
        orgIDFromAuth_def sample_http_def sample_handler_def)
  have commit: "EvIdemCommit retry_claim 200 ''{}'' \<in> set (cs_log (retry_run (LOwned retry_token)))" using retry_log by force
  have own: "icLedger retry_claim = Some retry_token" by (simp add: retry_claim_def)
  show ?thesis
    using chat_retry_replays [OF given(1) run given(2) retry_trace commit own, where out = "LReplay 200 ''{}''" and e = demo_env
        and cmds = "[Proxy_release demo_env retry_token]" and ?db2.0 = "run_all (exec_key 0) [Proxy_release demo_env retry_token] [retry_done]" and ?h2.0 = "retry_handler (LReplay 200 ''{}'')"
        and ?r2.0 = sample_http and ?parsed2.0 = retry_body and ?s2.0 = "sample_start ()" and name = "''openai''" and ?flusher2.0 = True
        and ?x2.0 = "()" and ?t2.0 = "retry_run (LReplay 200 ''{}'')"] retry_claims retry_key run
    by (simp add: given)
qed

end
