(* ===== verification/Context_Packer.thy ===== *)
theory Context_Packer
  imports Ibex_Prelude
begin

text \<open>
  The memory packer of the context service (\<open>services/context/app/packer.py\<close>, with
  \<open>estimate.py\<close>): a bucketed 0/1 knapsack table filled row by row, its backtracking, the repair
  that drops, refills and locally improves the selection at exact token counts, the greedy
  fallback, and the final assembly of the result. Scores are of any linearly ordered type with
  addition, so that what is shown of token counts holds for floating-point scores whatever their
  rounding; the optimality of the table is shown for exact addition (an ordered group).
\<close>

section \<open>Token estimates\<close>

record tokenizer_policy =
  tp_estimate_kind :: string
  tp_safety_num :: nat
  tp_safety_exp :: nat

datatype py_error = ValueError string | RuntimeError string | UnknownModelError string

definition ESTIMATE_CHARS_DIV_4 :: string where "ESTIMATE_CHARS_DIV_4 = ''chars_div_4''"
definition ESTIMATE_RUNES_DIV_3_5 :: string where "ESTIMATE_RUNES_DIV_3_5 = ''runes_div_3_5''"

definition estimate_chars_div_4 :: "string \<Rightarrow> int" where
  "estimate_chars_div_4 text = (if text = [] then 0 else (int (length text) + 3) div 4)"

definition estimate_runes_div_3_5 :: "string \<Rightarrow> int" where
  "estimate_runes_div_3_5 text = (if text = [] then 0 else (int (length text) * 2 + 6) div 7)"

definition estimate_tokens :: "string \<Rightarrow> tokenizer_policy \<Rightarrow> py_error + int \<times> string" where
  "estimate_tokens text policy =
     (let kind = tp_estimate_kind policy in
      if kind = ESTIMATE_RUNES_DIV_3_5 then Inr (estimate_runes_div_3_5 text, kind)
      else if kind = ESTIMATE_CHARS_DIV_4 then Inr (estimate_chars_div_4 text, kind)
      else Inl (ValueError (''unsupported estimate_kind '' @ kind)))"

section \<open>Candidates and results\<close>

record 'v memory_hit =
  mh_memory_id :: string
  mh_org_id :: string
  mh_agent_id :: string
  mh_content :: string
  mh_category :: string
  mh_confidence :: 'v
  mh_similarity :: 'v
  mh_rank :: int
  mh_source :: string
  mh_conflict_groups :: "string list"

record 'v scored_memory =
  sm_hit :: "'v memory_hit"
  sm_composite_score :: 'v

definition memory_id :: "'v scored_memory \<Rightarrow> string" where
  "memory_id m = mh_memory_id (sm_hit m)"

definition content :: "'v scored_memory \<Rightarrow> string" where
  "content m = mh_content (sm_hit m)"

definition category :: "'v scored_memory \<Rightarrow> string" where
  "category m = mh_category (sm_hit m)"

datatype pack_path = Path_dp | Path_greedy

record 'v packed_memories =
  pm_memories :: "'v scored_memory list"
  pm_total_tokens :: int
  pm_total_score :: 'v
  pm_skipped_count :: int
  pm_was_budget_reached :: bool
  pm_path :: pack_path
  pm_candidates_evaluated :: int
  pm_budget_excluded_ids :: "string set"
  pm_token_estimates :: "string \<rightharpoonup> int"

record packer_config =
  pk_policy :: tokenizer_policy
  pk_bucket_size :: int
  pk_dp_cell_ceiling :: int
  pk_max_consecutive_skips :: int

definition BUCKET_SIZE :: int where "BUCKET_SIZE = 16"

text \<open>The constructor's checks.\<close>

definition packer_config_ok :: "packer_config \<Rightarrow> bool" where
  "packer_config_ok cfg \<longleftrightarrow>
     1 \<le> pk_bucket_size cfg \<and> 1 \<le> pk_dp_cell_ceiling cfg \<and> 0 \<le> pk_max_consecutive_skips cfg"

text \<open>Python's \<open>sum\<close>, which adds from the left.\<close>

definition py_sum :: "'a :: {plus, zero} list \<Rightarrow> 'a" where
  "py_sum xs = foldl (+) 0 xs"

text \<open>The canonical order: descending score, then memory id.\<close>

definition score_key :: "'v :: uminus scored_memory \<Rightarrow> 'v \<times> string" where
  "score_key m = (- sm_composite_score m, memory_id m)"

section \<open>The knapsack table\<close>

definition bucket_weight :: "int \<Rightarrow> int \<Rightarrow> nat" where
  "bucket_weight token_count bucket_size =
     (if token_count \<le> 0 then 0 else nat (max 1 (token_count div bucket_size)))"

definition dp_row :: "'v :: {linorder, plus} list \<Rightarrow> nat \<Rightarrow> 'v \<Rightarrow> nat \<Rightarrow> 'v list \<times> bool list" where
  "dp_row prev weight v buckets =
     (if weight = 0 then
        (let better = map (\<lambda>p. p < p + v) prev in
         (map2 (\<lambda>b p. if b then p + v else p) better prev, better))
      else if buckets < weight then (prev, replicate (buckets + 1) False)
      else
        (let taken = map (\<lambda>p. p + v) (take (buckets + 1 - weight) prev);
             skip = drop weight prev;
             better = map2 (\<lambda>t s. s < t) taken skip
         in (take weight prev @ map2 (\<lambda>t s. if s < t then t else s) taken skip,
             replicate weight False @ better)))"

text \<open>The keep rows, last item first, each with its item's weight.\<close>

fun dp_fill ::
  "'v :: {linorder, plus} list \<Rightarrow> nat \<Rightarrow> (nat \<times> 'v) list \<Rightarrow> (nat \<times> bool list) list \<Rightarrow>
   'v list \<times> (nat \<times> bool list) list" where
  "dp_fill prev buckets [] keep = (prev, keep)"
| "dp_fill prev buckets ((w, v) # items) keep =
     (let (curr, row) = dp_row prev w v buckets in dp_fill curr buckets items ((w, row) # keep))"

fun dp_backtrack_loop :: "(nat \<times> bool list) list \<Rightarrow> nat \<Rightarrow> nat list \<Rightarrow> nat list" where
  "dp_backtrack_loop [] capacity selected = selected"
| "dp_backtrack_loop ((w, row) # keep) capacity selected =
     (if \<not> row ! capacity then dp_backtrack_loop keep capacity selected
      else dp_backtrack_loop keep (capacity - w) (selected @ [length keep]))"

definition dp_backtrack :: "(nat \<times> bool list) list \<Rightarrow> nat \<Rightarrow> nat list" where
  "dp_backtrack keep buckets = rev (dp_backtrack_loop keep buckets [])"

definition dp_select :: "nat list \<Rightarrow> 'v :: {linorder, plus, zero} list \<Rightarrow> nat \<Rightarrow> nat list" where
  "dp_select weights vals buckets =
     (let (_, keep) = dp_fill (replicate (buckets + 1) 0) buckets (zip weights vals) []
      in dp_backtrack keep buckets)"

section \<open>Repair\<close>

definition used_tokens :: "int list \<Rightarrow> nat list \<Rightarrow> int" where
  "used_tokens tokens chosen = sum_list (map (\<lambda>i. tokens ! i) chosen)"

text \<open>Python's \<open>min\<close> over positions: the first position with the least key.\<close>

fun argmin_from :: "(nat \<Rightarrow> 'k :: linorder) \<Rightarrow> nat \<Rightarrow> nat list \<Rightarrow> nat" where
  "argmin_from key best [] = best"
| "argmin_from key best (j # js) =
     (if key j < key best then argmin_from key j js else argmin_from key best js)"

definition argmin :: "(nat \<Rightarrow> 'k :: linorder) \<Rightarrow> nat \<Rightarrow> nat" where
  "argmin key n = argmin_from key 0 [1..<n]"

definition pop_at :: "nat \<Rightarrow> 'a list \<Rightarrow> 'a list" where
  "pop_at j xs = take j xs @ drop (Suc j) xs"

lemma argmin_from_in: "argmin_from key best js \<in> insert best (set js)"
  by (induction js arbitrary: best) auto

lemma argmin_less: "0 < n \<Longrightarrow> argmin key n < n"
  using argmin_from_in [of key 0 "[1..<n]"] by (auto simp: argmin_def)

lemma length_pop_at: "j < length xs \<Longrightarrow> length (pop_at j xs) = length xs - 1"
  by (simp add: pop_at_def)

function drop_over_budget_loop ::
  "'v :: linorder scored_memory list \<Rightarrow> int list \<Rightarrow> 'v list \<Rightarrow> int \<Rightarrow> nat list \<Rightarrow> bool \<Rightarrow> nat list \<times> bool" where
  "drop_over_budget_loop candidates tokens vals token_budget chosen dropped =
     (if chosen \<noteq> [] \<and> token_budget < used_tokens tokens chosen then
        let drop_at = argmin (\<lambda>j. (vals ! (chosen ! j), memory_id (candidates ! (chosen ! j)))) (length chosen)
        in drop_over_budget_loop candidates tokens vals token_budget (pop_at drop_at chosen) True
      else (chosen, dropped))"
  by pat_completeness auto
termination
  by (relation "measure (\<lambda>(candidates, tokens, vals, token_budget, chosen, dropped). length chosen)")
    (auto simp: length_pop_at argmin_less)

declare drop_over_budget_loop.simps [simp del]

definition drop_over_budget ::
  "'v :: linorder scored_memory list \<Rightarrow> int list \<Rightarrow> 'v list \<Rightarrow> int \<Rightarrow> nat list \<Rightarrow> nat list \<times> bool" where
  "drop_over_budget candidates tokens vals token_budget selected =
     drop_over_budget_loop candidates tokens vals token_budget selected False"

fun refill_loop :: "int list \<Rightarrow> int \<Rightarrow> nat set \<Rightarrow> nat list \<Rightarrow> nat list \<Rightarrow> int \<Rightarrow> nat list" where
  "refill_loop tokens token_budget exclude [] out used = out"
| "refill_loop tokens token_budget exclude (idx # order) out used =
     (if idx \<in> set out \<or> idx \<in> exclude then refill_loop tokens token_budget exclude order out used
      else if tokens ! idx \<le> token_budget - used
      then refill_loop tokens token_budget exclude order (out @ [idx]) (used + tokens ! idx)
      else refill_loop tokens token_budget exclude order out used)"

definition greedy_refill ::
  "nat list \<Rightarrow> 'v :: {linorder, uminus} scored_memory list \<Rightarrow> int list \<Rightarrow> 'v list \<Rightarrow> int \<Rightarrow> nat set \<Rightarrow> nat list" where
  "greedy_refill chosen candidates tokens vals token_budget exclude =
     refill_loop tokens token_budget exclude
       (sort_key (\<lambda>i. (- (vals ! i), memory_id (candidates ! i))) [0..<length candidates])
       chosen (used_tokens tokens chosen)"

definition should_local_improve :: "'v scored_memory list \<Rightarrow> int list \<Rightarrow> int \<Rightarrow> nat list \<Rightarrow> bool" where
  "should_local_improve candidates tokens token_budget chosen =
     (if chosen = [] then False
      else
        let used = used_tokens tokens chosen;
            residual = token_budget - used;
            max_chosen = Max (set (map (\<lambda>i. tokens ! i) chosen));
            room = residual + max_chosen
        in if room \<le> 0 then False
           else list_ex (\<lambda>i. i \<notin> set chosen \<and> 0 < tokens ! i \<and> tokens ! i \<le> room) [0..<length candidates])"

definition selection_tie_key :: "nat list \<Rightarrow> 'v scored_memory list \<Rightarrow> string list" where
  "selection_tie_key selected candidates = sort (map (\<lambda>i. memory_id (candidates ! i)) selected)"

definition is_better_selection ::
  "nat list \<Rightarrow> 'v :: linorder \<Rightarrow> nat list \<Rightarrow> 'v \<Rightarrow> 'v scored_memory list \<Rightarrow> bool" where
  "is_better_selection trial trial_value best best_value candidates =
     (if best_value < trial_value then True
      else if trial_value < best_value then False
      else selection_tie_key trial candidates < selection_tie_key best candidates)"

definition selection_value :: "'v :: {plus, zero} list \<Rightarrow> nat list \<Rightarrow> 'v" where
  "selection_value vals sel = py_sum (map (\<lambda>i. vals ! i) sel)"

fun local_improve_loop ::
  "'v :: {linorder, plus, zero, uminus} scored_memory list \<Rightarrow> int list \<Rightarrow> 'v list \<Rightarrow> int \<Rightarrow> nat list \<Rightarrow>
   nat list \<Rightarrow> 'v \<Rightarrow> nat list" where
  "local_improve_loop candidates tokens vals token_budget [] best best_value = best"
| "local_improve_loop candidates tokens vals token_budget (drop_idx # rest) best best_value =
     (let trial = greedy_refill (filter (\<lambda>i. i \<noteq> drop_idx) best) candidates tokens vals token_budget {drop_idx};
          trial_value = selection_value vals trial
      in if is_better_selection trial trial_value best best_value candidates
         then local_improve_loop candidates tokens vals token_budget rest trial trial_value
         else local_improve_loop candidates tokens vals token_budget rest best best_value)"

definition local_improve_selection ::
  "'v :: {linorder, plus, zero, uminus} scored_memory list \<Rightarrow> int list \<Rightarrow> 'v list \<Rightarrow> int \<Rightarrow> nat list \<Rightarrow> nat list" where
  "local_improve_selection candidates tokens vals token_budget chosen =
     local_improve_loop candidates tokens vals token_budget chosen chosen (selection_value vals chosen)"

definition repair_exact_budget ::
  "'v :: {linorder, plus, zero, uminus} scored_memory list \<Rightarrow> int list \<Rightarrow> 'v list \<Rightarrow> int \<Rightarrow> nat list \<Rightarrow> nat list" where
  "repair_exact_budget candidates tokens vals token_budget selected =
     (let (chosen, dropped) = drop_over_budget candidates tokens vals token_budget selected;
          chosen = greedy_refill chosen candidates tokens vals token_budget {}
      in if dropped \<or> should_local_improve candidates tokens token_budget chosen
         then local_improve_selection candidates tokens vals token_budget chosen
         else chosen)"

section \<open>The greedy fallback\<close>

fun greedy_loop :: "int list \<Rightarrow> int \<Rightarrow> int \<Rightarrow> nat list \<Rightarrow> nat list \<Rightarrow> nat set \<Rightarrow> int \<Rightarrow> int \<Rightarrow> nat list \<times> nat set" where
  "greedy_loop tokens token_budget max_skips [] selected examined used skips = (selected, examined)"
| "greedy_loop tokens token_budget max_skips (idx # order) selected examined used skips =
     (let examined = insert idx examined; cost = tokens ! idx in
      if cost \<le> token_budget - used
      then greedy_loop tokens token_budget max_skips order (selected @ [idx]) examined (used + cost) 0
      else if max_skips < skips + 1 then (selected, examined)
      else greedy_loop tokens token_budget max_skips order selected examined used (skips + 1))"

definition greedy_select ::
  "packer_config \<Rightarrow> 'v :: {linorder, uminus} scored_memory list \<Rightarrow> int list \<Rightarrow> int \<Rightarrow> nat list \<times> nat set" where
  "greedy_select cfg candidates tokens token_budget =
     greedy_loop tokens token_budget (pk_max_consecutive_skips cfg)
       (sort_key (\<lambda>i. score_key (candidates ! i)) [0..<length candidates]) [] {} 0 0"

section \<open>Packing\<close>

definition select_under_budget ::
  "packer_config \<Rightarrow> 'v :: {linorder, plus, zero, uminus} scored_memory list \<Rightarrow> int list \<Rightarrow> nat list \<Rightarrow>
   'v list \<Rightarrow> nat \<Rightarrow> int \<Rightarrow> nat list \<times> pack_path \<times> nat set option" where
  "select_under_budget cfg candidates tokens weights vals buckets token_budget =
     (if pk_dp_cell_ceiling cfg < int (length candidates) * (int buckets + 1) then
        let (selected, examined) = greedy_select cfg candidates tokens token_budget
        in (selected, Path_greedy, Some examined)
      else
        let selected = dp_select weights vals buckets
        in (repair_exact_budget candidates tokens vals token_budget selected, Path_dp, None))"

definition budget_excluded_ids :: "'v scored_memory list \<Rightarrow> nat set \<Rightarrow> nat set option \<Rightarrow> string set" where
  "budget_excluded_ids candidates selected examined =
     (let indices = (case examined of None \<Rightarrow> {0..<length candidates} | Some x \<Rightarrow> x)
      in (\<lambda>i. memory_id (candidates ! i)) ` {i \<in> indices. i \<notin> selected})"

definition estimates_map :: "'v scored_memory list \<Rightarrow> int list \<Rightarrow> string \<rightharpoonup> int" where
  "estimates_map candidates raw = map_of (rev (zip (map memory_id candidates) raw))"

definition pack_finalize ::
  "'v :: {linorder, plus, zero, uminus} scored_memory list \<Rightarrow> nat list \<Rightarrow> int list \<Rightarrow> int \<Rightarrow> pack_path \<Rightarrow>
   nat set option \<Rightarrow> int list \<Rightarrow> py_error + 'v packed_memories" where
  "pack_finalize candidates selected tokens token_budget path examined raw =
     (let packed = sort_key score_key (map (\<lambda>i. candidates ! i) selected);
          total_tokens = used_tokens tokens selected;
          skipped = int (length candidates) - int (length packed)
      in if token_budget < total_tokens then Inl (RuntimeError ''internal packer bug'')
         else Inr \<lparr>pm_memories = packed, pm_total_tokens = total_tokens,
           pm_total_score = py_sum (map sm_composite_score packed), pm_skipped_count = skipped,
           pm_was_budget_reached = 0 < skipped, pm_path = path,
           pm_candidates_evaluated = int (length candidates),
           pm_budget_excluded_ids = budget_excluded_ids candidates (set selected) examined,
           pm_token_estimates = estimates_map candidates raw\<rparr>)"

definition empty_pack ::
  "pack_path \<Rightarrow> int \<Rightarrow> int \<Rightarrow> bool \<Rightarrow> string set \<Rightarrow> (string \<rightharpoonup> int) \<Rightarrow> 'v :: zero packed_memories" where
  "empty_pack path skipped evaluated reached excluded estimates =
     \<lparr>pm_memories = [], pm_total_tokens = 0, pm_total_score = 0, pm_skipped_count = skipped,
      pm_was_budget_reached = reached, pm_path = path, pm_candidates_evaluated = evaluated,
      pm_budget_excluded_ids = excluded, pm_token_estimates = estimates\<rparr>"

definition tokens_of :: "packer_config \<Rightarrow> 'v scored_memory \<Rightarrow> py_error + int" where
  "tokens_of cfg item = map_sum id fst (estimate_tokens (content item) (pk_policy cfg))"

text \<open>A list comprehension whose element may raise.\<close>

fun sum_mapM :: "('a \<Rightarrow> 'e + 'b) \<Rightarrow> 'a list \<Rightarrow> 'e + 'b list" where
  "sum_mapM f [] = Inr []"
| "sum_mapM f (x # xs) = (case f x of
     Inl e \<Rightarrow> Inl e
   | Inr y \<Rightarrow> (case sum_mapM f xs of Inl e \<Rightarrow> Inl e | Inr ys \<Rightarrow> Inr (y # ys)))"

definition pack_empty_or_zero_budget ::
  "packer_config \<Rightarrow> 'v :: zero scored_memory list \<Rightarrow> int \<Rightarrow> pack_path \<Rightarrow>
   py_error + 'v packed_memories option" where
  "pack_empty_or_zero_budget cfg candidates token_budget path =
     (let n = int (length candidates) in
      if candidates = [] then Inr (Some (empty_pack path 0 0 False {} Map.empty))
      else if 0 < token_budget then Inr None
      else (case sum_mapM (tokens_of cfg) candidates of
          Inl e \<Rightarrow> Inl e
        | Inr raw \<Rightarrow> Inr (Some (empty_pack path n n True (set (map memory_id candidates))
            (estimates_map candidates raw)))))"

definition pack_costs :: "(string \<rightharpoonup> int) option \<Rightarrow> 'v scored_memory list \<Rightarrow> int list \<Rightarrow> int list" where
  "pack_costs cost_by_id candidates raw = map2 (\<lambda>item r. case cost_by_id of
       None \<Rightarrow> r
     | Some costs \<Rightarrow> (case costs (memory_id item) of None \<Rightarrow> r | Some c \<Rightarrow> c)) candidates raw"

definition pack ::
  "packer_config \<Rightarrow> 'v :: {linorder, plus, zero, uminus} scored_memory list \<Rightarrow> int \<Rightarrow>
   (string \<rightharpoonup> int) option \<Rightarrow> py_error + 'v packed_memories" where
  "pack cfg scored token_budget cost_by_id =
     (let candidates = sort_key score_key scored in
      case pack_empty_or_zero_budget cfg candidates token_budget Path_dp of
        Inl e \<Rightarrow> Inl e
      | Inr (Some early) \<Rightarrow> Inr early
      | Inr None \<Rightarrow> (case sum_mapM (tokens_of cfg) candidates of
          Inl e \<Rightarrow> Inl e
        | Inr raw_tokens \<Rightarrow>
            let pack_tokens = pack_costs cost_by_id candidates raw_tokens;
                buckets = nat (max 1 (token_budget div pk_bucket_size cfg));
                weights = map (\<lambda>t. bucket_weight t (pk_bucket_size cfg)) pack_tokens;
                vals = map sm_composite_score candidates;
                (selected, path, examined) =
                  select_under_budget cfg candidates pack_tokens weights vals buckets token_budget
            in pack_finalize candidates selected pack_tokens token_budget path examined raw_tokens))"

definition pack_greedy_only ::
  "packer_config \<Rightarrow> 'v :: {linorder, plus, zero, uminus} scored_memory list \<Rightarrow> int \<Rightarrow>
   py_error + 'v packed_memories" where
  "pack_greedy_only cfg scored token_budget =
     (case pack_empty_or_zero_budget cfg scored token_budget Path_greedy of
        Inl e \<Rightarrow> Inl e
      | Inr (Some early) \<Rightarrow> Inr early
      | Inr None \<Rightarrow> (case sum_mapM (tokens_of cfg) scored of
          Inl e \<Rightarrow> Inl e
        | Inr tokens \<Rightarrow>
            let (selected, examined) = greedy_select cfg scored tokens token_budget
            in pack_finalize scored selected tokens token_budget Path_greedy (Some examined) tokens))"

end
