(* ===== verification/Context_Pipeline.thy ===== *)
theory Context_Pipeline
  imports Complex_Main Context_Packer Py_Strings "HOL-Library.AList" "HOL-Library.Multiset"
begin

text \<open>
  From retrieved hits to scored candidates (\<open>services/context/app/scoring.py\<close>, \<open>conflict.py\<close> and
  \<open>pipeline.py\<close>): the interim score, the merge of the hot and cold pages by identifier, and the
  suppression of unresolved conflicts. Scores are exact: any ordered field stands for the floats.
\<close>

section \<open>Scores\<close>

definition SIMILARITY_WEIGHT :: "'v :: linordered_field" where "SIMILARITY_WEIGHT = 85 / 100"
definition CONFIDENCE_WEIGHT :: "'v :: linordered_field" where "CONFIDENCE_WEIGHT = 15 / 100"

definition require_unit :: "string \<Rightarrow> 'v :: linordered_field \<Rightarrow> py_error + unit" where
  "require_unit label v = (if v < 0 \<or> 1 < v then Inl (ValueError (label @ '' must be in [0, 1]'')) else Inr ())"

definition score_memory_hit :: "'v :: linordered_field memory_hit \<Rightarrow> py_error + 'v" where
  "score_memory_hit hit =
     sum_bind (require_unit ''similarity'' (mh_similarity hit)) (\<lambda>_.
     sum_bind (require_unit ''confidence'' (mh_confidence hit)) (\<lambda>_.
     Inr (SIMILARITY_WEIGHT * mh_similarity hit + CONFIDENCE_WEIGHT * mh_confidence hit)))"

definition score_hits :: "'v :: linordered_field memory_hit list \<Rightarrow> py_error + 'v scored_memory list" where
  "score_hits hits = sum_mapM (\<lambda>hit. sum_bind (score_memory_hit hit) (\<lambda>s.
     Inr \<lparr>sm_hit = hit, sm_composite_score = s\<rparr>)) hits"

section \<open>Merging the pages\<close>

definition prefer_hit :: "'v :: linordered_field memory_hit \<Rightarrow> 'v memory_hit \<Rightarrow> py_error + bool" where
  "prefer_hit candidate incumbent =
     sum_bind (score_memory_hit candidate) (\<lambda>cand_score.
     sum_bind (score_memory_hit incumbent) (\<lambda>inc_score.
     Inr (if cand_score \<noteq> inc_score then inc_score < cand_score else mh_rank candidate < mh_rank incumbent)))"

text \<open>\<open>best\<close> is a dictionary in insertion order, \<open>groups\<close> maps an identifier to its conflict groups.\<close>

fun dedupe_loop ::
  "'v :: linordered_field memory_hit list \<Rightarrow> (string \<times> 'v memory_hit) list \<Rightarrow> (string \<rightharpoonup> string set) \<Rightarrow>
   py_error + (string \<times> 'v memory_hit) list \<times> (string \<rightharpoonup> string set)" where
  "dedupe_loop [] best groups = Inr (best, groups)"
| "dedupe_loop (hit # hits) best groups =
     (let mid = mh_memory_id hit;
          groups = groups(mid \<mapsto> (case groups mid of None \<Rightarrow> {} | Some g \<Rightarrow> g) \<union> set (mh_conflict_groups hit))
      in case map_of best mid of
           None \<Rightarrow> dedupe_loop hits (AList.update mid hit best) groups
         | Some existing \<Rightarrow> sum_bind (prefer_hit hit existing) (\<lambda>better.
             dedupe_loop hits (if better then AList.update mid hit best else best) groups))"

definition dedupe_hits :: "'v :: linordered_field memory_hit list \<Rightarrow> py_error + 'v memory_hit list" where
  "dedupe_hits hits = sum_bind (dedupe_loop hits [] Map.empty) (\<lambda>(best, groups).
     Inr (map (\<lambda>(mid, hit). hit\<lparr>mh_conflict_groups := sorted_list_of_set (the (groups (mh_memory_id hit)))\<rparr>) best))"

section \<open>Suppressing conflicts\<close>

fun collapse_loop :: "'v memory_hit list \<Rightarrow> 'v memory_hit list \<Rightarrow> string set \<Rightarrow> 'v memory_hit list" where
  "collapse_loop [] kept kept_groups = kept"
| "collapse_loop (hit # hits) kept kept_groups =
     (if mh_conflict_groups hit \<noteq> [] \<and> kept_groups \<inter> set (mh_conflict_groups hit) \<noteq> {}
      then collapse_loop hits kept kept_groups
      else collapse_loop hits (kept @ [hit]) (kept_groups \<union> set (mh_conflict_groups hit)))"

definition collapse_conflicts :: "'v :: linordered_field memory_hit list \<Rightarrow> py_error + 'v memory_hit list" where
  "collapse_conflicts hits = sum_bind (sum_mapM score_memory_hit hits) (\<lambda>scores.
     let ordered = map snd (sort_key (\<lambda>(s, hit). (- s, mh_memory_id hit)) (zip scores hits))
     in Inr (collapse_loop ordered [] {}))"

definition score_retrieval_hits :: "'v :: linordered_field memory_hit list \<Rightarrow> py_error + 'v scored_memory list" where
  "score_retrieval_hits hits =
     sum_bind (dedupe_hits hits) (\<lambda>unique.
     sum_bind (collapse_conflicts unique) (\<lambda>kept. score_hits kept))"

section \<open>What a score is\<close>

definition interim_score :: "'v :: linordered_field memory_hit \<Rightarrow> 'v" where
  "interim_score hit = 85 / 100 * mh_similarity hit + 15 / 100 * mh_confidence hit"

definition in_unit :: "'v :: linordered_field memory_hit \<Rightarrow> bool" where
  "in_unit hit \<longleftrightarrow> 0 \<le> mh_similarity hit \<and> mh_similarity hit \<le> 1 \<and> 0 \<le> mh_confidence hit \<and> mh_confidence hit \<le> 1"

lemma score_memory_hit_Inr: "score_memory_hit hit = Inr s \<longleftrightarrow> in_unit hit \<and> s = interim_score hit"
  by (auto simp: score_memory_hit_def require_unit_def in_unit_def interim_score_def SIMILARITY_WEIGHT_def
      CONFIDENCE_WEIGHT_def)

lemma score_memory_hit_total: "in_unit hit \<Longrightarrow> score_memory_hit hit = Inr (interim_score hit)"
  by (simp add: score_memory_hit_Inr)

lemma sum_mapM_all2: "sum_mapM f xs = Inr ys \<longleftrightarrow> list_all2 (\<lambda>x y. f x = Inr y) xs ys"
proof (induction xs arbitrary: ys)
  case (Cons x xs)
  show ?case
  proof (cases "sum_mapM f xs")
    case (Inl e)
    then have "\<not> list_all2 (\<lambda>x y. f x = Inr y) xs zs" for zs using Cons [of zs] by simp
    with Inl show ?thesis by (simp add: list_all2_Cons1 split: sum.split)
  next
    case (Inr zs)
    then have "list_all2 (\<lambda>x y. f x = Inr y) xs ws \<longleftrightarrow> zs = ws" for ws using Cons [of ws] by simp
    with Inr show ?thesis by (auto simp: list_all2_Cons1 split: sum.split)
  qed
qed auto

lemma sum_mapM_map: "(\<And>x. x \<in> set xs \<Longrightarrow> f x = Inr (g x)) \<Longrightarrow> sum_mapM f xs = Inr (map g xs)"
  by (simp add: sum_mapM_all2 list_all2_map2 list_all2_same)

lemma sum_mapM_fun:
  assumes "sum_mapM f xs = Inr ys" and "\<And>x y. x \<in> set xs \<Longrightarrow> f x = Inr y \<Longrightarrow> P x \<and> y = g x"
  shows "ys = map g xs \<and> (\<forall>x\<in>set xs. P x)"
proof -
  have "list_all2 (\<lambda>x y. f x = Inr y) xs ys" using assms(1) by (simp add: sum_mapM_all2)
  from this assms(2) show ?thesis by (induction rule: list_all2_induct) auto
qed

lemma score_hits_Inr:
  "score_hits hits = Inr scored \<longleftrightarrow> (\<forall>h\<in>set hits. in_unit h) \<and>
     scored = map (\<lambda>h. \<lparr>sm_hit = h, sm_composite_score = interim_score h\<rparr>) hits"
  (is "_ \<longleftrightarrow> ?ok \<and> scored = map ?g hits")
proof
  assume "score_hits hits = Inr scored"
  from this [unfolded score_hits_def] have "scored = map ?g hits \<and> ?ok"
    by (rule sum_mapM_fun) (auto simp: score_memory_hit_Inr)
  then show "?ok \<and> scored = map ?g hits" by blast
next
  assume "?ok \<and> scored = map ?g hits"
  then show "score_hits hits = Inr scored"
    unfolding score_hits_def by (auto simp: score_memory_hit_total intro!: sum_mapM_map)
qed

text \<open>The order of suppression: descending score, then identifier.\<close>

abbreviation hit_key :: "'v :: linordered_field memory_hit \<Rightarrow> 'v \<times> string" where
  "hit_key h \<equiv> (- interim_score h, mh_memory_id h)"

lemma map_sort_key_snd:
  "(\<And>x. x \<in> set xs \<Longrightarrow> f x = g (h x)) \<Longrightarrow> map h (sort_key f xs) = sort_key g (map h xs)"
proof (rule properties_for_sort_key [symmetric])
  assume fg: "\<And>x. x \<in> set xs \<Longrightarrow> f x = g (h x)"
  show "mset (map h (sort_key f xs)) = mset (map h xs)" by simp
  have "map g (map h (sort_key f xs)) = map f (sort_key f xs)" using fg by auto
  then show "sorted (map g (map h (sort_key f xs)))" by (simp only: sorted_sort_key)
  fix k assume "k \<in> set (map h (sort_key f xs))"
  then obtain a where a: "a \<in> set xs" "k = h a" by auto
  have "filter (\<lambda>x. g k = g x) (map h (sort_key f xs)) = map h (filter (\<lambda>x. f x = f a) (sort_key f xs))"
    unfolding filter_map comp_def using fg a by (intro arg_cong [where f = "map h"] filter_cong) auto
  also have "\<dots> = map h (filter (\<lambda>x. f x = f a) xs)" by (simp only: sort_key_stable)
  also have "\<dots> = filter (\<lambda>x. g k = g x) (map h xs)"
    unfolding filter_map comp_def using fg a by (intro arg_cong [where f = "map h"] filter_cong) auto
  finally show "filter (\<lambda>x. g k = g x) (map h (sort_key f xs)) = filter (\<lambda>x. g k = g x) (map h xs)" .
qed

lemma collapse_conflicts_Inr:
  "collapse_conflicts hits = Inr kept \<longleftrightarrow>
     (\<forall>h\<in>set hits. in_unit h) \<and> kept = collapse_loop (sort_key hit_key hits) [] {}"
proof -
  have order: "map snd (sort_key (\<lambda>(s, hit). (- s, mh_memory_id hit)) (zip (map interim_score hits) hits))
      = sort_key hit_key hits"
    by (subst map_sort_key_snd [where g = hit_key]) (auto simp: in_set_zip)
  show ?thesis
  proof
    assume "collapse_conflicts hits = Inr kept"
    then obtain scores where scores: "sum_mapM score_memory_hit hits = Inr scores"
      and kept: "kept = collapse_loop (map snd (sort_key (\<lambda>(s, hit). (- s, mh_memory_id hit)) (zip scores hits))) [] {}"
      by (auto simp: collapse_conflicts_def Let_def)
    have "scores = map interim_score hits \<and> (\<forall>h\<in>set hits. in_unit h)"
      by (rule sum_mapM_fun [OF scores]) (simp add: score_memory_hit_Inr)
    with kept order show "(\<forall>h\<in>set hits. in_unit h) \<and> kept = collapse_loop (sort_key hit_key hits) [] {}"
      by simp
  next
    assume "(\<forall>h\<in>set hits. in_unit h) \<and> kept = collapse_loop (sort_key hit_key hits) [] {}"
    then show "collapse_conflicts hits = Inr kept"
      using sum_mapM_map [of hits score_memory_hit interim_score] order
      by (simp add: collapse_conflicts_def score_memory_hit_total)
  qed
qed


section \<open>The merge\<close>

text \<open>After a prefix of the hits: the incumbents are best of their identifier and the groups are their union.\<close>

definition dedupe_inv ::
  "'v :: linordered_field memory_hit set \<Rightarrow> (string \<times> 'v memory_hit) list \<Rightarrow> (string \<rightharpoonup> string set) \<Rightarrow> bool" where
  "dedupe_inv seen best groups \<longleftrightarrow>
     distinct (map fst best) \<and>
     (\<forall>mid. map_of best mid = None \<longleftrightarrow> mid \<notin> mh_memory_id ` seen) \<and>
     (\<forall>mid h. map_of best mid = Some h \<longrightarrow> h \<in> seen \<and> mh_memory_id h = mid \<and>
        (\<forall>h'\<in>seen. mh_memory_id h' = mid \<longrightarrow> interim_score h' \<le> interim_score h)) \<and>
     (\<forall>mid. mid \<in> mh_memory_id ` seen \<longrightarrow>
        groups mid = Some (\<Union>h\<in>{h \<in> seen. mh_memory_id h = mid}. set (mh_conflict_groups h))) \<and>
     (\<forall>mid. mid \<notin> mh_memory_id ` seen \<longrightarrow> groups mid = None)"

lemma prefer_hit_Inr:
  "prefer_hit a b = Inr better \<Longrightarrow>
     (better \<longrightarrow> interim_score b \<le> interim_score a) \<and> (\<not> better \<longrightarrow> interim_score a \<le> interim_score b)"
  by (auto simp: prefer_hit_def score_memory_hit_Inr split: if_splits)

lemma groups_insert:
  "(\<Union>h\<in>{h \<in> insert a seen. mh_memory_id h = mid}. set (mh_conflict_groups h)) =
   (if mh_memory_id a = mid then set (mh_conflict_groups a) else {}) \<union>
   (\<Union>h\<in>{h \<in> seen. mh_memory_id h = mid}. set (mh_conflict_groups h))"
  by auto

lemma dedupe_inv_groups:
  fixes hit :: "'v :: linordered_field memory_hit"
  assumes "dedupe_inv seen best groups"
  defines "groups' \<equiv> groups(mh_memory_id hit \<mapsto>
    (case groups (mh_memory_id hit) of None \<Rightarrow> {} | Some g \<Rightarrow> g) \<union> set (mh_conflict_groups hit))"
  shows "mid \<in> mh_memory_id ` insert hit seen \<Longrightarrow>
      groups' mid = Some (\<Union>h\<in>{h \<in> insert hit seen. mh_memory_id h = mid}. set (mh_conflict_groups h))"
    "mid \<notin> mh_memory_id ` insert hit seen \<Longrightarrow> groups' mid = None"
proof -
  have known: "mid \<in> mh_memory_id ` seen \<Longrightarrow>
      groups mid = Some (\<Union>h\<in>{h \<in> seen. mh_memory_id h = mid}. set (mh_conflict_groups h))"
    and unknown: "mid \<notin> mh_memory_id ` seen \<Longrightarrow> groups mid = None" for mid
    using assms(1) by (simp_all add: dedupe_inv_def)
  show "groups' mid = None" if "mid \<notin> mh_memory_id ` insert hit seen"
    using that unknown [of mid] by (simp add: groups'_def)
  show "groups' mid = Some (\<Union>h\<in>{h \<in> insert hit seen. mh_memory_id h = mid}. set (mh_conflict_groups h))"
    if mid: "mid \<in> mh_memory_id ` insert hit seen"
  proof (cases "mid \<in> mh_memory_id ` seen")
    case True
    then show ?thesis using known [of mid] by (auto simp: groups'_def groups_insert)
  next
    case False
    then have "{h \<in> seen. mh_memory_id h = mid} = {}" by auto
    then show ?thesis using False mid unknown [of mid] by (auto simp: groups'_def groups_insert)
  qed
qed

lemma dedupe_inv_new:
  assumes "dedupe_inv seen best groups" "map_of best (mh_memory_id hit) = None"
  shows "dedupe_inv (insert hit seen) (AList.update (mh_memory_id hit) hit best)
    (groups(mh_memory_id hit \<mapsto> (case groups (mh_memory_id hit) of None \<Rightarrow> {} | Some g \<Rightarrow> g) \<union> set (mh_conflict_groups hit)))"
  (is "dedupe_inv _ ?best ?groups")
proof -
  have new: "\<forall>h\<in>seen. mh_memory_id h \<noteq> mh_memory_id hit" using assms by (auto simp: dedupe_inv_def)
  have best: "\<forall>mid h. map_of ?best mid = Some h \<longrightarrow> h \<in> insert hit seen \<and> mh_memory_id h = mid \<and>
      (\<forall>h'\<in>insert hit seen. mh_memory_id h' = mid \<longrightarrow> interim_score h' \<le> interim_score h)"
  proof (intro allI impI)
    fix mid h
    assume h: "map_of ?best mid = Some h"
    show "h \<in> insert hit seen \<and> mh_memory_id h = mid \<and>
      (\<forall>h'\<in>insert hit seen. mh_memory_id h' = mid \<longrightarrow> interim_score h' \<le> interim_score h)"
    proof (cases "mid = mh_memory_id hit")
      case True
      with h new show ?thesis by (auto simp: update_conv')
    next
      case False
      with h have "map_of best mid = Some h" by (simp add: update_conv')
      with assms(1) False show ?thesis unfolding dedupe_inv_def by blast
    qed
  qed
  have dom: "\<forall>mid. map_of ?best mid = None \<longleftrightarrow> mid \<notin> mh_memory_id ` insert hit seen"
    using assms(1) by (auto simp: dedupe_inv_def update_conv')
  have "distinct (map fst ?best)"
    using assms(1) by (simp add: dedupe_inv_def distinct_update)
  with best dom dedupe_inv_groups [OF assms(1), of _ hit] show ?thesis
    unfolding dedupe_inv_def by blast
qed

lemma dedupe_inv_old:
  assumes "dedupe_inv seen best groups" "map_of best (mh_memory_id hit) = Some old" "prefer_hit hit old = Inr better"
  shows "dedupe_inv (insert hit seen) (if better then AList.update (mh_memory_id hit) hit best else best)
    (groups(mh_memory_id hit \<mapsto> (case groups (mh_memory_id hit) of None \<Rightarrow> {} | Some g \<Rightarrow> g) \<union> set (mh_conflict_groups hit)))"
  (is "dedupe_inv _ ?best ?groups")
proof -
  note pref = prefer_hit_Inr [OF assms(3)]
  have old: "old \<in> seen" "mh_memory_id old = mh_memory_id hit"
    "\<forall>h'\<in>seen. mh_memory_id h' = mh_memory_id hit \<longrightarrow> interim_score h' \<le> interim_score old"
    using assms(1,2) unfolding dedupe_inv_def by blast+
  then have ids: "mh_memory_id ` insert hit seen = mh_memory_id ` seen" by auto (metis imageI)
  have look: "map_of ?best mid = (if mid = mh_memory_id hit then Some (if better then hit else old) else map_of best mid)" for mid
    using assms(2) by (simp add: update_conv')
  have best: "\<forall>mid h. map_of ?best mid = Some h \<longrightarrow> h \<in> insert hit seen \<and> mh_memory_id h = mid \<and>
      (\<forall>h'\<in>insert hit seen. mh_memory_id h' = mid \<longrightarrow> interim_score h' \<le> interim_score h)"
  proof (intro allI impI)
    fix mid h
    assume h: "map_of ?best mid = Some h"
    show "h \<in> insert hit seen \<and> mh_memory_id h = mid \<and>
      (\<forall>h'\<in>insert hit seen. mh_memory_id h' = mid \<longrightarrow> interim_score h' \<le> interim_score h)"
    proof (cases "mid = mh_memory_id hit")
      case True
      with h look have "h = (if better then hit else old)" by simp
      with True old pref show ?thesis by (auto intro: order_trans)
    next
      case False
      with h look have "map_of best mid = Some h" by simp
      with assms(1) False show ?thesis unfolding dedupe_inv_def by blast
    qed
  qed
  have "map_of best mid = None \<longleftrightarrow> mid \<notin> mh_memory_id ` seen" for mid
    using assms(1) unfolding dedupe_inv_def by blast
  then have dom: "\<forall>mid. map_of ?best mid = None \<longleftrightarrow> mid \<notin> mh_memory_id ` insert hit seen"
    unfolding look ids using old(1) old(2) [symmetric] by auto
  have "distinct (map fst ?best)"
    using assms(1) by (simp add: dedupe_inv_def distinct_update)
  with best dom dedupe_inv_groups [OF assms(1), of _ hit] show ?thesis
    unfolding dedupe_inv_def by blast
qed

lemma dedupe_loop_inv:
  "dedupe_loop hits best groups = Inr (best', groups') \<Longrightarrow> dedupe_inv seen best groups \<Longrightarrow>
   dedupe_inv (seen \<union> set hits) best' groups'"
proof (induction hits best groups arbitrary: seen rule: dedupe_loop.induct)
  case (2 hit hits best groups)
  show ?case
  proof (cases "map_of best (mh_memory_id hit)")
    case None
    have "dedupe_inv (insert hit seen \<union> set hits) best' groups'"
      by (rule "2.IH"(1) [OF refl refl None _ dedupe_inv_new [OF "2.prems"(2) None]])
        (use "2.prems"(1) None in \<open>simp add: Let_def del: fun_upd_apply\<close>)
    then show ?thesis by simp
  next
    case (Some old)
    with "2.prems"(1) obtain better where better: "prefer_hit hit old = Inr better"
      by (auto simp: Let_def)
    have "dedupe_inv (insert hit seen \<union> set hits) best' groups'"
      by (rule "2.IH"(2) [OF refl refl Some _ dedupe_inv_old [OF "2.prems"(2) Some better]])
        (use "2.prems"(1) Some better in \<open>simp add: Let_def del: fun_upd_apply\<close>)
    then show ?thesis by simp
  qed
qed simp

lemma dedupe_hits_Inr:
  assumes "dedupe_hits hits = Inr unique"
  shows "distinct (map mh_memory_id unique)"
    and "mh_memory_id ` set unique = mh_memory_id ` set hits"
    and "\<And>u. u \<in> set unique \<Longrightarrow> \<exists>h\<in>set hits. u = h\<lparr>mh_conflict_groups := mh_conflict_groups u\<rparr> \<and>
      (\<forall>h'\<in>set hits. mh_memory_id h' = mh_memory_id u \<longrightarrow> interim_score h' \<le> interim_score u)"
    and "\<And>u. u \<in> set unique \<Longrightarrow>
      set (mh_conflict_groups u) = (\<Union>h\<in>{h \<in> set hits. mh_memory_id h = mh_memory_id u}. set (mh_conflict_groups h))"
proof -
  obtain best groups where loop: "dedupe_loop hits [] Map.empty = Inr (best, groups)"
    and u: "unique = map (\<lambda>(mid, hit). hit\<lparr>mh_conflict_groups := sorted_list_of_set (the (groups (mh_memory_id hit)))\<rparr>) best"
    using assms by (auto simp: dedupe_hits_def)
  have inv: "dedupe_inv (set hits) best groups"
    using dedupe_loop_inv [OF loop, of "{}"] by (simp add: dedupe_inv_def)
  then have d: "distinct (map fst best)" by (simp add: dedupe_inv_def)
  have best: "h \<in> set hits \<and> mh_memory_id h = mid \<and>
      (\<forall>h'\<in>set hits. mh_memory_id h' = mid \<longrightarrow> interim_score h' \<le> interim_score h)" if "(mid, h) \<in> set best" for mid h
    using inv that d unfolding dedupe_inv_def by (metis map_of_is_SomeI)
  have ids: "map mh_memory_id unique = map fst best"
    using best by (auto simp: u)
  then show "distinct (map mh_memory_id unique)" using d by simp
  have "set (map fst best) = mh_memory_id ` set hits"
    using inv unfolding dedupe_inv_def by (metis (no_types, lifting) list.set_map map_of_eq_None_iff subsetI subset_antisym)
  then show "mh_memory_id ` set unique = mh_memory_id ` set hits"
    using ids by (metis list.set_map)
  fix x assume "x \<in> set unique"
  then obtain mid h where mh: "(mid, h) \<in> set best"
    and x: "x = h\<lparr>mh_conflict_groups := sorted_list_of_set (the (groups (mh_memory_id h)))\<rparr>"
    by (auto simp: u)
  show "\<exists>h\<in>set hits. x = h\<lparr>mh_conflict_groups := mh_conflict_groups x\<rparr> \<and>
      (\<forall>h'\<in>set hits. mh_memory_id h' = mh_memory_id x \<longrightarrow> interim_score h' \<le> interim_score x)"
    using best [OF mh] by (intro bexI [of _ h]) (auto simp: x interim_score_def)
  have "groups (mh_memory_id h) = Some (\<Union>h'\<in>{h' \<in> set hits. mh_memory_id h' = mh_memory_id h}. set (mh_conflict_groups h'))"
    using inv best [OF mh] unfolding dedupe_inv_def by blast
  then show "set (mh_conflict_groups x)
      = (\<Union>h\<in>{h \<in> set hits. mh_memory_id h = mh_memory_id x}. set (mh_conflict_groups h))"
    by (simp add: x)
qed


section \<open>The suppression\<close>

abbreviation hit_groups :: "'v memory_hit \<Rightarrow> string set" where
  "hit_groups h \<equiv> set (mh_conflict_groups h)"

lemma collapse_loop_subset: "set (collapse_loop hits kept g) \<subseteq> set kept \<union> set hits"
  by (induction hits kept g rule: collapse_loop.induct) auto

lemma collapse_loop_keeps: "set kept \<subseteq> set (collapse_loop hits kept g)"
  by (induction hits kept g rule: collapse_loop.induct) auto

lemma collapse_loop_distinct:
  "distinct (map f (kept @ hits)) \<Longrightarrow> distinct (map f (collapse_loop hits kept g))"
  by (induction hits kept g rule: collapse_loop.induct) auto

lemma collapse_loop_disjoint:
  "g = (\<Union>k\<in>set kept. hit_groups k) \<Longrightarrow> sorted_wrt (\<lambda>a b. hit_groups a \<inter> hit_groups b = {}) kept \<Longrightarrow>
   sorted_wrt (\<lambda>a b. hit_groups a \<inter> hit_groups b = {}) (collapse_loop hits kept g)"
proof (induction hits kept g rule: collapse_loop.induct)
  case (2 hit hits kept g)
  show ?case
  proof (cases "mh_conflict_groups hit \<noteq> [] \<and> g \<inter> hit_groups hit \<noteq> {}")
    case True
    with 2 show ?thesis by simp
  next
    case False
    then have "g \<inter> hit_groups hit = {}" by auto
    then have "sorted_wrt (\<lambda>a b. hit_groups a \<inter> hit_groups b = {}) (kept @ [hit])"
      using "2.prems" by (auto simp: sorted_wrt_append)
    with False 2 show ?thesis by (simp add: Un_commute)
  qed
qed simp

text \<open>Whatever is suppressed has a rival that was kept and came before it.\<close>

lemma collapse_loop_rival:
  "g = (\<Union>k\<in>set kept. hit_groups k) \<Longrightarrow> sorted_wrt P (kept @ hits) \<Longrightarrow>
   h \<in> set hits \<Longrightarrow> h \<notin> set (collapse_loop hits kept g) \<Longrightarrow>
   \<exists>k\<in>set (collapse_loop hits kept g). hit_groups k \<inter> hit_groups h \<noteq> {} \<and> P k h"
proof (induction hits kept g rule: collapse_loop.induct)
  case (2 hit hits kept g)
  show ?case
  proof (cases "mh_conflict_groups hit \<noteq> [] \<and> g \<inter> hit_groups hit \<noteq> {}")
    case True
    then obtain k where k: "k \<in> set kept" "hit_groups k \<inter> hit_groups hit \<noteq> {}"
      using "2.prems"(1) by blast
    have sorted: "sorted_wrt P (kept @ hits)" "P k hit"
      using "2.prems"(2) k(1) by (auto simp: sorted_wrt_append)
    show ?thesis
    proof (cases "h = hit")
      case True
      with k sorted show ?thesis using collapse_loop_keeps by blast
    next
      case False
      then show ?thesis using 2 True sorted by simp
    qed
  next
    case False
    then have step: "collapse_loop (hit # hits) kept g = collapse_loop hits (kept @ [hit]) (g \<union> hit_groups hit)"
      by auto
    have "hit \<in> set (collapse_loop hits (kept @ [hit]) (g \<union> hit_groups hit))"
      using collapse_loop_keeps [of "kept @ [hit]"] by auto
    with "2.prems"(3,4) step have "h \<in> set hits" by auto
    with 2 False step show ?thesis by (simp add: Un_commute)
  qed
qed simp

lemma score_retrieval_hits_Inr:
  assumes "score_retrieval_hits hits = Inr scored"
  obtains unique where "dedupe_hits hits = Inr unique" "\<forall>h\<in>set unique. in_unit h"
    "map sm_hit scored = collapse_loop (sort_key hit_key unique) [] {}"
    "\<forall>m\<in>set scored. in_unit (sm_hit m) \<and> sm_composite_score m = interim_score (sm_hit m)"
    "distinct (map memory_id scored)"
proof -
  obtain unique kept where u: "dedupe_hits hits = Inr unique" and c: "collapse_conflicts unique = Inr kept"
    and s: "score_hits kept = Inr scored"
    using assms by (auto simp: score_retrieval_hits_def)
  have kept: "kept = collapse_loop (sort_key hit_key unique) [] {}" "\<forall>h\<in>set unique. in_unit h"
    using c by (auto simp: collapse_conflicts_Inr)
  have scored: "scored = map (\<lambda>h. \<lparr>sm_hit = h, sm_composite_score = interim_score h\<rparr>) kept" "\<forall>h\<in>set kept. in_unit h"
    using s by (auto simp: score_hits_Inr)
  have "distinct (map mh_memory_id (sort_key hit_key unique))"
    using dedupe_hits_Inr(1) [OF u]
      mset_eq_imp_distinct_iff [of "map mh_memory_id (sort_key hit_key unique)" "map mh_memory_id unique"]
    by (simp del: distinct_map)
  then have "distinct (map mh_memory_id kept)"
    unfolding kept by (intro collapse_loop_distinct) simp
  with u kept scored show thesis
    by (intro that [of unique]) (auto simp: comp_def memory_id_def)
qed

lemma scored_candidates_sound:
  assumes "score_retrieval_hits hits = Inr scored"
  shows "(\<forall>a\<in>set hits. \<forall>b\<in>set hits. mh_memory_id a \<noteq> mh_memory_id b \<and> hit_groups a \<inter> hit_groups b \<noteq> {} \<longrightarrow>
      \<not> (mh_memory_id a \<in> memory_id ` set scored \<and> mh_memory_id b \<in> memory_id ` set scored)) \<and>
    distinct (map memory_id scored) \<and>
    (\<forall>m\<in>set scored. \<exists>h\<in>set hits. sm_hit m = h\<lparr>mh_conflict_groups := mh_conflict_groups (sm_hit m)\<rparr> \<and>
      sm_composite_score m = interim_score h \<and>
      (\<forall>h'\<in>set hits. mh_memory_id h' = memory_id m \<longrightarrow> interim_score h' \<le> sm_composite_score m))"
proof -
  obtain unique where u: "dedupe_hits hits = Inr unique" and "\<forall>h\<in>set unique. in_unit h"
    and kept: "map sm_hit scored = collapse_loop (sort_key hit_key unique) [] {}"
    and score: "\<forall>m\<in>set scored. in_unit (sm_hit m) \<and> sm_composite_score m = interim_score (sm_hit m)"
    and dist: "distinct (map memory_id scored)"
    by (rule score_retrieval_hits_Inr [OF assms])
  have sub: "sm_hit m \<in> set unique" if "m \<in> set scored" for m
  proof -
    have "sm_hit m \<in> set (map sm_hit scored)" using that by simp
    then show ?thesis using collapse_loop_subset [of "sort_key hit_key unique" "[]" "{}"] by (auto simp: kept)
  qed
  have grp: "hit_groups a \<subseteq> hit_groups (sm_hit m)" if "a \<in> set hits" "m \<in> set scored" "memory_id m = mh_memory_id a" for a m
    using dedupe_hits_Inr(4) [OF u sub [OF that(2)]] that by (auto simp: memory_id_def)
  have "sorted_wrt (\<lambda>a b. hit_groups a \<inter> hit_groups b = {}) (map sm_hit scored)"
    unfolding kept by (rule collapse_loop_disjoint) simp_all
  then have disj: "hit_groups (sm_hit m) \<inter> hit_groups (sm_hit m') = {}"
    if "m \<in> set scored" "m' \<in> set scored" "m \<noteq> m'" for m m'
    using that by (induction scored) (auto simp: Int_commute)
  show ?thesis
  proof (intro conjI ballI impI notI)
    fix a b
    assume ab: "a \<in> set hits" "b \<in> set hits" "mh_memory_id a \<noteq> mh_memory_id b \<and> hit_groups a \<inter> hit_groups b \<noteq> {}"
      "mh_memory_id a \<in> memory_id ` set scored \<and> mh_memory_id b \<in> memory_id ` set scored"
    then obtain m m' where m: "m \<in> set scored" "m' \<in> set scored" "memory_id m = mh_memory_id a" "memory_id m' = mh_memory_id b"
      by force
    then have "m \<noteq> m'" using ab(3) by auto
    with disj [OF m(1,2)] grp [OF ab(1) m(1,3)] grp [OF ab(2) m(2,4)] ab(3) show False by blast
  next
    fix m assume m: "m \<in> set scored"
    then obtain h where h: "h \<in> set hits" "sm_hit m = h\<lparr>mh_conflict_groups := mh_conflict_groups (sm_hit m)\<rparr>"
      "\<forall>h'\<in>set hits. mh_memory_id h' = mh_memory_id (sm_hit m) \<longrightarrow> interim_score h' \<le> interim_score (sm_hit m)"
      using dedupe_hits_Inr(3) [OF u sub [OF m]] by blast
    have "interim_score (h\<lparr>mh_conflict_groups := g\<rparr>) = interim_score h" for g by (simp add: interim_score_def)
    then have "sm_composite_score m = interim_score h" using score m h(2) by metis
    with h score m show "\<exists>h\<in>set hits. sm_hit m = h\<lparr>mh_conflict_groups := mh_conflict_groups (sm_hit m)\<rparr> \<and>
        sm_composite_score m = interim_score h \<and>
        (\<forall>h'\<in>set hits. mh_memory_id h' = memory_id m \<longrightarrow> interim_score h' \<le> sm_composite_score m)"
      by (intro bexI [of _ h]) (auto simp: memory_id_def)
  qed (rule dist)
qed


text \<open>
  C33. Both sides of a conflict never reach the packer: of two retrieved hits with different
  identifiers and a common conflict group, from whichever pages, at most one identifier is among
  the scored candidates. Candidates have distinct identifiers, and each is the best-scored
  retrieved copy of its memory.
\<close>

theorem no_conflicting_pair:
  assumes "score_retrieval_hits hits = Inr scored"
  shows "(\<forall>a\<in>set hits. \<forall>b\<in>set hits. mh_memory_id a \<noteq> mh_memory_id b \<and> hit_groups a \<inter> hit_groups b \<noteq> {} \<longrightarrow>
      \<not> (mh_memory_id a \<in> memory_id ` set scored \<and> mh_memory_id b \<in> memory_id ` set scored)) \<and>
    distinct (map memory_id scored) \<and>
    (\<forall>m\<in>set scored. \<exists>h\<in>set hits. sm_hit m = h\<lparr>mh_conflict_groups := mh_conflict_groups (sm_hit m)\<rparr> \<and>
      sm_composite_score m = interim_score h \<and>
      (\<forall>h'\<in>set hits. mh_memory_id h' = memory_id m \<longrightarrow> interim_score h' \<le> sm_composite_score m))"
  using assms by (rule scored_candidates_sound)

definition conflict_hit :: "string \<Rightarrow> rat \<Rightarrow> string list \<Rightarrow> rat memory_hit" where
  "conflict_hit mid sim groups = \<lparr>mh_memory_id = mid, mh_org_id = ''o'', mh_agent_id = ''a'', mh_content = ''c'',
     mh_category = ''factual'', mh_confidence = 1, mh_similarity = sim, mh_rank = 1, mh_source = ''hot'',
     mh_conflict_groups = groups\<rparr>"

text \<open>Two copies of one memory, of which only the weaker one shows the conflict, and its rival.\<close>

definition conflict_hits :: "rat memory_hit list" where
  "conflict_hits = [conflict_hit ''1'' 0 [''g''], conflict_hit ''2'' 0 [''g''], conflict_hit ''1'' 1 []]"

lemma conflict_score: "in_unit (conflict_hit mid 0 gs)" "in_unit (conflict_hit mid 1 gs)"
  "interim_score (conflict_hit mid 0 gs) = 15 / 100" "interim_score (conflict_hit mid 1 gs) = 1"
  by (simp_all add: conflict_hit_def in_unit_def interim_score_def)

lemma conflict_fields: "mh_memory_id (conflict_hit mid s gs) = mid" "mh_conflict_groups (conflict_hit mid s gs) = gs"
  "(conflict_hit mid s gs)\<lparr>mh_conflict_groups := gs'\<rparr> = conflict_hit mid s gs'"
  by (simp_all add: conflict_hit_def)

lemma conflict_dedupe: "dedupe_hits conflict_hits = Inr [conflict_hit ''1'' 1 [''g''], conflict_hit ''2'' 0 [''g'']]"
  by (simp add: dedupe_hits_def conflict_hits_def conflict_fields prefer_hit_def score_memory_hit_total conflict_score Let_def)

lemma conflict_scored:
  "score_retrieval_hits conflict_hits
     = Inr [\<lparr>sm_hit = conflict_hit ''1'' 1 [''g''], sm_composite_score = 1\<rparr>]"
proof -
  have "collapse_conflicts [conflict_hit ''1'' 1 [''g''], conflict_hit ''2'' 0 [''g'']] = Inr [conflict_hit ''1'' 1 [''g'']]"
    by (simp add: collapse_conflicts_Inr conflict_score conflict_fields)
  moreover have "score_hits [conflict_hit ''1'' 1 [''g'']] = Inr [\<lparr>sm_hit = conflict_hit ''1'' 1 [''g''], sm_composite_score = 1\<rparr>]"
    by (simp add: score_hits_Inr conflict_score)
  ultimately show ?thesis by (simp add: score_retrieval_hits_def conflict_dedupe)
qed

theorem no_conflicting_pair_witness:
  "\<exists>scored. score_retrieval_hits conflict_hits = Inr scored \<and> distinct (map memory_id scored) \<and>
     ''1'' \<in> memory_id ` set scored \<and> ''2'' \<notin> memory_id ` set scored"
proof -
  have "mh_memory_id (conflict_hit ''1'' 0 [''g'']) \<noteq> mh_memory_id (conflict_hit ''2'' 0 [''g'']) \<and>
      hit_groups (conflict_hit ''1'' 0 [''g'']) \<inter> hit_groups (conflict_hit ''2'' 0 [''g'']) \<noteq> {}"
    by (simp add: conflict_fields)
  moreover have "conflict_hit ''1'' 0 [''g''] \<in> set conflict_hits" "conflict_hit ''2'' 0 [''g''] \<in> set conflict_hits"
    by (simp_all add: conflict_hits_def)
  ultimately have "\<not> (''1'' \<in> memory_id ` set [\<lparr>sm_hit = conflict_hit ''1'' 1 [''g''], sm_composite_score = 1\<rparr>] \<and>
      ''2'' \<in> memory_id ` set [\<lparr>sm_hit = conflict_hit ''1'' 1 [''g''], sm_composite_score = 1 :: rat\<rparr>])"
    using no_conflicting_pair [OF conflict_scored] by (metis (no_types, lifting) conflict_fields(1))
  moreover have "''1'' \<in> memory_id ` set [\<lparr>sm_hit = conflict_hit ''1'' 1 [''g''], sm_composite_score = 1 :: rat\<rparr>]"
    by (simp add: memory_id_def conflict_fields)
  ultimately show ?thesis
    using conflict_scored by auto
qed

text \<open>
  C34. Suppression costs nothing else: a retrieved memory is missing from the candidates only if a
  candidate that scores at least as well shares a conflict group with one of its copies.
\<close>

theorem suppressed_has_rival:
  assumes "score_retrieval_hits hits = Inr scored" and "h \<in> set hits" and "mh_memory_id h \<notin> memory_id ` set scored"
  shows "\<exists>m\<in>set scored. interim_score h \<le> sm_composite_score m \<and>
    (\<exists>h'\<in>set hits. mh_memory_id h' = mh_memory_id h \<and> hit_groups (sm_hit m) \<inter> hit_groups h' \<noteq> {})"
proof -
  obtain unique where u: "dedupe_hits hits = Inr unique" and "\<forall>h\<in>set unique. in_unit h"
    and kept: "map sm_hit scored = collapse_loop (sort_key hit_key unique) [] {}"
    and score: "\<forall>m\<in>set scored. in_unit (sm_hit m) \<and> sm_composite_score m = interim_score (sm_hit m)"
    and "distinct (map memory_id scored)"
    by (rule score_retrieval_hits_Inr [OF assms(1)])
  obtain x where x: "x \<in> set unique" "mh_memory_id x = mh_memory_id h"
    using dedupe_hits_Inr(2) [OF u] assms(2) by (metis imageE imageI)
  have best: "interim_score h \<le> interim_score x"
    using dedupe_hits_Inr(3) [OF u x(1)] assms(2) x(2) by auto
  have "x \<notin> set (map sm_hit scored)" using assms(3) x(2) [symmetric] by (auto simp: memory_id_def)
  moreover have "sorted_wrt (\<lambda>a b. hit_key a \<le> hit_key b) (sort_key hit_key unique)"
    using sorted_sort_key [of hit_key unique] by (simp only: sorted_map)
  ultimately obtain k where k: "k \<in> set (map sm_hit scored)" "hit_groups k \<inter> hit_groups x \<noteq> {}" "hit_key k \<le> hit_key x"
    using collapse_loop_rival [of "{}" "[]" "\<lambda>a b. hit_key a \<le> hit_key b" "sort_key hit_key unique" x] x(1)
    by (auto simp: kept)
  then obtain m where m: "m \<in> set scored" "k = sm_hit m" by auto
  have "interim_score x \<le> interim_score k" using k(3) by (auto simp: less_eq_prod_def)
  with m best score have "interim_score h \<le> sm_composite_score m" by force
  moreover obtain h' where "h' \<in> set hits" "mh_memory_id h' = mh_memory_id h" "hit_groups (sm_hit m) \<inter> hit_groups h' \<noteq> {}"
    using k(2) dedupe_hits_Inr(4) [OF u x(1)] x(2) m(2) by auto
  ultimately show ?thesis using m(1) by blast
qed

theorem suppressed_has_rival_witness:
  "\<exists>scored. score_retrieval_hits conflict_hits = Inr scored \<and>
     (\<exists>m\<in>set scored. interim_score (conflict_hit ''2'' 0 [''g'']) \<le> sm_composite_score m)"
proof -
  have "conflict_hit ''2'' 0 [''g''] \<in> set conflict_hits" by (simp add: conflict_hits_def)
  moreover have "mh_memory_id (conflict_hit ''2'' 0 [''g'']) \<notin>
      memory_id ` set [\<lparr>sm_hit = conflict_hit ''1'' 1 [''g''], sm_composite_score = 1 :: rat\<rparr>]"
    by (simp add: memory_id_def conflict_fields)
  ultimately show ?thesis
    using suppressed_has_rival [OF conflict_scored] conflict_scored by blast
qed

section \<open>When scoring raises\<close>

text \<open>Every hit is scored at some point: when it meets a copy of itself, or at the end.\<close>

lemma dedupe_loop_units:
  "dedupe_loop hits best groups = Inr (best', groups') \<Longrightarrow>
   (\<forall>h\<in>seen. in_unit h \<or> map_of best (mh_memory_id h) = Some h) \<Longrightarrow>
   \<forall>h\<in>seen \<union> set hits. in_unit h \<or> map_of best' (mh_memory_id h) = Some h"
proof (induction hits best groups arbitrary: seen rule: dedupe_loop.induct)
  case (2 hit hits best groups)
  show ?case
  proof (cases "map_of best (mh_memory_id hit)")
    case None
    then have "\<forall>h\<in>insert hit seen. in_unit h \<or> map_of (AList.update (mh_memory_id hit) hit best) (mh_memory_id h) = Some h"
      using "2.prems"(2) by (auto simp: update_conv')
    from "2.IH"(1) [OF refl refl None _ this] show ?thesis
      using "2.prems"(1) None by (simp add: Let_def del: fun_upd_apply)
  next
    case (Some old)
    with "2.prems"(1) obtain better where better: "prefer_hit hit old = Inr better"
      by (auto simp: Let_def)
    then have "in_unit hit" "in_unit old" by (auto simp: prefer_hit_def score_memory_hit_Inr)
    then have "\<forall>h\<in>insert hit seen. in_unit h \<or>
        map_of (if better then AList.update (mh_memory_id hit) hit best else best) (mh_memory_id h) = Some h"
      using "2.prems"(2) Some by (auto simp: update_conv')
    from "2.IH"(2) [OF refl refl Some _ this] show ?thesis
      using "2.prems"(1) Some better by (simp add: Let_def del: fun_upd_apply)
  qed
qed simp

lemma vals_update: "snd ` set (AList.update k v al) \<subseteq> insert v (snd ` set al)"
  by (induction al) auto

lemma dedupe_loop_total:
  "\<forall>h\<in>set hits. in_unit h \<Longrightarrow> \<forall>h\<in>snd ` set best. in_unit h \<Longrightarrow>
   \<exists>best' groups'. dedupe_loop hits best groups = Inr (best', groups') \<and> (\<forall>h\<in>snd ` set best'. in_unit h)"
proof (induction hits best groups rule: dedupe_loop.induct)
  case (2 hit hits best groups)
  have upd: "\<forall>h\<in>snd ` set (AList.update (mh_memory_id hit) hit best). in_unit h"
    using "2.prems" vals_update [of "mh_memory_id hit" hit best] unfolding list.set by blast
  show ?case
  proof (cases "map_of best (mh_memory_id hit)")
    case None
    then show ?thesis
      using "2.IH"(1) [OF refl refl None _ upd] "2.prems"(1) by (simp add: Let_def del: fun_upd_apply)
  next
    case (Some old)
    then have "in_unit old" using "2.prems"(2) by (force dest: map_of_SomeD)
    then obtain better where "prefer_hit hit old = Inr better"
      using "2.prems"(1) by (auto simp: prefer_hit_def score_memory_hit_total)
    moreover have "\<forall>h\<in>snd ` set (if better then AList.update (mh_memory_id hit) hit best else best). in_unit h"
      using upd "2.prems"(2) by auto
    ultimately show ?thesis
      using "2.IH"(2) [OF refl refl Some] "2.prems"(1) Some by (simp add: Let_def del: fun_upd_apply)
  qed
qed auto

lemma score_retrieval_hits_total:
  "(\<exists>scored. score_retrieval_hits hits = Inr scored) \<longleftrightarrow> (\<forall>h\<in>set hits. in_unit h)"
proof
  assume "\<exists>scored. score_retrieval_hits hits = Inr scored"
  then obtain best groups where loop: "dedupe_loop hits [] Map.empty = Inr (best, groups)"
    and units: "\<forall>h\<in>snd ` set best. in_unit h"
    by (fastforce simp: score_retrieval_hits_def dedupe_hits_def collapse_conflicts_Inr in_unit_def)
  then show "\<forall>h\<in>set hits. in_unit h"
    using dedupe_loop_units [OF loop, of "{}"] by (force dest: map_of_SomeD)
next
  assume "\<forall>h\<in>set hits. in_unit h"
  then obtain best groups where loop: "dedupe_loop hits [] Map.empty = Inr (best, groups)"
    and units: "\<forall>h\<in>snd ` set best. in_unit h"
    using dedupe_loop_total [of hits "[]" Map.empty] by auto
  define unique where "unique = map (\<lambda>(mid, hit). hit\<lparr>mh_conflict_groups := sorted_list_of_set (the (groups (mh_memory_id hit)))\<rparr>) best"
  have "dedupe_hits hits = Inr unique" using loop by (simp add: dedupe_hits_def unique_def)
  moreover have ok: "\<forall>h\<in>set unique. in_unit h" using units by (auto simp: unique_def in_unit_def)
  then obtain kept where kept: "collapse_conflicts unique = Inr kept" by (auto simp: collapse_conflicts_Inr)
  then have "\<forall>h\<in>set kept. in_unit h"
    using collapse_loop_subset [of "sort_key hit_key unique" "[]" "{}"] ok by (auto simp: collapse_conflicts_Inr)
  then have "\<exists>scored. score_hits kept = Inr scored" by (simp add: score_hits_Inr)
  ultimately show "\<exists>scored. score_retrieval_hits hits = Inr scored"
    using kept by (simp add: score_retrieval_hits_def)
qed

end
