(* ===== verification/Context_Retrieval.thy ===== *)
theory Context_Retrieval
  imports Context_Formatter Context_Pipeline
begin

text \<open>
  Parallel retrieval (\<open>services/context/app/retrieval.py\<close>) with the clients whose answers it
  takes (\<open>clients/memory.py\<close>, \<open>clients/directive.py\<close>). What the network and the clock do is the
  environment: the reply of the memory service or of Redis, or a timeout, and which branches
  finished before the outer deadline. Durations are not kept. Identifiers of organisations and
  agents are 128-bit numbers, compared through their canonical text as in the source.
\<close>

section \<open>JSON\<close>

text \<open>A decoded document; \<open>JNonFinite\<close> is one of \<open>NaN\<close>, \<open>Infinity\<close>, \<open>-Infinity\<close>.\<close>

datatype 'v json = JNull | JBool bool | JInt int | JFloat 'v | JNonFinite | JStr string
  | JList "'v json list" | JObj "(string \<times> 'v json) list"

definition json_get :: "(string \<times> 'v json) list \<Rightarrow> string \<Rightarrow> 'v json" where
  "json_get obj key = (case map_of obj key of None \<Rightarrow> JNull | Some v \<Rightarrow> v)"

section \<open>The memory client\<close>

text \<open>The client's two exceptions, and one of another class, by its name, that leaves the client as it is.\<close>

datatype memory_http_error = MemoryHttpError string "int option" | MemoryHttpTimeout string | OtherRaised string

text \<open>An HTTP exchange: a timeout, another transport error, or a status with a body (None: not JSON).\<close>

datatype 'v http_reply = Http_timeout | Http_transport_error | Http_response int "'v json option"

definition require_str :: "'v json \<Rightarrow> string \<Rightarrow> memory_http_error + string" where
  "require_str v label = (case v of JStr s \<Rightarrow> Inr s | _ \<Rightarrow> Inl (MemoryHttpError (label @ '' must be a string'') None))"

definition require_uuid_str :: "'v json \<Rightarrow> string \<Rightarrow> memory_http_error + string" where
  "require_uuid_str v label = sum_bind (require_str v label) (\<lambda>s. case uuid_of s of
     Some u \<Rightarrow> Inr (uuid_str u) | None \<Rightarrow> Inl (MemoryHttpError (label @ '' must be a UUID'') None))"

text \<open>
  \<open>float\<close> of an integer that rounds to \<open>2 ^ 1024\<close> or beyond, in either direction, raises
  \<open>OverflowError\<close>. Below that the value is kept exactly, where the float is the nearest double.
\<close>

definition float_overflows :: "int \<Rightarrow> bool" where
  "float_overflows i \<longleftrightarrow> 2 ^ 1024 - 2 ^ 970 \<le> \<bar>i\<bar>"

definition require_finite_float :: "'v :: linordered_field json \<Rightarrow> string \<Rightarrow> memory_http_error + 'v" where
  "require_finite_float v label = (case v of
     JInt i \<Rightarrow> if float_overflows i then Inl (OtherRaised ''OverflowError'') else Inr (of_int i)
   | JFloat x \<Rightarrow> Inr x
   | JNonFinite \<Rightarrow> Inl (MemoryHttpError (label @ '' must be finite'') None)
   | _ \<Rightarrow> Inl (MemoryHttpError (label @ '' must be a number'') None))"

definition require_unit_float :: "'v :: linordered_field json \<Rightarrow> string \<Rightarrow> memory_http_error + 'v" where
  "require_unit_float v label = sum_bind (require_finite_float v label) (\<lambda>x.
     if x < 0 \<or> 1 < x then Inl (MemoryHttpError (label @ '' must be in [0, 1]'') None) else Inr x)"

definition require_positive_int :: "'v json \<Rightarrow> string \<Rightarrow> memory_http_error + int" where
  "require_positive_int v label = (case v of
     JInt i \<Rightarrow> if i < 1 then Inl (MemoryHttpError (label @ '' must be >= 1'') None) else Inr i
   | _ \<Rightarrow> Inl (MemoryHttpError (label @ '' must be an integer'') None))"

definition conflict_groups :: "'v json \<Rightarrow> memory_http_error + string list" where
  "conflict_groups v = (case v of
     JNull \<Rightarrow> Inr []
   | JList xs \<Rightarrow> sum_mapM (\<lambda>x. require_uuid_str x ''memory.conflict_groups[]'') xs
   | _ \<Rightarrow> Inl (MemoryHttpError ''memory.conflict_groups must be a list'' None))"

definition hit_from_item :: "'v :: linordered_field json \<Rightarrow> memory_http_error + 'v memory_hit" where
  "hit_from_item item = (case item of
     JObj obj \<Rightarrow> (case json_get obj ''memory'' of
       JObj mem \<Rightarrow>
         sum_bind (require_uuid_str (json_get mem ''id'') ''memory.id'') (\<lambda>mid.
         sum_bind (require_uuid_str (json_get mem ''org_id'') ''memory.org_id'') (\<lambda>org.
         sum_bind (require_uuid_str (json_get mem ''agent_id'') ''memory.agent_id'') (\<lambda>agent.
         sum_bind (require_str (json_get mem ''content'') ''memory.content'') (\<lambda>body.
         sum_bind (require_str (json_get mem ''category'') ''memory.category'') (\<lambda>cat.
         sum_bind (require_unit_float (json_get mem ''confidence'') ''memory.confidence'') (\<lambda>conf.
         sum_bind (require_finite_float (json_get obj ''similarity'') ''similarity'') (\<lambda>sim.
         sum_bind (require_positive_int (json_get obj ''rank'') ''rank'') (\<lambda>rank.
         sum_bind (require_str (json_get obj ''source'') ''source'') (\<lambda>src.
         sum_bind (conflict_groups (json_get mem ''conflict_groups'')) (\<lambda>groups.
         Inr \<lparr>mh_memory_id = mid, mh_org_id = org, mh_agent_id = agent, mh_content = body, mh_category = cat,
           mh_confidence = conf, mh_similarity = sim, mh_rank = rank, mh_source = src,
           mh_conflict_groups = groups\<rparr>))))))))))
     | _ \<Rightarrow> Inl (MemoryHttpError ''memory search result missing memory object'' None))
   | _ \<Rightarrow> Inl (MemoryHttpError ''memory search result item must be an object'' None))"

definition json_object :: "'v json option \<Rightarrow> memory_http_error + (string \<times> 'v json) list" where
  "json_object body = (case body of
     None \<Rightarrow> Inl (MemoryHttpError ''memory service returned invalid JSON'' None)
   | Some (JObj obj) \<Rightarrow> Inr obj
   | Some _ \<Rightarrow> Inl (MemoryHttpError ''memory service returned non-object JSON'' None))"

definition results_list :: "'v json option \<Rightarrow> memory_http_error + 'v json list" where
  "results_list body = sum_bind (json_object body) (\<lambda>payload.
     case json_get payload ''data'' of
       JObj data \<Rightarrow> (case json_get data ''results'' of
           JList xs \<Rightarrow> Inr xs
         | _ \<Rightarrow> Inl (MemoryHttpError ''memory service response missing results'' None))
     | _ \<Rightarrow> Inl (MemoryHttpError ''memory service response missing data'' None))"

definition send :: "'v http_reply \<Rightarrow> memory_http_error + 'v json option" where
  "send reply = (case reply of
     Http_timeout \<Rightarrow> Inl (MemoryHttpTimeout ''memory service timeout'')
   | Http_transport_error \<Rightarrow> Inl (MemoryHttpError ''memory service transport error'' None)
   | Http_response status body \<Rightarrow>
       if 400 \<le> status then Inl (MemoryHttpError (''memory service HTTP '' @ py_str_nat (nat status)) (Some status)) else Inr body)"

definition execute :: "'v :: linordered_field http_reply \<Rightarrow> memory_http_error + 'v memory_hit list" where
  "execute reply = sum_bind (send reply) (\<lambda>body.
     sum_bind (results_list body) (\<lambda>xs. sum_mapM hit_from_item xs))"

section \<open>The directive client\<close>

text \<open>What \<open>GET\<close> on the directive key gives.\<close>

datatype 'v redis_reply = Redis_failed | Redis_missing | Redis_not_utf8 | Redis_not_json | Redis_json "'v json"

datatype lookup_error = DirectiveLookupError string

definition DEFAULT_INJECTION_MODE :: string where "DEFAULT_INJECTION_MODE = ''system_first''"
definition KNOWN_INJECTION_MODES :: "string list" where
  "KNOWN_INJECTION_MODES = [''system_first'', ''system_append'', ''user_prepend'']"

definition normalize_injection_mode :: "string \<Rightarrow> string" where
  "normalize_injection_mode raw = (let mode = (if py_strip raw = [] then DEFAULT_INJECTION_MODE else py_strip raw) in
     if mode \<notin> set KNOWN_INJECTION_MODES then DEFAULT_INJECTION_MODE else mode)"

definition optional_version_id :: "'v json \<Rightarrow> lookup_error + string option" where
  "optional_version_id v = (case v of
     JNull \<Rightarrow> Inr None
   | JStr s \<Rightarrow> if s = [] then Inr None else (case uuid_of s of
       Some u \<Rightarrow> Inr (Some (uuid_str u))
     | None \<Rightarrow> Inl (DirectiveLookupError ''directive version_id must be a UUID''))
   | _ \<Rightarrow> Inl (DirectiveLookupError ''directive version_id must be a string''))"

definition string_field :: "(string \<times> 'v json) list \<Rightarrow> string \<Rightarrow> lookup_error + string" where
  "string_field data key = (case json_get data key of
     JNull \<Rightarrow> Inr []
   | JStr s \<Rightarrow> Inr s
   | _ \<Rightarrow> Inl (DirectiveLookupError (''directive '' @ key @ '' must be a string'')))"

text \<open>Python's \<open>version != 1\<close>: the integer, the float and \<open>True\<close> are all equal to one.\<close>

definition require_envelope_version :: "(string \<times> 'v :: linordered_field json) list \<Rightarrow> lookup_error + unit" where
  "require_envelope_version data = sum_guard
     (case json_get data ''v'' of JInt i \<Rightarrow> i = 1 | JFloat x \<Rightarrow> x = 1 | JBool b \<Rightarrow> b | _ \<Rightarrow> False)
     (DirectiveLookupError ''unsupported directive envelope version'')"

definition payload_from_envelope :: "(string \<times> 'v json) list \<Rightarrow> lookup_error + resolved_directive" where
  "payload_from_envelope data =
     sum_bind (string_field data ''content'') (\<lambda>body.
     sum_bind (string_field data ''injection_mode'') (\<lambda>mode.
     sum_bind (optional_version_id (json_get data ''version_id'')) (\<lambda>version.
     Inr \<lparr>rd_content = body, rd_injection_mode = normalize_injection_mode mode, rd_version_id = version\<rparr>)))"

definition parse_envelope :: "'v :: linordered_field json \<Rightarrow> lookup_error + resolved_directive" where
  "parse_envelope doc = (case doc of
     JObj data \<Rightarrow> sum_bind (require_envelope_version data) (\<lambda>_. payload_from_envelope data)
   | _ \<Rightarrow> Inl (DirectiveLookupError ''directive envelope is not an object''))"

definition empty_payload :: resolved_directive where
  "empty_payload = \<lparr>rd_content = [], rd_injection_mode = DEFAULT_INJECTION_MODE, rd_version_id = None\<rparr>"

definition directive_lookup :: "'v :: linordered_field redis_reply \<Rightarrow> lookup_error + resolved_directive" where
  "directive_lookup reply = (case reply of
     Redis_failed \<Rightarrow> Inl (DirectiveLookupError ''directive redis get failed'')
   | Redis_missing \<Rightarrow> Inr empty_payload
   | Redis_not_utf8 \<Rightarrow> Inl (DirectiveLookupError ''directive envelope is not valid UTF-8'')
   | Redis_not_json \<Rightarrow> Inl (DirectiveLookupError ''directive envelope is not JSON'')
   | Redis_json doc \<Rightarrow> parse_envelope doc)"

section \<open>Branches\<close>

datatype branch_status = Branch_success | Branch_timeout | Branch_error

record branch_outcome =
  bo_status :: branch_status
  bo_detail :: "string option"

datatype source_name = Src_directive | Src_hot | Src_cold

record 'v branch_result =
  bx_name :: source_name
  bx_outcome :: branch_outcome
  bx_directive :: "resolved_directive option"
  bx_memories :: "'v memory_hit list"

record retrieval_request =
  rr_org_id :: nat
  rr_agent_id :: nat
  rr_query :: string
  rr_model :: string
  rr_recent_messages :: "message list"

definition MEMORY_TENANT_MISMATCH :: string where "MEMORY_TENANT_MISMATCH = ''memory_tenant_mismatch''"

text \<open>An awaited call: it answered, \<open>wait_for\<close> gave up, or it raised something unforeseen.\<close>

datatype 'r awaited = Answered 'r | Gave_up | Raised string

fun failed_branch :: "source_name \<Rightarrow> branch_status \<Rightarrow> string \<Rightarrow> 'v branch_result" where
  "failed_branch name status detail =
     \<lparr>bx_name = name, bx_outcome = \<lparr>bo_status = status, bo_detail = Some detail\<rparr>, bx_directive = None, bx_memories = []\<rparr>"

definition directive_branch :: "'v :: linordered_field redis_reply awaited \<Rightarrow> 'v branch_result" where
  "directive_branch reply = (case reply of
     Gave_up \<Rightarrow> failed_branch Src_directive Branch_timeout ''directive_timeout''
   | Raised exc \<Rightarrow> failed_branch Src_directive Branch_error exc
   | Answered r \<Rightarrow> (case directive_lookup r of
       Inl (DirectiveLookupError msg) \<Rightarrow> failed_branch Src_directive Branch_error msg
     | Inr resolved \<Rightarrow> \<lparr>bx_name = Src_directive, bx_outcome = \<lparr>bo_status = Branch_success, bo_detail = None\<rparr>,
         bx_directive = (if rd_content resolved \<noteq> [] then Some resolved else None), bx_memories = []\<rparr>))"

definition foreign_hit :: "'v memory_hit list \<Rightarrow> retrieval_request \<Rightarrow> 'v memory_hit option" where
  "foreign_hit hits req =
     find (\<lambda>h. mh_org_id h \<noteq> uuid_str (rr_org_id req) \<or> mh_agent_id h \<noteq> uuid_str (rr_agent_id req)) hits"

definition success_memories :: "source_name \<Rightarrow> 'v memory_hit list \<Rightarrow> retrieval_request \<Rightarrow> 'v branch_result" where
  "success_memories name hits req = (case foreign_hit hits req of
     Some _ \<Rightarrow> failed_branch name Branch_error MEMORY_TENANT_MISMATCH
   | None \<Rightarrow> \<lparr>bx_name = name, bx_outcome = \<lparr>bo_status = Branch_success, bo_detail = None\<rparr>,
       bx_directive = None, bx_memories = hits\<rparr>)"

definition source_text :: "source_name \<Rightarrow> string" where
  "source_text name = (case name of Src_directive \<Rightarrow> ''directive'' | Src_hot \<Rightarrow> ''hot'' | Src_cold \<Rightarrow> ''cold'')"

definition memory_branch ::
  "source_name \<Rightarrow> retrieval_request \<Rightarrow> 'v :: linordered_field http_reply awaited \<Rightarrow> 'v branch_result" where
  "memory_branch name req reply = (case reply of
     Gave_up \<Rightarrow> failed_branch name Branch_timeout (source_text name @ ''_timeout'')
   | Raised exc \<Rightarrow> failed_branch name Branch_error exc
   | Answered r \<Rightarrow> (case execute r of
       Inl (MemoryHttpTimeout _) \<Rightarrow> failed_branch name Branch_timeout (source_text name @ ''_http_timeout'')
     | Inl (MemoryHttpError msg _) \<Rightarrow> failed_branch name Branch_error msg
     | Inl (OtherRaised exc) \<Rightarrow> failed_branch name Branch_error exc
     | Inr hits \<Rightarrow> success_memories name hits req))"

section \<open>Fan-out and merge\<close>

text \<open>A task at the outer deadline: finished with a value or an exception, or cancelled.\<close>

datatype 'r task = Task_done 'r | Task_failed string | Task_cancelled

definition result_for_task :: "source_name \<Rightarrow> 'v branch_result task \<Rightarrow> 'v branch_result" where
  "result_for_task name t = (case t of
     Task_done r \<Rightarrow> r
   | Task_failed exc \<Rightarrow> failed_branch name Branch_error exc
   | Task_cancelled \<Rightarrow> failed_branch name Branch_timeout ''outer_deadline'')"

record 'v retrieval_result =
  rs_directive :: "resolved_directive option"
  rs_directive_outcome :: branch_outcome
  rs_hot_memories :: "'v memory_hit list"
  rs_hot_outcome :: branch_outcome
  rs_cold_memories :: "'v memory_hit list"
  rs_cold_outcome :: branch_outcome
  rs_recent_messages :: "message list"
  rs_history_tokens :: int
  rs_sources_available :: "source_name set"

definition merge_results ::
  "'v branch_result \<Rightarrow> 'v branch_result \<Rightarrow> 'v branch_result \<Rightarrow> message list \<Rightarrow> int \<Rightarrow> 'v retrieval_result" where
  "merge_results directive_b hot_b cold_b msgs history_tokens =
     \<lparr>rs_directive = bx_directive directive_b, rs_directive_outcome = bx_outcome directive_b,
      rs_hot_memories = bx_memories hot_b, rs_hot_outcome = bx_outcome hot_b,
      rs_cold_memories = bx_memories cold_b, rs_cold_outcome = bx_outcome cold_b,
      rs_recent_messages = msgs, rs_history_tokens = history_tokens,
      rs_sources_available =
        (if bo_status (bx_outcome directive_b) = Branch_success then {Src_directive} else {})
        \<union> (if bo_status (bx_outcome hot_b) = Branch_success then {Src_hot} else {})
        \<union> (if bo_status (bx_outcome cold_b) = Branch_success then {Src_cold} else {})\<rparr>"

text \<open>The environment of one retrieval: the three replies and which branches beat the deadline.\<close>

record 'v retrieval_env =
  re_directive :: "'v redis_reply awaited"
  re_hot :: "'v http_reply awaited"
  re_cold :: "'v http_reply awaited"
  re_done :: "source_name \<Rightarrow> bool"

definition gather_branches ::
  "'v :: linordered_field retrieval_env \<Rightarrow> retrieval_request \<Rightarrow> 'v branch_result \<times> 'v branch_result \<times> 'v branch_result" where
  "gather_branches env req =
     (let task = (\<lambda>name r. result_for_task name (if re_done env name then Task_done r else Task_cancelled)) in
      (task Src_directive (directive_branch (re_directive env)),
       task Src_hot (memory_branch Src_hot req (re_hot env)),
       task Src_cold (memory_branch Src_cold req (re_cold env))))"

definition retrieve ::
  "capability_catalog \<Rightarrow> 'v :: linordered_field retrieval_env \<Rightarrow> retrieval_request \<Rightarrow> py_error + 'v retrieval_result" where
  "retrieve cat env req =
     sum_bind (calculate cat \<lparr>bq_model = rr_model req, bq_messages = rr_recent_messages req, bq_directive = [],
       bq_tool_schemas = [], bq_nonce_bytes = 16\<rparr>) (\<lambda>budget.
     let (d, hot, cold) = gather_branches env req
     in Inr (merge_results d hot cold (rr_recent_messages req) (tb_messages_tokens budget)))"


section \<open>Isolation\<close>

definition own_hit :: "retrieval_request \<Rightarrow> 'v memory_hit \<Rightarrow> bool" where
  "own_hit req h \<longleftrightarrow> mh_org_id h = uuid_str (rr_org_id req) \<and> mh_agent_id h = uuid_str (rr_agent_id req)"

lemma foreign_hit_None: "foreign_hit hits req = None \<longleftrightarrow> (\<forall>h\<in>set hits. own_hit req h)"
  by (auto simp: foreign_hit_def find_None_iff own_hit_def)

lemma memory_branch_cases:
  "bo_status (bx_outcome (memory_branch name req reply)) = Branch_success \<and>
     (\<exists>r. reply = Answered r \<and> execute r = Inr (bx_memories (memory_branch name req reply))) \<and>
     (\<forall>h\<in>set (bx_memories (memory_branch name req reply)). own_hit req h)
   \<or> bo_status (bx_outcome (memory_branch name req reply)) \<noteq> Branch_success \<and> bx_memories (memory_branch name req reply) = []"
  by (auto simp: memory_branch_def success_memories_def foreign_hit_None
      split: awaited.split sum.split memory_http_error.split option.split)

lemma foreign_page_branch:
  "execute reply = Inr hits \<Longrightarrow> h \<in> set hits \<Longrightarrow> \<not> own_hit req h \<Longrightarrow>
   memory_branch name req (Answered reply) = failed_branch name Branch_error MEMORY_TENANT_MISMATCH"
  using foreign_hit_None [of hits req] by (auto simp: memory_branch_def success_memories_def)

lemma hit_from_item_Inr:
  "hit_from_item item = Inr h \<Longrightarrow> 0 \<le> mh_confidence h \<and> mh_confidence h \<le> 1 \<and> 1 \<le> mh_rank h"
  by (auto simp: hit_from_item_def require_unit_float_def require_positive_int_def
      split: json.splits if_splits)

lemma execute_Inr:
  assumes "execute r = Inr hits" "h \<in> set hits"
  shows "0 \<le> mh_confidence h \<and> mh_confidence h \<le> 1 \<and> 1 \<le> mh_rank h"
proof -
  obtain xs where "sum_mapM hit_from_item xs = Inr hits" using assms(1) by (auto simp: execute_def)
  then have "list_all2 (\<lambda>x y. hit_from_item x = Inr y) xs hits" by (simp add: sum_mapM_all2)
  then obtain x where "hit_from_item x = Inr h" using assms(2) by (auto simp: list_all2_conv_all_nth in_set_conv_nth)
  then show ?thesis by (rule hit_from_item_Inr)
qed

definition usable_branch :: "retrieval_request \<Rightarrow> branch_outcome \<Rightarrow> 'v :: linordered_field memory_hit list \<Rightarrow> bool" where
  "usable_branch req out hits \<longleftrightarrow> (bo_status out \<noteq> Branch_success \<longrightarrow> hits = []) \<and>
     (\<forall>h\<in>set hits. own_hit req h \<and> 0 \<le> mh_confidence h \<and> mh_confidence h \<le> 1 \<and> 1 \<le> mh_rank h)"

lemma memory_task_usable:
  "usable_branch req (bx_outcome (result_for_task name (if b then Task_done (memory_branch src req reply) else Task_cancelled)))
     (bx_memories (result_for_task name (if b then Task_done (memory_branch src req reply) else Task_cancelled)))"
proof (cases b)
  case True
  then show ?thesis
    using memory_branch_cases [of src req reply] execute_Inr
    by (fastforce simp: usable_branch_def result_for_task_def)
qed (simp add: usable_branch_def result_for_task_def)

lemma retrieve_Inr:
  assumes "retrieve cat env req = Inr r"
  shows "usable_branch req (rs_hot_outcome r) (rs_hot_memories r)"
    "usable_branch req (rs_cold_outcome r) (rs_cold_memories r)"
    "rs_recent_messages r = rr_recent_messages req"
  using assms
  by (auto simp: retrieve_def gather_branches_def merge_results_def Let_def simp del: failed_branch.simps
      intro!: memory_task_usable split del: if_split)

text \<open>
  C31. Retrieval is fail-open and isolated. For a known model it returns whatever the network does,
  every memory it returns belongs to the requesting organisation and agent, a branch that did not
  succeed contributes none, and a single foreign hit in an answer in time discards the whole
  branch with the tenant-mismatch error.
\<close>

theorem retrieval_isolates_tenant:
  assumes "for_model cat (rr_model req) = Inr cap" and "family_policy cat (cap_tokenizer_family cap) = Inr policy"
    and "supported policy"
  shows "\<exists>r. retrieve cat env req = Inr r \<and>
    (\<forall>h\<in>set (rs_hot_memories r) \<union> set (rs_cold_memories r). own_hit req h) \<and>
    (bo_status (rs_hot_outcome r) \<noteq> Branch_success \<longrightarrow> rs_hot_memories r = []) \<and>
    (bo_status (rs_cold_outcome r) \<noteq> Branch_success \<longrightarrow> rs_cold_memories r = []) \<and>
    (\<forall>reply hits h. re_hot env = Answered reply \<and> re_done env Src_hot \<and> execute reply = Inr hits \<and>
       h \<in> set hits \<and> \<not> own_hit req h \<longrightarrow>
       rs_hot_outcome r = \<lparr>bo_status = Branch_error, bo_detail = Some MEMORY_TENANT_MISMATCH\<rparr> \<and> rs_hot_memories r = []) \<and>
    (\<forall>reply hits h. re_cold env = Answered reply \<and> re_done env Src_cold \<and> execute reply = Inr hits \<and>
       h \<in> set hits \<and> \<not> own_hit req h \<longrightarrow>
       rs_cold_outcome r = \<lparr>bo_status = Branch_error, bo_detail = Some MEMORY_TENANT_MISMATCH\<rparr> \<and> rs_cold_memories r = [])"
proof -
  obtain b where b: "calculate cat \<lparr>bq_model = rr_model req, bq_messages = rr_recent_messages req, bq_directive = [],
      bq_tool_schemas = [], bq_nonce_bytes = 16\<rparr> = Inr b"
    using calculate_total [OF _ assms(2,3)] assms(1) by fastforce
  then obtain r where r: "retrieve cat env req = Inr r"
    by (cases "gather_branches env req") (auto simp: retrieve_def)
  from b r have foreign: "\<forall>reply hits h. re_hot env = Answered reply \<and> re_done env Src_hot \<and> execute reply = Inr hits \<and>
      h \<in> set hits \<and> \<not> own_hit req h \<longrightarrow>
      rs_hot_outcome r = \<lparr>bo_status = Branch_error, bo_detail = Some MEMORY_TENANT_MISMATCH\<rparr> \<and> rs_hot_memories r = []"
    "\<forall>reply hits h. re_cold env = Answered reply \<and> re_done env Src_cold \<and> execute reply = Inr hits \<and>
      h \<in> set hits \<and> \<not> own_hit req h \<longrightarrow>
      rs_cold_outcome r = \<lparr>bo_status = Branch_error, bo_detail = Some MEMORY_TENANT_MISMATCH\<rparr> \<and> rs_cold_memories r = []"
    by (auto simp: retrieve_def gather_branches_def merge_results_def result_for_task_def Let_def foreign_page_branch)
  from retrieve_Inr [OF r]
  have "\<forall>h\<in>set (rs_hot_memories r) \<union> set (rs_cold_memories r). own_hit req h"
    "bo_status (rs_hot_outcome r) \<noteq> Branch_success \<longrightarrow> rs_hot_memories r = []"
    "bo_status (rs_cold_outcome r) \<noteq> Branch_success \<longrightarrow> rs_cold_memories r = []"
    by (auto simp: usable_branch_def)
  with r foreign show ?thesis by (intro exI [of _ r] conjI)
qed

text \<open>A hot page with a memory of another organisation, an in-time cold page without hits.\<close>

definition sample_item :: "nat \<Rightarrow> rat json" where
  "sample_item org = JObj [(''memory'', JObj [(''id'', JStr (uuid_str 5)), (''org_id'', JStr (uuid_str org)),
     (''agent_id'', JStr (uuid_str 2)), (''content'', JStr ''c''), (''category'', JStr ''factual''),
     (''confidence'', JInt 1)]), (''similarity'', JInt 1), (''rank'', JInt 1), (''source'', JStr ''hot'')]"

definition sample_page :: "rat json list \<Rightarrow> rat http_reply" where
  "sample_page items = Http_response 200 (Some (JObj [(''data'', JObj [(''results'', JList items)])]))"

definition sample_env :: "nat \<Rightarrow> rat retrieval_env" where
  "sample_env org = \<lparr>re_directive = Answered Redis_missing, re_hot = Answered (sample_page [sample_item org]),
     re_cold = Answered (sample_page []), re_done = (\<lambda>_. True)\<rparr>"

definition sample_retrieval :: retrieval_request where
  "sample_retrieval = \<lparr>rr_org_id = 1, rr_agent_id = 2, rr_query = [], rr_model = ''m'', rr_recent_messages = []\<rparr>"

lemma sample_execute:
  "org < 2 ^ 128 \<Longrightarrow> execute (sample_page [sample_item org]) = Inr [\<lparr>mh_memory_id = uuid_str 5, mh_org_id = uuid_str org,
     mh_agent_id = uuid_str 2, mh_content = ''c'', mh_category = ''factual'', mh_confidence = 1, mh_similarity = 1,
     mh_rank = 1, mh_source = ''hot'', mh_conflict_groups = []\<rparr>]"
  by (simp add: execute_def send_def sample_page_def results_list_def json_object_def json_get_def sample_item_def
      hit_from_item_def require_uuid_str_def require_str_def uuid_of_str require_unit_float_def
      require_finite_float_def float_overflows_def require_positive_int_def conflict_groups_def)

lemma demo_supported: "supported demo_policy"
  by (simp add: supported_def demo_policy_def)

theorem retrieval_isolates_tenant_witness:
  "\<exists>r. retrieve demo_catalog (sample_env 3) sample_retrieval = Inr r \<and> rs_hot_memories r = [] \<and>
     bo_detail (rs_hot_outcome r) = Some MEMORY_TENANT_MISMATCH"
proof -
  have "for_model demo_catalog (rr_model sample_retrieval) = Inr demo_model"
    by (simp add: for_model_def demo_catalog_def sample_retrieval_def py_strip_def py_lstrip_def py_isspace_def)
  from retrieval_isolates_tenant [OF this demo_catalog_lookup(2), of "sample_env 3"]
  obtain r where r: "retrieve demo_catalog (sample_env 3) sample_retrieval = Inr r"
    and foreign: "\<forall>reply hits h. re_hot (sample_env 3) = Answered reply \<and> re_done (sample_env 3) Src_hot \<and>
      execute reply = Inr hits \<and> h \<in> set hits \<and> \<not> own_hit sample_retrieval h \<longrightarrow>
      rs_hot_outcome r = \<lparr>bo_status = Branch_error, bo_detail = Some MEMORY_TENANT_MISMATCH\<rparr> \<and> rs_hot_memories r = []"
    using demo_supported by blast
  have "uuid_str 3 \<noteq> uuid_str 1"
    using uuid_of_str [of 3] uuid_of_str [of 1] by auto
  then show ?thesis
    using r foreign sample_execute [of 3] by (fastforce simp: sample_env_def sample_retrieval_def own_hit_def)
qed

end
