(* ===== verification/Packer_Guarantees.thy ===== *)
theory Packer_Guarantees
  imports Context_Packer "HOL-Library.Multiset"
begin

text \<open>
  What the packer guarantees: the selection never exceeds the token budget and the final check
  never fires, for any score type; the table's selection is an optimal 0/1 knapsack and repair
  never loses value, for exact scores.
\<close>

section \<open>Selections within the budget\<close>

definition fits :: "nat \<Rightarrow> int list \<Rightarrow> int \<Rightarrow> nat list \<Rightarrow> bool" where
  "fits n tokens budget sel \<longleftrightarrow> distinct sel \<and> set sel \<subseteq> {..<n} \<and> used_tokens tokens sel \<le> budget"

lemma used_tokens_simps [simp]:
  "used_tokens tokens [] = 0" "used_tokens tokens (i # sel) = tokens ! i + used_tokens tokens sel"
  "used_tokens tokens (xs @ ys) = used_tokens tokens xs + used_tokens tokens ys"
  by (simp_all add: used_tokens_def)

lemma refill_loop_fits:
  assumes "fits n tokens budget out" and "set order \<subseteq> {..<n}" and "used = used_tokens tokens out"
  shows "fits n tokens budget (refill_loop tokens budget exclude order out used) \<and>
    (\<exists>more. refill_loop tokens budget exclude order out used = out @ more)"
  using assms
proof (induction order arbitrary: out used)
  case (Cons idx order)
  show ?case
  proof (cases "idx \<in> set out \<or> idx \<in> exclude \<or> budget - used < tokens ! idx")
    case True
    with Cons.IH [of out used] Cons.prems show ?thesis by auto
  next
    case False
    then have "fits n tokens budget (out @ [idx])" using Cons.prems by (auto simp: fits_def)
    with Cons.IH [of "out @ [idx]" "used + tokens ! idx"] Cons.prems False show ?thesis by auto
  qed
qed simp

lemma greedy_refill_fits:
  assumes "fits (length candidates) tokens budget chosen"
  shows "fits (length candidates) tokens budget (greedy_refill chosen candidates tokens vals budget exclude)"
    and "\<exists>more. greedy_refill chosen candidates tokens vals budget exclude = chosen @ more"
  using refill_loop_fits [OF assms _ refl, of "sort_key (\<lambda>i. (- (vals ! i), memory_id (candidates ! i)))
      [0..<length candidates]" exclude]
  unfolding greedy_refill_def by (simp_all add: subset_iff)

lemma set_pop_at: "set (pop_at j xs) \<subseteq> set xs"
  unfolding pop_at_def by (auto dest: in_set_takeD in_set_dropD)

lemma distinct_pop_at:
  assumes "distinct xs"
  shows "distinct (pop_at j xs)"
proof -
  have "set (take j xs) \<inter> set (drop (Suc j) xs) = {}"
    using set_take_disj_set_drop_if_distinct [OF assms, of j "Suc j"] by simp
  with assms show ?thesis by (simp add: pop_at_def)
qed

lemma drop_over_budget_loop_fits:
  assumes "distinct chosen" and "set chosen \<subseteq> {..<n}" and "0 \<le> budget"
  shows "fits n tokens budget (fst (drop_over_budget_loop candidates tokens vals budget chosen dropped))"
  using assms
proof (induction candidates tokens vals budget chosen dropped rule: drop_over_budget_loop.induct)
  case (1 candidates tokens vals budget chosen dropped)
  show ?case
  proof (cases "chosen \<noteq> [] \<and> budget < used_tokens tokens chosen")
    case True
    let ?at = "argmin (\<lambda>j. (vals ! (chosen ! j), memory_id (candidates ! (chosen ! j)))) (length chosen)"
    have "fits n tokens budget (fst (drop_over_budget_loop candidates tokens vals budget (pop_at ?at chosen) True))"
      using 1(2-4) set_pop_at [of ?at chosen]
      by (intro 1(1) [OF True refl]) (auto intro: distinct_pop_at)
    with True show ?thesis by (subst drop_over_budget_loop.simps) (simp add: Let_def)
  next
    case False
    with 1(2-4) show ?thesis by (subst drop_over_budget_loop.simps) (auto simp: fits_def)
  qed
qed

lemma drop_over_budget_none:
  "used_tokens tokens sel \<le> budget \<Longrightarrow> drop_over_budget candidates tokens vals budget sel = (sel, False)"
  unfolding drop_over_budget_def by (subst drop_over_budget_loop.simps) simp

lemma used_tokens_filter:
  assumes "\<And>i. i \<in> set sel \<Longrightarrow> 0 \<le> tokens ! i"
  shows "used_tokens tokens (filter P sel) \<le> used_tokens tokens sel"
  using assms by (induction sel) (auto intro: add_increasing add_left_mono)

lemma trial_fits:
  assumes "fits (length candidates) tokens budget best" and "\<forall>i < length candidates. 0 \<le> tokens ! i"
  shows "fits (length candidates) tokens budget
    (greedy_refill (filter (\<lambda>i. i \<noteq> d) best) candidates tokens vals budget {d})"
proof (rule greedy_refill_fits(1))
  have "used_tokens tokens (filter (\<lambda>i. i \<noteq> d) best) \<le> used_tokens tokens best"
    using assms by (intro used_tokens_filter) (auto simp: fits_def)
  with assms(1) show "fits (length candidates) tokens budget (filter (\<lambda>i. i \<noteq> d) best)"
    by (auto simp: fits_def)
qed

lemma local_improve_loop_fits:
  assumes "fits (length candidates) tokens budget best" and "\<forall>i < length candidates. 0 \<le> tokens ! i"
  shows "fits (length candidates) tokens budget
    (local_improve_loop candidates tokens vals budget drops best best_value)"
  using assms(1)
proof (induction drops arbitrary: best best_value)
  case (Cons d drops)
  with trial_fits [OF _ assms(2)] show ?case by (auto simp: Let_def)
qed simp

lemma refill_loop_indices: "set (refill_loop tokens budget exclude order out used) \<subseteq> set out \<union> set order"
proof (induction order arbitrary: out used)
  case (Cons idx order)
  show ?case using Cons.IH [of out used] Cons.IH [of "out @ [idx]" "used + tokens ! idx"] by auto
qed simp

lemma local_improve_indices:
  assumes "set sel \<subseteq> {..<length candidates}"
  shows "set (local_improve_loop candidates tokens vals budget drops sel sel_value) \<subseteq> {..<length candidates}"
  using assms
proof (induction drops arbitrary: sel sel_value)
  case (Cons d drops)
  have "set (greedy_refill (filter (\<lambda>i. i \<noteq> d) sel) candidates tokens vals budget {d}) \<subseteq> {..<length candidates}"
    using refill_loop_indices [of tokens budget "{d}" "sort_key (\<lambda>i. (- (vals ! i), memory_id (candidates ! i)))
        [0..<length candidates]" "filter (\<lambda>i. i \<noteq> d) sel"] Cons.prems
    unfolding greedy_refill_def by fastforce
  with Cons show ?case by (simp add: Let_def)
qed simp

lemma repair_fits:
  assumes "distinct sel" and "set sel \<subseteq> {..<length candidates}" and "0 \<le> budget"
    and "\<forall>i < length candidates. 0 \<le> tokens ! i"
  shows "fits (length candidates) tokens budget (repair_exact_budget candidates tokens vals budget sel)"
proof -
  obtain chosen dropped where d: "drop_over_budget candidates tokens vals budget sel = (chosen, dropped)"
    by fastforce
  have "fits (length candidates) tokens budget chosen"
    using drop_over_budget_loop_fits [OF assms(1-3), of tokens candidates vals False] d
    by (simp add: drop_over_budget_def)
  then have "fits (length candidates) tokens budget (greedy_refill chosen candidates tokens vals budget {})"
    by (rule greedy_refill_fits(1))
  then show ?thesis using d local_improve_loop_fits [OF _ assms(4)]
    by (simp add: repair_exact_budget_def local_improve_selection_def Let_def)
qed

lemma greedy_loop_fits:
  assumes "fits n tokens budget sel" and "set order \<subseteq> {..<n}" and "distinct order"
    and "set order \<inter> set sel = {}" and "used = used_tokens tokens sel"
  shows "fits n tokens budget (fst (greedy_loop tokens budget m order sel examined used skips))"
  using assms
proof (induction order arbitrary: sel examined used skips)
  case (Cons idx order)
  show ?case
  proof (cases "tokens ! idx \<le> budget - used")
    case True
    with Cons.prems have "fits n tokens budget (sel @ [idx])" by (auto simp: fits_def)
    with Cons.IH [of "sel @ [idx]" "used + tokens ! idx"] Cons.prems True show ?thesis
      by (simp add: Let_def)
  next
    case False
    with Cons.IH [of sel used] Cons.prems show ?thesis by (simp add: Let_def)
  qed
qed simp

lemma greedy_select_fits:
  "0 \<le> budget \<Longrightarrow> fits (length candidates) tokens budget (fst (greedy_select cfg candidates tokens budget))"
  unfolding greedy_select_def by (rule greedy_loop_fits) (auto simp: fits_def)

section \<open>The table\<close>

text \<open>The best value of a capacity, with the items listed last first.\<close>

fun best :: "(nat \<times> 'v :: {linorder, plus, zero}) list \<Rightarrow> nat \<Rightarrow> 'v" where
  "best [] c = 0"
| "best ((w, v) # items) c =
     (if w \<le> c \<and> best items c < best items (c - w) + v then best items (c - w) + v else best items c)"

fun keep_rows :: "nat \<Rightarrow> (nat \<times> 'v :: {linorder, plus, zero}) list \<Rightarrow> (nat \<times> bool list) list" where
  "keep_rows b [] = []"
| "keep_rows b ((w, v) # items) =
     (w, map (\<lambda>c. w \<le> c \<and> best items c < best items (c - w) + v) [0..<Suc b]) # keep_rows b items"

fun picks :: "(nat \<times> 'v :: {linorder, plus, zero}) list \<Rightarrow> nat \<Rightarrow> nat list" where
  "picks [] c = []"
| "picks ((w, v) # items) c =
     (if w \<le> c \<and> best items c < best items (c - w) + v then length items # picks items (c - w)
      else picks items c)"

lemma nth_prev: "c \<le> b \<Longrightarrow> map f [0..<Suc b] ! c = f c"
  by (simp del: upt_Suc)

lemma dp_row_best:
  "dp_row (map (best items) [0..<Suc b]) w v b =
     (map (best ((w, v) # items)) [0..<Suc b],
      map (\<lambda>c. w \<le> c \<and> best items c < best items (c - w) + v) [0..<Suc b])"
proof -
  let ?prev = "map (best items) [0..<Suc b]"
  consider (zero) "w = 0" | (big) "b < w" "w \<noteq> 0" | (fit) "0 < w" "w \<le> b" by linarith
  then show ?thesis
  proof cases
    case zero
    then show ?thesis unfolding dp_row_def by (auto simp: Let_def simp del: upt_Suc intro: nth_equalityI)
  next
    case big
    then have "\<not> w \<le> c" if "c < Suc b" for c using that by simp
    with big show ?thesis unfolding dp_row_def
      by (auto simp: nth_Cons' simp del: upt_Suc intro!: nth_equalityI split: if_splits)
  next
    case fit
    have len: "length (take (b + 1 - w) ?prev) = Suc b - w" "length (drop w ?prev) = Suc b - w"
      using fit by simp_all
    show ?thesis unfolding dp_row_def using fit len
      by (auto simp: Let_def nth_append not_less simp del: upt_Suc intro!: nth_equalityI split: if_splits)
  qed
qed

lemma dp_fill_best:
  "dp_fill (map (best items) [0..<Suc b]) b todo (keep_rows b items) =
     (map (best (rev todo @ items)) [0..<Suc b], keep_rows b (rev todo @ items))"
proof (induction todo arbitrary: items)
  case (Cons x todo)
  obtain w v where x: "x = (w, v)" by fastforce
  have "dp_fill (map (best items) [0..<Suc b]) b (x # todo) (keep_rows b items) =
      dp_fill (map (best (x # items)) [0..<Suc b]) b todo (keep_rows b (x # items))"
    unfolding x dp_fill.simps dp_row_best by simp
  with Cons.IH [of "x # items"] show ?case by simp
qed simp

lemma length_keep_rows [simp]: "length (keep_rows b items) = length items"
  by (induction items) auto

lemma backtrack_picks:
  "c \<le> b \<Longrightarrow> dp_backtrack_loop (keep_rows b items) c acc = acc @ picks items c"
proof (induction items arbitrary: c acc)
  case (Cons x items)
  obtain w v where x: "x = (w, v)" by fastforce
  have row: "map (\<lambda>c. w \<le> c \<and> best items c < best items (c - w) + v) [0..<Suc b] ! c \<longleftrightarrow>
      w \<le> c \<and> best items c < best items (c - w) + v"
    using Cons.prems by (subst nth_prev) simp_all
  show ?case unfolding x keep_rows.simps dp_backtrack_loop.simps row picks.simps
    using Cons.IH [of c acc] Cons.IH [of "c - w" "acc @ [length items]"] Cons.prems by auto
qed simp

lemma best_Nil: "best [] = (\<lambda>c. 0)"
  by auto

lemma dp_select_picks:
  "dp_select weights vals b = rev (picks (rev (zip weights vals)) b)"
proof -
  have "dp_fill (replicate (b + 1) 0) b (zip weights vals) [] =
      (map (best (rev (zip weights vals))) [0..<Suc b], keep_rows b (rev (zip weights vals)))"
    using dp_fill_best [of "[]" b "zip weights vals"]
    by (simp add: best_Nil map_replicate_const del: upt_Suc)
  then show ?thesis unfolding dp_select_def dp_backtrack_def
    using backtrack_picks [of b b "rev (zip weights vals)" "[]"] by (simp del: upt_Suc)
qed

lemma picks_below: "i \<in> set (picks items c) \<Longrightarrow> i < length items"
proof (induction items arbitrary: c)
  case (Cons x items)
  obtain w v where x: "x = (w, v)" by fastforce
  have "i = length items \<or> (\<exists>c'. i \<in> set (picks items c'))"
    using Cons.prems unfolding x by (auto split: if_splits)
  with Cons.IH show ?case by (auto intro: less_SucI)
qed simp

lemma distinct_picks: "distinct (picks items c)"
  by (induction items arbitrary: c) (auto dest: picks_below)

lemma dp_select_indices:
  "distinct (dp_select weights vals b)" "set (dp_select weights vals b) \<subseteq> {..<length weights}"
  by (auto simp: dp_select_picks distinct_picks dest!: picks_below)

section \<open>Optimality of the table\<close>

lemma py_sum_list: "py_sum (xs :: 'v :: comm_monoid_add list) = sum_list xs"
proof -
  have "foldl (+) a xs = a + sum_list xs" for a :: 'v
    by (induction xs arbitrary: a) (simp_all add: add.assoc)
  then show ?thesis by (simp add: py_sum_def)
qed

lemma selection_value_sum: "distinct sel \<Longrightarrow> selection_value vals sel = (\<Sum>i \<in> set sel. (vals ! i :: 'v :: comm_monoid_add))"
  by (simp add: selection_value_def py_sum_list sum_list_distinct_conv_sum_set)

lemma picks_value:
  fixes items :: "(nat \<times> 'v :: linordered_ab_group_add) list"
  shows "(\<Sum>i \<in> set (picks items c). snd (rev items ! i)) = best items c \<and>
    (\<Sum>i \<in> set (picks items c). fst (rev items ! i)) \<le> c"
proof (induction items arbitrary: c)
  case (Cons x items)
  obtain w v where x: "x = (w, v)" by fastforce
  have tail: "(\<Sum>i \<in> set (picks items c'). f (rev (x # items) ! i)) = (\<Sum>i \<in> set (picks items c'). f (rev items ! i))"
    for f :: "nat \<times> 'v \<Rightarrow> 'b :: comm_monoid_add" and c'
    by (intro sum.cong refl) (auto simp: nth_append dest: picks_below)
  have new: "rev (x # items) ! length items = x" by (simp add: nth_append)
  have fresh: "length items \<notin> set (picks items c')" for c' using picks_below by blast
  show ?case
  proof (cases "w \<le> c \<and> best items c < best items (c - w) + v")
    case True
    then have p: "picks (x # items) c = length items # picks items (c - w)" by (simp add: x)
    have "(\<Sum>i \<in> set (picks (x # items) c). f (rev (x # items) ! i)) =
        f x + (\<Sum>i \<in> set (picks items (c - w)). f (rev items ! i))"
      for f :: "nat \<times> 'v \<Rightarrow> 'b :: comm_monoid_add"
      by (simp only: p list.set sum.insert [OF finite_set fresh] new tail)
    note split = this [of snd] this [of fst]
    show ?thesis unfolding split using True Cons.IH [of "c - w"] by (auto simp: x add.commute)
  next
    case False
    then have p: "picks (x # items) c = picks items c" and b: "best (x # items) c = best items c"
      unfolding x by auto
    show ?thesis unfolding p b tail by (rule Cons.IH)
  qed
qed simp

lemma best_upper:
  fixes items :: "(nat \<times> 'v :: linordered_ab_group_add) list"
  assumes "S \<subseteq> {..<length items}" and "(\<Sum>i \<in> S. fst (rev items ! i)) \<le> c"
  shows "(\<Sum>i \<in> S. snd (rev items ! i)) \<le> best items c"
  using assms
proof (induction items arbitrary: c S)
  case (Cons x items)
  obtain w v where x: "x = (w, v)" by fastforce
  let ?S = "S - {length items}"
  have sub: "?S \<subseteq> {..<length items}" using Cons.prems(1) by force
  have fin: "finite S" using Cons.prems(1) finite_subset by blast
  have tail: "(\<Sum>i \<in> ?S. f (rev (x # items) ! i)) = (\<Sum>i \<in> ?S. f (rev items ! i))"
    for f :: "nat \<times> 'v \<Rightarrow> 'b :: comm_monoid_add"
    using sub by (intro sum.cong refl) (auto simp: nth_append)
  have new: "rev (x # items) ! length items = x" by (simp add: nth_append)
  have skip: "best items c \<le> best (x # items) c" by (auto simp: x)
  show ?case
  proof (cases "length items \<in> S")
    case True
    have w: "w + (\<Sum>i \<in> ?S. fst (rev items ! i)) \<le> c"
      using Cons.prems(2) sum.remove [OF fin True, of "\<lambda>i. fst (rev (x # items) ! i)"]
      unfolding tail new by (simp add: x)
    then have "(\<Sum>i \<in> ?S. snd (rev items ! i)) \<le> best items (c - w)" by (intro Cons.IH sub) simp
    then have "v + (\<Sum>i \<in> ?S. snd (rev items ! i)) \<le> v + best items (c - w)" by (rule add_left_mono)
    also have "\<dots> = best items (c - w) + v" by (rule add.commute)
    also have "\<dots> \<le> best (x # items) c" using w by (auto simp: x not_less)
    finally show ?thesis
      using sum.remove [OF fin True, of "\<lambda>i. snd (rev (x # items) ! i)"]
      unfolding tail new by (simp only: x snd_conv)
  next
    case False
    then have S: "?S = S" by auto
    have "(\<Sum>i \<in> S. snd (rev items ! i)) \<le> best items c"
      using Cons.prems(2) tail [of fst] sub unfolding S by (intro Cons.IH) simp_all
    with skip tail [of snd] show ?thesis unfolding S by simp
  qed
qed simp

lemma dp_select_optimal:
  fixes vals :: "'v :: linordered_ab_group_add list"
  assumes "length vals = length weights"
  shows "(\<Sum>i \<in> set (dp_select weights vals b). weights ! i) \<le> b"
    and "S \<subseteq> {..<length weights} \<Longrightarrow> (\<Sum>i \<in> S. weights ! i) \<le> b \<Longrightarrow>
      (\<Sum>i \<in> S. vals ! i) \<le> (\<Sum>i \<in> set (dp_select weights vals b). vals ! i)"
proof -
  let ?items = "rev (zip weights vals)"
  have nth: "(\<Sum>i \<in> S. f (rev ?items ! i)) = (\<Sum>i \<in> S. f (weights ! i, vals ! i))"
    if "S \<subseteq> {..<length weights}" for S and f :: "nat \<times> 'v \<Rightarrow> 'b :: comm_monoid_add"
    using that assms by (intro sum.cong refl) auto
  have sel: "set (dp_select weights vals b) = set (picks ?items b)" by (simp add: dp_select_picks)
  have sub: "set (picks ?items b) \<subseteq> {..<length weights}"
    using dp_select_indices(2) [of weights vals b] unfolding sel .
  from picks_value [of ?items b] show "(\<Sum>i \<in> set (dp_select weights vals b). weights ! i) \<le> b"
    unfolding sel nth [OF sub] by simp
  assume S: "S \<subseteq> {..<length weights}" and w: "(\<Sum>i \<in> S. weights ! i) \<le> b"
  have "(\<Sum>i \<in> S. snd (rev ?items ! i)) \<le> best ?items b"
    using S w assms by (intro best_upper) (simp_all only: nth [OF S], simp_all)
  then show "(\<Sum>i \<in> S. vals ! i) \<le> (\<Sum>i \<in> set (dp_select weights vals b). vals ! i)"
    using picks_value [of ?items b] unfolding sel nth [OF S] nth [OF sub] by simp
qed

section \<open>Repair does not lose value\<close>

lemma local_improve_value:
  fixes vals :: "'v :: linordered_ab_group_add list"
  assumes "sel_value = selection_value vals sel"
  shows "selection_value vals sel \<le>
    selection_value vals (local_improve_loop candidates tokens vals budget drops sel sel_value)"
  using assms
proof (induction drops arbitrary: sel sel_value)
  case (Cons d drops)
  let ?trial = "greedy_refill (filter (\<lambda>i. i \<noteq> d) sel) candidates tokens vals budget {d}"
  show ?case
  proof (cases "is_better_selection ?trial (selection_value vals ?trial) sel sel_value candidates")
    case True
    then have "selection_value vals sel \<le> selection_value vals ?trial"
      using Cons.prems by (auto simp: is_better_selection_def split: if_splits)
    also have "\<dots> \<le> selection_value vals (local_improve_loop candidates tokens vals budget drops ?trial
        (selection_value vals ?trial))" by (rule Cons.IH) simp
    finally show ?thesis using True by (simp add: Let_def)
  next
    case False
    with Cons.IH [OF Cons.prems] show ?thesis by (simp add: Let_def)
  qed
qed simp

lemma repair_value:
  fixes vals :: "'v :: linordered_ab_group_add list"
  assumes "fits (length candidates) tokens budget sel" and "length vals = length candidates"
    and "\<And>v. v \<in> set vals \<Longrightarrow> 0 \<le> v"
  shows "selection_value vals sel \<le> selection_value vals (repair_exact_budget candidates tokens vals budget sel)"
proof -
  let ?refilled = "greedy_refill sel candidates tokens vals budget {}"
  note ok = greedy_refill_fits [OF assms(1), of vals "{}"]
  then obtain more where more: "?refilled = sel @ more" by blast
  have "0 \<le> sum_list (map ((!) vals) more)"
    using ok(1) assms(2,3) unfolding more by (intro sum_list_nonneg) (auto simp: fits_def)
  then have refill: "selection_value vals sel \<le> selection_value vals ?refilled"
    unfolding more by (simp add: selection_value_def py_sum_list)
  have "drop_over_budget candidates tokens vals budget sel = (sel, False)"
    using assms(1) by (intro drop_over_budget_none) (simp add: fits_def)
  with refill local_improve_value [OF refl, of vals ?refilled candidates tokens budget ?refilled]
  show ?thesis by (auto simp: repair_exact_budget_def local_improve_selection_def Let_def)
qed

section \<open>Guarantees\<close>

lemma sort_key_Nil [simp]: "sort_key f xs = [] \<longleftrightarrow> xs = []"
  by (metis length_0_conv length_sort)

lemma sum_mapM_length: "sum_mapM f xs = Inr ys \<Longrightarrow> length ys = length xs"
  by (induction xs arbitrary: ys) (auto split: sum.splits)

lemma sum_mapM_Inr: "sum_mapM f xs = Inr ys \<Longrightarrow> i < length xs \<Longrightarrow> f (xs ! i) = Inr (ys ! i)"
proof (induction xs arbitrary: ys i)
  case (Cons x xs)
  then show ?case by (cases i) (auto split: sum.splits)
qed simp

lemma sum_mapM_total: "(\<And>x. x \<in> set xs \<Longrightarrow> \<exists>y. f x = Inr y) \<Longrightarrow> \<exists>ys. sum_mapM f xs = Inr ys"
  by (induction xs) (auto, fastforce)

lemma tokens_of_total:
  "tp_estimate_kind (pk_policy cfg) \<in> {ESTIMATE_CHARS_DIV_4, ESTIMATE_RUNES_DIV_3_5} \<Longrightarrow>
   \<exists>t. tokens_of cfg item = Inr t"
  by (auto simp: tokens_of_def estimate_tokens_def Let_def)

lemma mset_nths_subset:
  assumes "distinct sel" and "set sel \<subseteq> {..<length xs}"
  shows "mset (map (\<lambda>i. xs ! i) sel) \<subseteq># mset xs"
proof -
  have "mset sel \<subseteq># mset [0..<length xs]"
    unfolding mset_set_set [OF assms(1), symmetric] mset_upt
    by (rule subset_imp_msubset_mset_set) (use assms(2) in auto)
  then have "image_mset (\<lambda>i. xs ! i) (mset sel) \<subseteq># image_mset (\<lambda>i. xs ! i) (mset [0..<length xs])"
    by (rule image_mset_subseteq_mono)
  also have "image_mset (\<lambda>i. xs ! i) (mset [0..<length xs]) = mset xs"
    by (metis map_nth mset_map)
  finally show ?thesis by simp
qed

lemma estimate_nonneg: "estimate_tokens text policy = Inr (t, k) \<Longrightarrow> 0 \<le> t"
  by (auto simp: estimate_tokens_def Let_def estimate_chars_div_4_def estimate_runes_div_3_5_def
      split: if_splits)

lemma tokens_of_nonneg: "tokens_of cfg item = Inr t \<Longrightarrow> 0 \<le> t"
  by (cases "estimate_tokens (content item) (pk_policy cfg)")
    (auto simp: tokens_of_def dest: estimate_nonneg)

lemma pack_costs_nonneg:
  assumes "\<And>i. i < length raw \<Longrightarrow> 0 \<le> raw ! i" and "length raw = length candidates"
    and "\<And>costs x c. cost_by_id = Some costs \<Longrightarrow> costs x = Some c \<Longrightarrow> 0 \<le> c"
    and "i < length candidates"
  shows "0 \<le> pack_costs cost_by_id candidates raw ! i"
  using assms by (auto simp: pack_costs_def split: option.splits)

lemma select_fits:
  assumes "0 \<le> budget" and "length weights = length candidates"
    and "\<forall>i < length candidates. 0 \<le> tokens ! i"
  shows "fits (length candidates) tokens budget
    (fst (select_under_budget cfg candidates tokens weights vals b budget))"
proof -
  have "fits (length candidates) tokens budget (repair_exact_budget candidates tokens vals budget (dp_select weights vals b))"
    using dp_select_indices [of weights vals b] assms by (intro repair_fits) simp_all
  moreover have "fits (length candidates) tokens budget (fst (greedy_select cfg candidates tokens budget))"
    by (rule greedy_select_fits [OF assms(1)])
  ultimately show ?thesis
    by (auto simp: select_under_budget_def Let_def split: prod.splits)
qed

text \<open>What one memory costs: the caller's figure for it, or else the policy's estimate of its content.\<close>

definition memory_cost :: "packer_config \<Rightarrow> (string \<rightharpoonup> int) option \<Rightarrow> 'v scored_memory \<Rightarrow> int" where
  "memory_cost cfg cost_by_id m =
     (case Option.bind cost_by_id (\<lambda>costs. costs (memory_id m)) of
        Some c \<Rightarrow> c
      | None \<Rightarrow> (case estimate_tokens (content m) (pk_policy cfg) of Inr (t, _) \<Rightarrow> t | Inl _ \<Rightarrow> 0))"

lemma pack_costs_memory:
  assumes "sum_mapM (tokens_of cfg) cs = Inr raw" and "i < length cs"
  shows "pack_costs cost_by_id cs raw ! i = memory_cost cfg cost_by_id (cs ! i)"
  using sum_mapM_Inr [OF assms] sum_mapM_length [OF assms(1)] assms(2)
  by (cases "estimate_tokens (content (cs ! i)) (pk_policy cfg)")
    (auto simp: pack_costs_def memory_cost_def tokens_of_def split: option.splits)

lemma sum_list_sort_key: "sum_list (map (f :: _ \<Rightarrow> int) (sort_key k xs)) = sum_list (map f xs)"
  by (metis mset_map mset_sort sum_mset_sum_list)

lemma used_tokens_memory:
  assumes "sum_mapM (tokens_of cfg) cs = Inr raw" and "set sel \<subseteq> {..<length cs}"
  shows "used_tokens (pack_costs cost_by_id cs raw) sel =
    sum_list (map (memory_cost cfg cost_by_id) (sort_key score_key (map (\<lambda>i. cs ! i) sel)))"
  unfolding sum_list_sort_key used_tokens_def map_map
  using assms by (intro arg_cong [of _ _ sum_list] map_cong refl) (auto simp: pack_costs_memory)

lemma pack_finalize_Inr:
  assumes "fits (length candidates) tokens budget sel"
  shows "\<exists>pm. pack_finalize candidates sel tokens budget path examined raw = Inr pm \<and>
    pm_total_tokens pm = used_tokens tokens sel \<and>
    pm_memories pm = sort_key score_key (map (\<lambda>i. candidates ! i) sel)"
  using assms by (simp add: pack_finalize_def fits_def Let_def)

lemma pack_sound:
  fixes scored :: "'v :: {linorder, plus, zero, uminus} scored_memory list"
  assumes "tp_estimate_kind (pk_policy cfg) \<in> {ESTIMATE_CHARS_DIV_4, ESTIMATE_RUNES_DIV_3_5}"
    and "\<And>costs x c. cost_by_id = Some costs \<Longrightarrow> costs x = Some c \<Longrightarrow> 0 \<le> c"
  shows "\<exists>pm. pack cfg scored token_budget cost_by_id = Inr pm \<and>
    pm_total_tokens pm = sum_list (map (memory_cost cfg cost_by_id) (pm_memories pm)) \<and>
    sum_list (map (memory_cost cfg cost_by_id) (pm_memories pm)) \<le> max 0 token_budget \<and> 0 \<le> pm_total_tokens pm \<and>
    mset (pm_memories pm) \<subseteq># mset scored \<and>
    (token_budget \<le> 0 \<longrightarrow> pm_memories pm = []) \<and>
    pm_skipped_count pm = int (length scored) - int (length (pm_memories pm))"
proof -
  let ?cs = "sort_key score_key scored"
  obtain raw where raw: "sum_mapM (tokens_of cfg) ?cs = Inr raw"
    using sum_mapM_total [of ?cs "tokens_of cfg"] tokens_of_total [OF assms(1)] by metis
  consider (empty) "scored = []" | (zero) "scored \<noteq> []" "token_budget \<le> 0" | (pos) "scored \<noteq> []" "0 < token_budget"
    by linarith
  then show ?thesis
  proof cases
    case pos
    let ?t = "pack_costs cost_by_id ?cs raw"
    let ?w = "map (\<lambda>t. bucket_weight t (pk_bucket_size cfg)) ?t"
    let ?b = "nat (max 1 (token_budget div pk_bucket_size cfg))"
    let ?v = "map sm_composite_score ?cs"
    obtain sel path examined where sel: "select_under_budget cfg ?cs ?t ?w ?v ?b token_budget = (sel, path, examined)"
      by (metis prod_cases3)
    have len: "length raw = length ?cs" by (rule sum_mapM_length [OF raw])
    have "0 \<le> raw ! i" if "i < length raw" for i
      by (rule tokens_of_nonneg [OF sum_mapM_Inr [OF raw]]) (use len that in simp)
    then have nn: "\<forall>i < length ?cs. 0 \<le> ?t ! i"
      by (intro allI impI) (rule pack_costs_nonneg [OF _ len assms(2)])
    have f: "fits (length ?cs) ?t token_budget sel"
      using select_fits [of token_budget ?w ?cs ?t cfg ?v ?b] sel nn pos len
      by (simp add: pack_costs_def)
    from pack_finalize_Inr [OF f, of path examined raw] obtain pm
      where pm: "pack_finalize ?cs sel ?t token_budget path examined raw = Inr pm"
        "pm_total_tokens pm = used_tokens ?t sel" "pm_memories pm = sort_key score_key (map (\<lambda>i. ?cs ! i) sel)"
      by blast
    have "mset (map (\<lambda>i. ?cs ! i) sel) \<subseteq># mset ?cs"
      using f by (intro mset_nths_subset) (auto simp: fits_def)
    moreover have "0 \<le> used_tokens ?t sel"
      unfolding used_tokens_def using f nn by (intro sum_list_nonneg) (auto simp: fits_def)
    moreover have "pm_skipped_count pm = int (length scored) - int (length (pm_memories pm))"
      using pm(1,3) by (auto simp: pack_finalize_def Let_def split: if_splits)
    moreover have "pack cfg scored token_budget cost_by_id = Inr pm"
      using pos raw sel pm(1) by (simp add: pack_def pack_empty_or_zero_budget_def Let_def)
    moreover have "used_tokens ?t sel = sum_list (map (memory_cost cfg cost_by_id) (pm_memories pm))"
      unfolding pm(3) using f by (intro used_tokens_memory [OF raw]) (simp add: fits_def)
    ultimately show ?thesis using pm(2,3) f pos by (auto simp: fits_def)
  qed (use raw in \<open>auto simp: pack_def pack_empty_or_zero_budget_def empty_pack_def Let_def\<close>)
qed

lemma estimates_map_sound:
  assumes "sum_mapM (tokens_of cfg) cs = Inr raw" and "distinct (map memory_id cs)" and "m \<in> set cs"
    and "estimates_map cs raw (memory_id m) = Some t"
  shows "tokens_of cfg m = Inr t"
proof -
  note len = sum_mapM_length [OF assms(1)]
  have "(memory_id m, t) \<in> set (zip (map memory_id cs) raw)"
    using assms(4) map_of_SomeD by (force simp: estimates_map_def)
  then obtain i where i: "i < length cs" "memory_id (cs ! i) = memory_id m" "raw ! i = t"
    using len by (auto simp: in_set_zip)
  moreover obtain j where j: "j < length cs" "cs ! j = m" using assms(3) by (auto simp: in_set_conv_nth)
  ultimately have "i = j" using assms(2) by (simp add: distinct_conv_nth) (metis nth_map length_map)
  with i j show ?thesis using sum_mapM_Inr [OF assms(1)] by fastforce
qed

lemma pack_estimates:
  assumes "pack cfg scored token_budget cost_by_id = Inr pm" and "distinct (map memory_id scored)" and "m \<in> set scored"
    and "pm_token_estimates pm (memory_id m) = Some t"
  shows "tokens_of cfg m = Inr t"
proof -
  let ?cs = "sort_key score_key scored"
  have "distinct (map memory_id ?cs)"
    using assms(2) mset_eq_imp_distinct_iff [of "map memory_id ?cs" "map memory_id scored"] by (simp del: distinct_map)
  moreover have "m \<in> set ?cs" using assms(3) by simp
  moreover obtain raw where "sum_mapM (tokens_of cfg) ?cs = Inr raw" "pm_token_estimates pm = estimates_map ?cs raw"
    using assms(1,3) unfolding pack_def
    by (auto simp: pack_empty_or_zero_budget_def empty_pack_def pack_finalize_def Let_def
        split: sum.splits option.splits if_splits prod.splits)
  ultimately show ?thesis
    using estimates_map_sound assms(4) by metis
qed

text \<open>
  C11. The packer stays within its budget. For scores of any ordered type, whatever their
  arithmetic, with a known estimate kind and costs that are not negative, \<open>pack\<close> returns: the
  internal check never fires. The memories it returns cost, each at the caller's figure or else
  at the policy's estimate of its content, no more than a positive budget in total; the tokens
  it reports are exactly that total; the selection is part of the candidates without repetition, and a
  budget of zero or less selects nothing.
\<close>

theorem pack_within_budget:
  fixes scored :: "'v :: {linorder, plus, zero, uminus} scored_memory list"
  assumes "tp_estimate_kind (pk_policy cfg) \<in> {ESTIMATE_CHARS_DIV_4, ESTIMATE_RUNES_DIV_3_5}"
    and "\<And>costs x c. cost_by_id = Some costs \<Longrightarrow> costs x = Some c \<Longrightarrow> 0 \<le> c"
  shows "\<exists>pm. pack cfg scored token_budget cost_by_id = Inr pm \<and>
    pm_total_tokens pm = sum_list (map (memory_cost cfg cost_by_id) (pm_memories pm)) \<and>
    sum_list (map (memory_cost cfg cost_by_id) (pm_memories pm)) \<le> max 0 token_budget \<and> 0 \<le> pm_total_tokens pm \<and>
    mset (pm_memories pm) \<subseteq># mset scored \<and>
    (token_budget \<le> 0 \<longrightarrow> pm_memories pm = []) \<and>
    pm_skipped_count pm = int (length scored) - int (length (pm_memories pm))"
  using assms by (rule pack_sound)

definition sample_hit :: "string \<Rightarrow> string \<Rightarrow> int memory_hit" where
  "sample_hit i text = \<lparr>mh_memory_id = i, mh_org_id = ''o'', mh_agent_id = ''a'', mh_content = text,
     mh_category = ''factual'', mh_confidence = 1, mh_similarity = 1, mh_rank = 1, mh_source = ''hot'',
     mh_conflict_groups = []\<rparr>"

definition sample_scored :: "int scored_memory list" where
  "sample_scored =
     [\<lparr>sm_hit = sample_hit ''m1'' (replicate 64 CHR ''x''), sm_composite_score = 10\<rparr>,
      \<lparr>sm_hit = sample_hit ''m2'' (replicate 36 CHR ''y''), sm_composite_score = 6\<rparr>,
      \<lparr>sm_hit = sample_hit ''m3'' (replicate 36 CHR ''z''), sm_composite_score = 6\<rparr>]"

definition sample_packer :: "int \<Rightarrow> packer_config" where
  "sample_packer bucket = \<lparr>pk_policy = \<lparr>tp_estimate_kind = ESTIMATE_CHARS_DIV_4, tp_safety_num = 1, tp_safety_exp = 4\<rparr>,
     pk_bucket_size = bucket, pk_dp_cell_ceiling = 1000, pk_max_consecutive_skips = 5\<rparr>"

theorem pack_within_budget_witness:
  "\<exists>pm. pack (sample_packer 16) sample_scored 18 None = Inr pm \<and>
    pm_total_tokens pm = sum_list (map (memory_cost (sample_packer 16) None) (pm_memories pm)) \<and> pm_total_tokens pm \<le> 18"
  using pack_within_budget [of "sample_packer 16" None sample_scored 18]
  by (auto simp: sample_packer_def)

lemma fits_iff_sum: "distinct sel \<Longrightarrow> used_tokens tokens sel = (\<Sum>i \<in> set sel. tokens ! i)"
  by (simp add: used_tokens_def sum_list_distinct_conv_sum_set)

lemma pack_total_score:
  fixes candidates :: "'v :: linordered_ab_group_add scored_memory list"
  assumes "pack_finalize candidates sel tokens budget path examined raw = Inr pm"
    and "set sel \<subseteq> {..<length candidates}"
  shows "pm_total_score pm = selection_value (map sm_composite_score candidates) sel"
proof -
  have "pm_total_score pm = sum_list (map sm_composite_score (sort_key score_key (map (\<lambda>i. candidates ! i) sel)))"
    using assms(1) by (auto simp: pack_finalize_def Let_def py_sum_list split: if_splits)
  also have "\<dots> = sum_mset (mset (map sm_composite_score (map (\<lambda>i. candidates ! i) sel)))"
    unfolding sum_mset_sum_list [symmetric] by (simp add: image_mset.compositionality)
  also have "\<dots> = sum_list (map (\<lambda>i. sm_composite_score (candidates ! i)) sel)"
    unfolding sum_mset_sum_list by (simp add: o_def)
  also have "\<dots> = selection_value (map sm_composite_score candidates) sel"
    unfolding selection_value_def py_sum_list using assms(2)
    by (intro arg_cong [of _ _ sum_list] map_cong refl) auto
  finally show ?thesis .
qed

text \<open>
  C19. The packer is optimal up to its buckets. For exact scores that are not negative, on the
  knapsack path, if the table's own selection respects the token budget, the packed score is at
  least the score of every set of candidates whose bucket weights fit the table. Candidates are
  numbered in the canonical order.
\<close>

theorem pack_beats_table:
  fixes scored :: "'v :: linordered_ab_group_add scored_memory list"
  assumes "pack cfg scored token_budget cost_by_id = Inr pm" and "0 < token_budget" and "scored \<noteq> []"
    and "candidates = sort_key score_key scored" and "sum_mapM (tokens_of cfg) candidates = Inr raw"
    and "costs = pack_costs cost_by_id candidates raw"
    and "buckets = nat (max 1 (token_budget div pk_bucket_size cfg))"
    and "weights = map (\<lambda>t. bucket_weight t (pk_bucket_size cfg)) costs"
    and "int (length candidates) * (int buckets + 1) \<le> pk_dp_cell_ceiling cfg"
    and "\<forall>m \<in> set scored. 0 \<le> sm_composite_score m"
    and "used_tokens costs (dp_select weights (map sm_composite_score candidates) buckets) \<le> token_budget"
    and "S \<subseteq> {..<length candidates}" and "(\<Sum>i \<in> S. weights ! i) \<le> buckets"
  shows "(\<Sum>i \<in> S. sm_composite_score (candidates ! i)) \<le> pm_total_score pm"
proof -
  let ?v = "map sm_composite_score candidates"
  let ?sel = "dp_select weights ?v buckets"
  let ?fin = "repair_exact_budget candidates costs ?v token_budget ?sel"
  have len: "length costs = length candidates" "length weights = length candidates"
    using sum_mapM_length [OF assms(5)] assms(6,8) by (simp_all add: pack_costs_def)
  have fits: "fits (length candidates) costs token_budget ?sel"
    using dp_select_indices [of weights ?v buckets] assms(11) len by (simp add: fits_def)
  have fin: "pack_finalize candidates ?fin costs token_budget Path_dp None raw = Inr pm"
    using assms(1-9)
    by (auto simp: pack_def pack_empty_or_zero_budget_def select_under_budget_def Let_def split: if_splits)
  have sub: "set ?fin \<subseteq> {..<length candidates}"
  proof -
    note ok = greedy_refill_fits(1) [OF fits, of ?v "{}"]
    have d: "drop_over_budget candidates costs ?v token_budget ?sel = (?sel, False)"
      using assms(11) by (rule drop_over_budget_none)
    show ?thesis
    proof (cases "should_local_improve candidates costs token_budget (greedy_refill ?sel candidates costs ?v token_budget {})")
      case True
      with d show ?thesis
        using local_improve_indices [of "greedy_refill ?sel candidates costs ?v token_budget {}" candidates] ok
        by (simp add: repair_exact_budget_def local_improve_selection_def fits_def Let_def)
    next
      case False
      with d ok show ?thesis by (simp add: repair_exact_budget_def fits_def Let_def)
    qed
  qed
  have "(\<Sum>i \<in> S. ?v ! i) \<le> (\<Sum>i \<in> set ?sel. ?v ! i)"
    using dp_select_optimal(2) [of ?v weights S buckets] assms(12,13) len by simp
  also have "\<dots> = selection_value ?v ?sel"
    by (rule selection_value_sum [OF dp_select_indices(1), symmetric])
  also have "\<dots> \<le> selection_value ?v ?fin"
    using assms(4,10) by (intro repair_value [OF fits]) auto
  also have "\<dots> = pm_total_score pm" by (rule pack_total_score [OF fin sub, symmetric])
  finally have "(\<Sum>i \<in> S. ?v ! i) \<le> pm_total_score pm" .
  moreover have "(\<Sum>i \<in> S. ?v ! i) = (\<Sum>i \<in> S. sm_composite_score (candidates ! i))"
    using assms(12) by (intro sum.cong refl) auto
  ultimately show ?thesis by simp
qed

theorem pack_beats_table_witness:
  "\<exists>pm. pack (sample_packer 1) sample_scored 18 None = Inr pm \<and> 12 \<le> pm_total_score pm"
proof -
  obtain pm where pm: "pack (sample_packer 1) sample_scored 18 None = Inr pm"
    using pack_sound [of "sample_packer 1" None sample_scored 18] by (auto simp: sample_packer_def)
  have ne: "sample_scored \<noteq> []" by (simp add: sample_scored_def)
  have raw: "sum_mapM (tokens_of (sample_packer 1)) (sort_key score_key sample_scored) = Inr [16, 9, 9]"
    by code_simp
  have costs: "[16, 9, 9] = pack_costs None (sort_key score_key sample_scored) [16, 9, 9]" by code_simp
  have b: "18 = nat (max 1 (18 div pk_bucket_size (sample_packer 1)))" by code_simp
  have w: "[16, 9, 9] = map (\<lambda>t. bucket_weight t (pk_bucket_size (sample_packer 1))) [16, 9, 9]" by code_simp
  have c: "int (length (sort_key score_key sample_scored)) * (int 18 + 1) \<le> pk_dp_cell_ceiling (sample_packer 1)"
    by code_simp
  have nn: "\<forall>m \<in> set sample_scored. 0 \<le> sm_composite_score m" by (simp add: sample_scored_def)
  have fit: "used_tokens [16, 9, 9] (dp_select [16, 9, 9] (map sm_composite_score (sort_key score_key sample_scored)) 18) \<le> 18"
    by code_simp
  have S: "{1, 2} \<subseteq> {..<length (sort_key score_key sample_scored)}" by (simp add: sample_scored_def)
  have ws: "(\<Sum>i \<in> {1, 2}. [16, 9, 9 :: nat] ! i) \<le> 18" by simp
  have v: "(\<Sum>i \<in> {1, 2}. sm_composite_score (sort_key score_key sample_scored ! i)) = 12" by code_simp
  from pack_beats_table [OF pm _ ne refl raw costs b w c nn fit S ws] pm v show ?thesis by auto
qed

end
