(* ===== verification/Context_Assembly.thy ===== *)
theory Context_Assembly
  imports Context_Retrieval Packer_Guarantees
begin

text \<open>
  The assembler of the context service (\<open>services/context/app/assemble.py\<close>): retrieve, classify
  the degradation, compute the budget, score, pack with wrap-aware costs, trim and refill for the
  separators, format. Timings and logging are left out. \<open>token_count\<close> reads \<open>estimate_tokens\<close>
  where the source does so after the budget was computed with the same policy, which is where an
  unsupported policy raises.
\<close>

section \<open>Requests and results\<close>

record assembly_options =
  ao_skip_cold_memories :: bool
  ao_skip_hot_memories :: bool
  ao_max_memories :: int

record assemble_request =
  ar_org_id :: nat
  ar_agent_id :: nat
  ar_query :: string
  ar_model :: string
  ar_recent_messages :: "message list"
  ar_session_id :: string
  ar_directive_version_id :: string
  ar_request_id :: string
  ar_trace_id :: string
  ar_span_id :: string
  ar_available_tokens :: int
  ar_options :: assembly_options
  ar_tool_schemas :: "string list"

record context_settings =
  cs_packer_dp_cell_ceiling :: int
  cs_packer_max_consecutive_skips :: int
  cs_formatter_nonce_bytes :: int

datatype degradation_level = L0 | L1 | L2

record 'v memory_used_record =
  mu_memory_id :: string
  mu_composite_score :: 'v
  mu_relevance_score :: 'v
  mu_recency_score :: 'v
  mu_usefulness_score :: 'v
  mu_rank :: int
  mu_category :: string
  mu_exclusion :: string
  mu_similarity :: 'v
  mu_confidence :: 'v
  mu_token_estimate :: int

record 'v assembly_result =
  as_formatted :: formatted_context
  as_packed :: "'v packed_memories"
  as_budget :: token_budget
  as_retrieval :: "'v retrieval_result"
  as_degradation_level :: degradation_level
  as_memories_used :: "'v memory_used_record list"
  as_tokens_used :: int
  as_request_id :: string
  as_trace_id :: string
  as_span_id :: string
  as_score_schema :: string

section \<open>Degradation\<close>

definition apply_skip_options :: "'v retrieval_result \<Rightarrow> assembly_options \<Rightarrow> 'v retrieval_result" where
  "apply_skip_options r options =
     r\<lparr>rs_hot_memories := (if ao_skip_hot_memories options then [] else rs_hot_memories r),
       rs_cold_memories := (if ao_skip_cold_memories options then [] else rs_cold_memories r)\<rparr>"

definition source_usable :: "bool \<Rightarrow> branch_status \<Rightarrow> bool" where
  "source_usable skipped status \<longleftrightarrow> \<not> skipped \<and> status = Branch_success"

definition classify_degradation :: "'v retrieval_result \<Rightarrow> assembly_options \<Rightarrow> degradation_level \<times> bool" where
  "classify_degradation r options =
     (let hot_usable = source_usable (ao_skip_hot_memories options) (bo_status (rs_hot_outcome r));
          cold_usable = source_usable (ao_skip_cold_memories options) (bo_status (rs_cold_outcome r));
          intentional = ao_skip_hot_memories options \<or> ao_skip_cold_memories options
      in if hot_usable \<and> cold_usable then (L0, False)
         else if \<not> hot_usable \<and> \<not> cold_usable then (L2, intentional)
         else (L1, intentional))"

definition score_candidates ::
  "'v :: linordered_field retrieval_result \<Rightarrow> assembly_options \<Rightarrow> degradation_level \<Rightarrow> py_error + 'v scored_memory list" where
  "score_candidates r options level =
     (if level = L2 then Inr []
      else sum_bind (score_retrieval_hits (rs_hot_memories r @ rs_cold_memories r)) (\<lambda>scored.
        Inr (if 0 < ao_max_memories options then take (nat (ao_max_memories options)) scored else scored)))"

section \<open>Costs of wrapped memories\<close>

definition token_count :: "tokenizer_policy \<Rightarrow> string \<Rightarrow> int" where
  "token_count policy text = (case estimate_tokens text policy of Inr (t, _) \<Rightarrow> t | Inl _ \<Rightarrow> 0)"

definition estimate_wrapped_memory_tokens :: "tokenizer_policy \<Rightarrow> string \<Rightarrow> 'v scored_memory \<Rightarrow> int" where
  "estimate_wrapped_memory_tokens policy nonce item =
     token_count policy (serialize_memory_element nonce (memory_id item) (category item) (content item))"

definition memory_wrap_delta :: "'v scored_memory \<Rightarrow> tokenizer_policy \<Rightarrow> string \<Rightarrow> int option \<Rightarrow> int" where
  "memory_wrap_delta item policy nonce raw_tokens =
     (let raw = (case raw_tokens of Some r \<Rightarrow> r | None \<Rightarrow> token_count policy (content item));
          wrapped = estimate_wrapped_memory_tokens policy nonce item
      in max 0 (wrapped - max 0 raw))"

definition wrap_aware_costs :: "'v scored_memory list \<Rightarrow> tokenizer_policy \<Rightarrow> string \<Rightarrow> string \<rightharpoonup> int" where
  "wrap_aware_costs scored policy nonce =
     foldl (\<lambda>costs item. let raw = token_count policy (content item);
       wrap = memory_wrap_delta item policy nonce (Some raw)
       in costs(memory_id item \<mapsto> max 0 raw + wrap)) Map.empty scored"

definition raw_token_estimate :: "'v scored_memory \<Rightarrow> (string \<rightharpoonup> int) \<Rightarrow> tokenizer_policy \<Rightarrow> int" where
  "raw_token_estimate item estimates policy =
     (case estimates (memory_id item) of Some e \<Rightarrow> e | None \<Rightarrow> token_count policy (content item))"

definition memory_separator_tokens :: "nat \<Rightarrow> tokenizer_policy \<Rightarrow> int" where
  "memory_separator_tokens n policy = (if n \<le> 1 then 0 else (int n - 1) * token_count policy NL)"

record wrap_cost_context =
  wc_policy :: tokenizer_policy
  wc_nonce :: string
  wc_estimates :: "string \<rightharpoonup> int"
  wc_cost_by_id :: "(string \<rightharpoonup> int) option"

definition item_wrap_tokens :: "'v scored_memory \<Rightarrow> int \<Rightarrow> wrap_cost_context \<Rightarrow> int" where
  "item_wrap_tokens item raw ctx =
     (let delta = memory_wrap_delta item (wc_policy ctx) (wc_nonce ctx) (Some raw) in
      case wc_cost_by_id ctx of
        None \<Rightarrow> delta
      | Some costs \<Rightarrow> (case costs (memory_id item) of
          Some c \<Rightarrow> max 0 (c - max 0 raw)
        | None \<Rightarrow> delta))"

definition selection_raw_and_wrap :: "'v scored_memory list \<Rightarrow> wrap_cost_context \<Rightarrow> int \<times> int" where
  "selection_raw_and_wrap remaining ctx =
     (let (raw_total, wrap_total) = foldl (\<lambda>(raw_total, wrap_total) item.
            let raw = raw_token_estimate item (wc_estimates ctx) (wc_policy ctx)
            in (raw_total + max 0 raw, wrap_total + item_wrap_tokens item raw ctx)) (0, 0) remaining
      in (raw_total, wrap_total + memory_separator_tokens (length remaining) (wc_policy ctx)))"

definition selection_fits_budget :: "'v scored_memory list \<Rightarrow> int \<Rightarrow> wrap_cost_context \<Rightarrow> bool" where
  "selection_fits_budget remaining usable_budget ctx =
     (let (raw_total, wrap_total) = selection_raw_and_wrap remaining ctx in raw_total + wrap_total \<le> usable_budget)"

section \<open>Trimming and refilling\<close>

definition drop_lowest_score :: "'v :: linorder scored_memory list \<Rightarrow> string \<times> 'v scored_memory list" where
  "drop_lowest_score remaining =
     (let drop_at = argmin (\<lambda>j. (sm_composite_score (remaining ! j), memory_id (remaining ! j))) (length remaining)
      in (memory_id (remaining ! drop_at), pop_at drop_at remaining))"

function drop_until_wrap_fits ::
  "'v :: linorder scored_memory list \<Rightarrow> int \<Rightarrow> wrap_cost_context \<Rightarrow> string set \<Rightarrow> 'v scored_memory list \<times> string set" where
  "drop_until_wrap_fits remaining usable_budget ctx dropped =
     (if remaining \<noteq> [] \<and> \<not> selection_fits_budget remaining usable_budget ctx
      then let (mid, rest) = drop_lowest_score remaining
           in drop_until_wrap_fits rest usable_budget ctx (insert mid dropped)
      else (remaining, dropped))"
  by pat_completeness auto
termination
  by (relation "measure (\<lambda>(remaining, usable_budget, ctx, dropped). length remaining)")
    (auto simp: drop_lowest_score_def length_pop_at argmin_less Let_def)

declare drop_until_wrap_fits.simps [simp del]

fun wrap_refill_loop ::
  "'v scored_memory list \<Rightarrow> int \<Rightarrow> wrap_cost_context \<Rightarrow> 'v scored_memory list \<Rightarrow> string set \<Rightarrow> 'v scored_memory list" where
  "wrap_refill_loop [] usable_budget ctx out chosen_ids = out"
| "wrap_refill_loop (item # items) usable_budget ctx out chosen_ids =
     (if memory_id item \<in> chosen_ids then wrap_refill_loop items usable_budget ctx out chosen_ids
      else if selection_fits_budget (out @ [item]) usable_budget ctx
      then wrap_refill_loop items usable_budget ctx (out @ [item]) (insert (memory_id item) chosen_ids)
      else wrap_refill_loop items usable_budget ctx out chosen_ids)"

definition greedy_wrap_refill ::
  "'v :: {linorder, uminus} scored_memory list \<Rightarrow> 'v scored_memory list \<Rightarrow> int \<Rightarrow> wrap_cost_context \<Rightarrow> 'v scored_memory list" where
  "greedy_wrap_refill chosen scored usable_budget ctx =
     wrap_refill_loop (sort_key score_key scored) usable_budget ctx chosen (memory_id ` set chosen)"

definition dropped_after_refill ::
  "'v scored_memory list \<Rightarrow> 'v scored_memory list \<Rightarrow> string set \<Rightarrow> string set \<Rightarrow> string set" where
  "dropped_after_refill remaining refilled prior_excluded already_dropped =
     (let final_ids = memory_id ` set refilled in
      (already_dropped - final_ids)
      \<union> {mid \<in> memory_id ` set remaining. mid \<notin> final_ids}
      \<union> {mid \<in> prior_excluded. mid \<notin> final_ids})"

definition wrapped_total_tokens ::
  "'v scored_memory list \<Rightarrow> (string \<rightharpoonup> int) \<Rightarrow> tokenizer_policy \<Rightarrow> (string \<rightharpoonup> int) \<Rightarrow> int" where
  "wrapped_total_tokens remaining estimates policy cost_by_id =
     sum_list (map (\<lambda>item. case cost_by_id (memory_id item) of
         Some c \<Rightarrow> max 0 c
       | None \<Rightarrow> max 0 (raw_token_estimate item estimates policy)) remaining)"

definition rebuild_after_wrap_trim ::
  "'v :: {plus, zero} packed_memories \<Rightarrow> 'v scored_memory list \<Rightarrow> string set \<Rightarrow> (string \<rightharpoonup> int) \<Rightarrow> tokenizer_policy \<Rightarrow>
   (string \<rightharpoonup> int) \<Rightarrow> 'v packed_memories" where
  "rebuild_after_wrap_trim packed remaining dropped_ids estimates policy cost_by_id =
     (let prior_ids = memory_id ` set (pm_memories packed);
          final_ids = memory_id ` set remaining;
          refilled = final_ids - prior_ids;
          dropped_from_selection = prior_ids - final_ids
      in \<lparr>pm_memories = remaining,
          pm_total_tokens = wrapped_total_tokens remaining estimates policy cost_by_id,
          pm_total_score = py_sum (map sm_composite_score remaining),
          pm_skipped_count = pm_skipped_count packed + int (card dropped_from_selection) - int (card refilled),
          pm_was_budget_reached = (dropped_ids \<noteq> {}),
          pm_path = pm_path packed,
          pm_candidates_evaluated = pm_candidates_evaluated packed,
          pm_budget_excluded_ids = dropped_ids,
          pm_token_estimates = estimates\<rparr>)"

definition trim_packed_for_wrap ::
  "'v :: {linorder, plus, zero, uminus} packed_memories \<Rightarrow> 'v scored_memory list \<Rightarrow> int \<Rightarrow> tokenizer_policy \<Rightarrow> string \<Rightarrow>
   (string \<rightharpoonup> int) \<Rightarrow> 'v packed_memories" where
  "trim_packed_for_wrap packed scored usable_budget policy nonce cost_by_id =
     (if usable_budget \<le> 0 then packed
      else
        let estimates = pm_token_estimates packed;
            ctx = \<lparr>wc_policy = policy, wc_nonce = nonce, wc_estimates = estimates, wc_cost_by_id = Some cost_by_id\<rparr>;
            (remaining, dropped_ids) = drop_until_wrap_fits (pm_memories packed) usable_budget ctx {};
            refilled = greedy_wrap_refill remaining scored usable_budget ctx;
            dropped_ids = dropped_after_refill remaining refilled (pm_budget_excluded_ids packed) dropped_ids
        in if dropped_ids = {} \<and> length refilled = length (pm_memories packed) then packed
           else rebuild_after_wrap_trim packed refilled dropped_ids estimates policy cost_by_id)"

text \<open>The reserve for wrap deltas of a greedy fit.\<close>

definition memory_wrap_reserve ::
  "'v :: {linorder, uminus} scored_memory list \<Rightarrow> int \<Rightarrow> tokenizer_policy \<Rightarrow> string \<Rightarrow> int" where
  "memory_wrap_reserve scored usable_budget policy nonce =
     (if usable_budget \<le> 0 \<or> scored = [] then 0
      else fst (foldl (\<lambda>(reserve, used) item.
        let raw = token_count policy (content item);
            wrap = memory_wrap_delta item policy nonce (Some raw);
            cost = max 0 raw + wrap
        in if cost \<le> 0 \<or> usable_budget - used < cost then (reserve, used) else (reserve + wrap, used + cost))
        (0, 0) (sort_key score_key scored)))"

section \<open>Assembly\<close>

definition apply_available_tokens :: "token_budget \<Rightarrow> int \<Rightarrow> token_budget" where
  "apply_available_tokens budget available_tokens =
     (if available_tokens \<le> 0 \<or> tb_usable_budget budget \<le> available_tokens then budget
      else budget\<lparr>tb_usable_budget := available_tokens,
             tb_is_constrained := available_tokens < MIN_VIABLE_MEMORY_BUDGET\<rparr>)"

definition memory_used :: "'v :: zero scored_memory \<Rightarrow> string \<Rightarrow> int \<Rightarrow> 'v memory_used_record" where
  "memory_used item exclusion token_estimate =
     \<lparr>mu_memory_id = memory_id item, mu_composite_score = sm_composite_score item,
      mu_relevance_score = mh_similarity (sm_hit item), mu_recency_score = 0, mu_usefulness_score = 0,
      mu_rank = mh_rank (sm_hit item), mu_category = category item, mu_exclusion = exclusion,
      mu_similarity = mh_similarity (sm_hit item), mu_confidence = mh_confidence (sm_hit item),
      mu_token_estimate = token_estimate\<rparr>"

definition memories_used ::
  "'v :: zero scored_memory list \<Rightarrow> 'v packed_memories \<Rightarrow> tokenizer_policy \<Rightarrow> 'v memory_used_record list" where
  "memories_used scored packed policy =
     (let included = memory_id ` set (pm_memories packed) in
      map (\<lambda>item.
        let exclusion = (if memory_id item \<in> included then ''included''
              else if memory_id item \<in> pm_budget_excluded_ids packed then ''budget'' else ''filter'');
            token_estimate = raw_token_estimate item (pm_token_estimates packed) policy
        in memory_used item exclusion token_estimate) scored)"

text \<open>
  The packer's constructor refuses a bucket below one, a cell ceiling below one and a negative
  skip limit. The bucket is a constant and the settings' fields carry the other two bounds, so
  those refusals cannot happen here and \<open>make_packer\<close> has no error branch.
\<close>

definition make_packer :: "context_settings \<Rightarrow> tokenizer_policy \<Rightarrow> packer_config" where
  "make_packer settings policy =
     \<lparr>pk_policy = policy, pk_bucket_size = BUCKET_SIZE, pk_dp_cell_ceiling = cs_packer_dp_cell_ceiling settings,
      pk_max_consecutive_skips = cs_packer_max_consecutive_skips settings\<rparr>"

definition pack_scored ::
  "context_settings \<Rightarrow> 'v :: {linorder, plus, zero, uminus} scored_memory list \<Rightarrow> int \<Rightarrow> tokenizer_policy \<Rightarrow>
   py_error + 'v packed_memories" where
  "pack_scored settings scored usable_budget policy =
     (let nonce = representative_nonce (cs_formatter_nonce_bytes settings);
          cost_by_id = wrap_aware_costs scored policy nonce
      in sum_bind (pack (make_packer settings policy) scored usable_budget (Some cost_by_id)) (\<lambda>packed.
         Inr (trim_packed_for_wrap packed scored usable_budget policy nonce cost_by_id)))"

definition pack_and_format ::
  "capability_catalog \<Rightarrow> context_settings \<Rightarrow> nat list \<Rightarrow> assemble_request \<Rightarrow> 'v :: linordered_field retrieval_result \<Rightarrow>
   degradation_level \<Rightarrow> py_error + 'v assembly_result" where
  "pack_and_format cat settings rnd req retrieval level =
     (let directive_text = (case rs_directive retrieval of Some d \<Rightarrow> rd_content d | None \<Rightarrow> []) in
      sum_bind (calculate cat \<lparr>bq_model = ar_model req, bq_messages = ar_recent_messages req,
        bq_directive = directive_text, bq_tool_schemas = ar_tool_schemas req,
        bq_nonce_bytes = cs_formatter_nonce_bytes settings\<rparr>) (\<lambda>budget.
      let budget = apply_available_tokens budget (ar_available_tokens req) in
      sum_bind (score_candidates retrieval (ar_options req) level) (\<lambda>scored.
      sum_bind (for_model cat (ar_model req)) (\<lambda>cap.
      sum_bind (family_policy cat (cap_tokenizer_family cap)) (\<lambda>policy.
      sum_bind (pack_scored settings scored (tb_usable_budget budget) policy) (\<lambda>packed.
      sum_bind (format rnd \<lparr>fr_directive = rs_directive retrieval, fr_recent_messages = ar_recent_messages req,
        fr_packed = packed, fr_tool_schemas = ar_tool_schemas req, fr_nonce = None\<rparr>) (\<lambda>formatted.
      Inr \<lparr>as_formatted = formatted, as_packed = packed, as_budget = budget, as_retrieval = retrieval,
        as_degradation_level = level, as_memories_used = memories_used scored packed policy,
        as_tokens_used = tb_directive_tokens budget + tb_messages_tokens budget + pm_total_tokens packed,
        as_request_id = ar_request_id req, as_trace_id = ar_trace_id req, as_span_id = ar_span_id req,
        as_score_schema = ''interim_v1''\<rparr>)))))))"

definition assemble ::
  "capability_catalog \<Rightarrow> context_settings \<Rightarrow> 'v :: linordered_field retrieval_env \<Rightarrow> nat list \<Rightarrow> assemble_request \<Rightarrow>
   py_error + 'v assembly_result" where
  "assemble cat settings env rnd req =
     sum_bind (retrieve cat env \<lparr>rr_org_id = ar_org_id req, rr_agent_id = ar_agent_id req, rr_query = ar_query req,
       rr_model = ar_model req, rr_recent_messages = ar_recent_messages req\<rparr>) (\<lambda>r.
     let retrieval = apply_skip_options r (ar_options req);
         (level, intentional_skip) = classify_degradation retrieval (ar_options req)
     in pack_and_format cat settings rnd req retrieval level)"

end
