(* ===== verification/Assembly_Guarantees.thy ===== *)
theory Assembly_Guarantees
  imports Context_Assembly
begin

text \<open>
  What the assembler promises: the packed memories with all their markup fit the memory budget,
  the whole assembled text fits what the window leaves after the reserves, and every memory in it
  is one of the requesting tenant's.
\<close>

section \<open>Costs\<close>

lemma token_count_eq: "supported policy \<Longrightarrow> token_count policy s = est policy (length s)"
  by (simp add: token_count_def estimate_tokens_eq)

definition full_cost :: "tokenizer_policy \<Rightarrow> string \<Rightarrow> 'v scored_memory \<Rightarrow> int" where
  "full_cost policy nonce m = max (est policy (length (content m))) (est policy (length (wrap_memory nonce m)))"

definition selection_cost :: "tokenizer_policy \<Rightarrow> string \<Rightarrow> 'v scored_memory list \<Rightarrow> int" where
  "selection_cost policy nonce ms =
     sum_list (map (full_cost policy nonce) ms) + int (length ms - 1) * est policy 1"

lemma full_cost_nonneg: "0 \<le> full_cost policy nonce m"
  by (simp add: full_cost_def le_max_iff_disj)

lemma foldl_map_upd:
  "foldl (\<lambda>c x. c(k x \<mapsto> v x)) M xs = M ++ map_of (rev (map (\<lambda>x. (k x, v x)) xs))"
  by (induction xs arbitrary: M) (simp_all add: map_add_def fun_eq_iff split: option.split)

lemma wrap_delta_cost:
  "supported policy \<Longrightarrow>
   max 0 (token_count policy (content m)) + memory_wrap_delta m policy nonce (Some (token_count policy (content m)))
     = full_cost policy nonce m"
  by (simp add: memory_wrap_delta_def estimate_wrapped_memory_tokens_def token_count_eq full_cost_def wrap_memory_def)

lemma wrap_aware_costs_eq:
  assumes "supported policy"
  shows "wrap_aware_costs scored policy nonce = map_of (rev (map (\<lambda>m. (memory_id m, full_cost policy nonce m)) scored))"
  using foldl_map_upd [of memory_id "full_cost policy nonce" Map.empty scored]
  by (simp add: wrap_aware_costs_def Let_def wrap_delta_cost [OF assms])

lemma wrap_aware_costs_Some:
  assumes "supported policy" "wrap_aware_costs scored policy nonce mid = Some c"
  shows "0 \<le> c"
  using assms by (auto simp: wrap_aware_costs_eq full_cost_nonneg dest!: map_of_SomeD)

lemma wrap_aware_costs_lookup:
  assumes "supported policy" "distinct (map memory_id scored)" "m \<in> set scored"
  shows "wrap_aware_costs scored policy nonce (memory_id m) = Some (full_cost policy nonce m)"
proof -
  have "distinct (map fst (rev (map (\<lambda>m. (memory_id m, full_cost policy nonce m)) scored)))"
    using assms(2) by (simp add: comp_def rev_map [symmetric] del: distinct_map)
  then show ?thesis
    unfolding wrap_aware_costs_eq [OF assms(1)] using assms(3) by (intro map_of_is_SomeI) auto
qed

text \<open>The context in which a pack of the scored candidates is trimmed.\<close>

definition trim_context ::
  "tokenizer_policy \<Rightarrow> string \<Rightarrow> 'v scored_memory list \<Rightarrow> wrap_cost_context \<Rightarrow> bool" where
  "trim_context policy nonce scored ctx \<longleftrightarrow>
     wc_policy ctx = policy \<and> wc_nonce ctx = nonce \<and> wc_cost_by_id ctx = Some (wrap_aware_costs scored policy nonce) \<and>
     supported policy \<and> distinct (map memory_id scored) \<and>
     (\<forall>m\<in>set scored. \<forall>t. wc_estimates ctx (memory_id m) = Some t \<longrightarrow> t = est policy (length (content m)))"

lemma foldl_pair_sum:
  "foldl (\<lambda>(a, b) x. (a + f x, b + g x)) (a, b) xs = (a + sum_list (map f xs), b + sum_list (map g xs))"
  for f g :: "'a \<Rightarrow> int"
  by (induction xs arbitrary: a b) auto

lemma item_cost:
  assumes "trim_context policy nonce scored ctx" "m \<in> set scored"
  shows "max 0 (raw_token_estimate m (wc_estimates ctx) (wc_policy ctx))
    + item_wrap_tokens m (raw_token_estimate m (wc_estimates ctx) (wc_policy ctx)) ctx = full_cost policy nonce m"
proof -
  have "raw_token_estimate m (wc_estimates ctx) (wc_policy ctx) = est policy (length (content m))"
    using assms by (auto simp: trim_context_def raw_token_estimate_def token_count_eq split: option.split)
  moreover have "wrap_aware_costs scored policy nonce (memory_id m) = Some (full_cost policy nonce m)"
    using assms by (intro wrap_aware_costs_lookup) (auto simp: trim_context_def)
  ultimately show ?thesis
    using assms(1) by (simp add: item_wrap_tokens_def trim_context_def full_cost_def)
qed

lemma selection_fits_iff:
  assumes "trim_context policy nonce scored ctx" "set ms \<subseteq> set scored"
  shows "selection_fits_budget ms usable ctx \<longleftrightarrow> selection_cost policy nonce ms \<le> usable"
proof -
  let ?raw = "\<lambda>m. raw_token_estimate m (wc_estimates ctx) (wc_policy ctx)"
  have "sum_list (map (\<lambda>m. max 0 (?raw m)) ms) + sum_list (map (\<lambda>m. item_wrap_tokens m (?raw m) ctx) ms)
      = sum_list (map (full_cost policy nonce) ms)"
    using item_cost [OF assms(1)] assms(2) by (induction ms) (auto simp: algebra_simps)
  moreover have "memory_separator_tokens (length ms) (wc_policy ctx) = int (length ms - 1) * est policy 1"
    using assms(1) by (auto simp: memory_separator_tokens_def trim_context_def token_count_eq of_nat_diff)
  ultimately show ?thesis
    unfolding selection_fits_budget_def selection_raw_and_wrap_def Let_def foldl_pair_sum
    by (simp add: selection_cost_def) linarith
qed

section \<open>Trim and refill\<close>

lemma distinct_submset: "mset xs \<subseteq># mset ys \<Longrightarrow> distinct ys \<Longrightarrow> distinct xs"
proof -
  assume "mset xs \<subseteq># mset ys" "distinct ys"
  then obtain zs where "mset ys = mset (xs @ zs)"
    by (metis ex_mset mset_append subset_mset.add_diff_inverse)
  then have "distinct (xs @ zs)" using \<open>distinct ys\<close> mset_eq_imp_distinct_iff by blast
  then show ?thesis by simp
qed

lemma drop_lowest_score_parts:
  assumes "ms \<noteq> []" "drop_lowest_score ms = (mid, rest)"
  shows "set rest \<subseteq> set ms" "length rest < length ms" "distinct (map memory_id ms) \<Longrightarrow> distinct (map memory_id rest)"
    "insert mid (memory_id ` set rest) = memory_id ` set ms"
proof -
  obtain j where j: "j < length ms" "mid = memory_id (ms ! j)" "rest = pop_at j ms"
    using assms argmin_less [of "length ms"] by (auto simp: drop_lowest_score_def Let_def)
  have split: "ms = take j ms @ ms ! j # drop (Suc j) ms" using j(1) by (rule id_take_nth_drop)
  have rest: "rest = take j ms @ drop (Suc j) ms" by (simp add: j(3) pop_at_def)
  show "set rest \<subseteq> set ms" by (subst split) (auto simp: rest)
  show "length rest < length ms" using j by (simp add: length_pop_at)
  show "distinct (map memory_id rest)" if "distinct (map memory_id ms)"
    using that by (subst (asm) split) (auto simp: rest)
  show "insert mid (memory_id ` set rest) = memory_id ` set ms"
    using arg_cong [OF split, of "\<lambda>xs. memory_id ` set xs"] by (simp add: rest j(2) image_Un)
qed

lemma drop_until_parts:
  assumes "drop_until_wrap_fits ms usable ctx dropped = (rem, dropped')"
  shows "set rem \<subseteq> set ms \<and> (distinct (map memory_id ms) \<longrightarrow> distinct (map memory_id rem)) \<and>
    memory_id ` set rem \<union> dropped' = memory_id ` set ms \<union> dropped \<and>
    (rem = [] \<or> selection_fits_budget rem usable ctx)"
  using assms
proof (induction ms usable ctx dropped rule: drop_until_wrap_fits.induct)
  case (1 ms usable ctx dropped)
  show ?case
  proof (cases "ms \<noteq> [] \<and> \<not> selection_fits_budget ms usable ctx")
    case True
    obtain mid rest where d: "drop_lowest_score ms = (mid, rest)" by fastforce
    have "drop_until_wrap_fits rest usable ctx (insert mid dropped) = (rem, dropped')"
      using 1(2) True d by (simp add: drop_until_wrap_fits.simps [of ms])
    from 1(1) [OF True d [symmetric] refl this] show ?thesis
      using drop_lowest_score_parts [of ms mid rest] True d by auto
  next
    case False
    then have "(rem, dropped') = (ms, dropped)"
      using 1(2) by (subst (asm) drop_until_wrap_fits.simps) (simp split: if_splits)
    with False show ?thesis by auto
  qed
qed

lemma wrap_refill_parts:
  assumes "ids = memory_id ` set out" "distinct (map memory_id out)" "out = [] \<or> selection_fits_budget out usable ctx"
  shows "set out \<subseteq> set (wrap_refill_loop items usable ctx out ids) \<and>
    set (wrap_refill_loop items usable ctx out ids) \<subseteq> set out \<union> set items \<and>
    distinct (map memory_id (wrap_refill_loop items usable ctx out ids)) \<and>
    (wrap_refill_loop items usable ctx out ids = [] \<or> selection_fits_budget (wrap_refill_loop items usable ctx out ids) usable ctx)"
  using assms
proof (induction items usable ctx out ids rule: wrap_refill_loop.induct)
  case (2 item items usable ctx out ids)
  consider (seen) "memory_id item \<in> ids" | (fits) "memory_id item \<notin> ids" "selection_fits_budget (out @ [item]) usable ctx"
    | (skip) "memory_id item \<notin> ids" "\<not> selection_fits_budget (out @ [item]) usable ctx" by blast
  then show ?case
  proof cases
    case seen
    with "2.IH"(1) [OF seen "2.prems"] show ?thesis by auto
  next
    case fits
    have "insert (memory_id item) ids = memory_id ` set (out @ [item])" "distinct (map memory_id (out @ [item]))"
      using fits(1) "2.prems"(1,2) by auto
    from "2.IH"(2) [OF fits this] fits(2) have "set (out @ [item]) \<subseteq> set (wrap_refill_loop (item # items) usable ctx out ids) \<and>
      set (wrap_refill_loop (item # items) usable ctx out ids) \<subseteq> set (out @ [item]) \<union> set items \<and>
      distinct (map memory_id (wrap_refill_loop (item # items) usable ctx out ids)) \<and>
      (wrap_refill_loop (item # items) usable ctx out ids = [] \<or>
       selection_fits_budget (wrap_refill_loop (item # items) usable ctx out ids) usable ctx)"
      using fits(1) by (simp del: distinct_map)
    then show ?thesis by auto
  next
    case skip
    with "2.IH"(3) [OF skip "2.prems"] show ?thesis by auto
  qed
qed simp

text \<open>Two selections of the candidates with the same identifiers cost the same.\<close>

lemma same_ids_same_cost:
  assumes "distinct (map memory_id scored)" "set xs \<subseteq> set scored" "set ys \<subseteq> set scored"
    and "distinct (map memory_id xs)" "distinct (map memory_id ys)"
    and "memory_id ` set xs \<subseteq> memory_id ` set ys" "length xs = length ys"
  shows "selection_cost policy nonce xs = selection_cost policy nonce ys"
proof -
  have inj: "inj_on memory_id (set scored)" using assms(1) by (simp add: distinct_map)
  have "set xs \<subseteq> set ys"
    using assms(2,3,6) inj by (auto simp: inj_on_def subset_iff image_iff) metis
  moreover have "card (set xs) = card (set ys)"
    using assms(4,5,7) by (simp add: distinct_map distinct_card)
  ultimately have "set xs = set ys" by (simp add: card_subset_eq)
  then have "sum_list (map (full_cost policy nonce) xs) = sum_list (map (full_cost policy nonce) ys)"
    using assms(4,5) by (simp add: distinct_map sum_list_distinct_conv_sum_set)
  with assms(7) show ?thesis by (simp add: selection_cost_def)
qed

lemma trim_fits:
  fixes scored :: "'v :: {linorder, plus, zero, uminus} scored_memory list"
  assumes ctx: "trim_context policy nonce scored
      \<lparr>wc_policy = policy, wc_nonce = nonce, wc_estimates = pm_token_estimates packed,
       wc_cost_by_id = Some (wrap_aware_costs scored policy nonce)\<rparr>" (is "trim_context _ _ _ ?ctx")
    and packed: "set (pm_memories packed) \<subseteq> set scored" "distinct (map memory_id (pm_memories packed))"
    and usable: "0 < usable"
    and res: "res = trim_packed_for_wrap packed scored usable policy nonce (wrap_aware_costs scored policy nonce)"
  shows "set (pm_memories res) \<subseteq> set scored \<and> distinct (map memory_id (pm_memories res)) \<and>
    selection_cost policy nonce (pm_memories res) \<le> usable"
proof -
  obtain rem dropped where d: "drop_until_wrap_fits (pm_memories packed) usable ?ctx {} = (rem, dropped)" by fastforce
  note rem = drop_until_parts [OF d]
  define out where "out = greedy_wrap_refill rem scored usable ?ctx"
  have out: "set rem \<subseteq> set out" "set out \<subseteq> set rem \<union> set scored" "distinct (map memory_id out)"
    "out = [] \<or> selection_fits_budget out usable ?ctx"
    using wrap_refill_parts [OF refl, of rem usable ?ctx "sort_key score_key scored"] rem packed(2)
    by (simp_all add: out_def greedy_wrap_refill_def)
  have sub: "set out \<subseteq> set scored" using out(2) rem packed(1) by blast
  have cost: "selection_cost policy nonce out \<le> usable"
  proof (cases "out = []")
    case False
    then show ?thesis using out(4) selection_fits_iff [OF ctx sub, of usable] by blast
  qed (use usable in \<open>simp add: selection_cost_def\<close>)
  let ?dropped = "dropped_after_refill rem out (pm_budget_excluded_ids packed) dropped"
  show ?thesis
  proof (cases "?dropped = {} \<and> length out = length (pm_memories packed)")
    case True
    then have "res = packed"
      using usable d by (simp add: res trim_packed_for_wrap_def out_def Let_def)
    moreover have "dropped \<subseteq> memory_id ` set out"
      using True by (auto simp: dropped_after_refill_def)
    then have "memory_id ` set (pm_memories packed) \<subseteq> memory_id ` set out"
      using rem out(1) by blast
    then have "selection_cost policy nonce (pm_memories packed) = selection_cost policy nonce out"
      using True ctx packed sub out(3) by (intro same_ids_same_cost [of scored]) (auto simp: trim_context_def)
    ultimately show ?thesis using packed cost by simp
  next
    case False
    then have "pm_memories res = out"
      using usable d by (auto simp: res trim_packed_for_wrap_def rebuild_after_wrap_trim_def out_def Let_def)
    then show ?thesis using sub out(3) cost by simp
  qed
qed

lemma pack_scored_sound:
  fixes scored :: "'v :: {linorder, plus, zero, uminus} scored_memory list"
  assumes "supported policy" "distinct (map memory_id scored)"
  shows "\<exists>pm. pack_scored settings scored usable policy = Inr pm \<and>
    set (pm_memories pm) \<subseteq> set scored \<and> distinct (map memory_id (pm_memories pm)) \<and>
    selection_cost policy (representative_nonce (cs_formatter_nonce_bytes settings)) (pm_memories pm) \<le> max 0 usable"
proof -
  let ?n = "representative_nonce (cs_formatter_nonce_bytes settings)"
  let ?costs = "wrap_aware_costs scored policy ?n"
  let ?cfg = "make_packer settings policy"
  have "tp_estimate_kind (pk_policy ?cfg) \<in> {ESTIMATE_CHARS_DIV_4, ESTIMATE_RUNES_DIV_3_5}"
    using assms(1) by (auto simp: make_packer_def supported_def)
  moreover have "\<And>costs x c. Some ?costs = Some costs \<Longrightarrow> costs x = Some c \<Longrightarrow> 0 \<le> c"
    using wrap_aware_costs_Some [OF assms(1)] by auto
  ultimately obtain packed where p: "pack ?cfg scored usable (Some ?costs) = Inr packed"
    "mset (pm_memories packed) \<subseteq># mset scored" "usable \<le> 0 \<longrightarrow> pm_memories packed = []"
    using pack_sound [of ?cfg "Some ?costs" scored usable] by blast
  define pm where "pm = trim_packed_for_wrap packed scored usable policy ?n ?costs"
  have ps: "pack_scored settings scored usable policy = Inr pm"
    using p(1) by (simp add: pack_scored_def pm_def Let_def)
  have sub: "set (pm_memories packed) \<subseteq> set scored" by (rule set_mset_mono [OF p(2), simplified])
  have "image_mset memory_id (mset (pm_memories packed)) \<subseteq># image_mset memory_id (mset scored)"
    using p(2) by (rule image_mset_subseteq_mono)
  then have dist: "distinct (map memory_id (pm_memories packed))"
    using assms(2) distinct_submset [of "map memory_id (pm_memories packed)" "map memory_id scored"]
    by (simp del: distinct_map)
  show ?thesis
  proof (cases "0 < usable")
    case True
    have "trim_context policy ?n scored \<lparr>wc_policy = policy, wc_nonce = ?n, wc_estimates = pm_token_estimates packed,
        wc_cost_by_id = Some ?costs\<rparr>"
      using pack_estimates [OF p(1) assms(2)] assms
      by (auto simp: trim_context_def tokens_of_def make_packer_def estimate_tokens_eq)
    from trim_fits [OF this sub dist True pm_def] show ?thesis using ps True by auto
  next
    case False
    then have "pm = packed" "pm_memories packed = []" using p(3) by (simp_all add: pm_def trim_packed_for_wrap_def)
    then show ?thesis using ps by (simp add: selection_cost_def)
  qed
qed


section \<open>Lengths of the sections\<close>

definition len_opt :: "string option \<Rightarrow> nat" where
  "len_opt x = (case x of None \<Rightarrow> 0 | Some s \<Rightarrow> length s)"

lemma escape_token: "escape_attr (token_urlsafe rnd) = token_urlsafe rnd"
  unfolding escape_attr_def by (rule escape_plain [OF set_token_urlsafe])

lemma escape_representative: "escape_attr (representative_nonce k) = representative_nonce k"
  unfolding escape_attr_def by (rule escape_plain) (auto simp: representative_nonce_def Let_def b64_alphabet_def)

lemma length_representative:
  "formatter_ok k \<Longrightarrow> int (length rnd) = k \<Longrightarrow> length (representative_nonce k) = length (token_urlsafe rnd)"
  by (auto simp: formatter_ok_def representative_nonce_def length_token_urlsafe MAX_NONCE_BYTES_def Let_def)

lemma length_wrap_memory:
  "length (escape_attr n) = length (escape_attr n') \<Longrightarrow> length (wrap_memory n m) = length (wrap_memory n' m)"
  by (simp add: wrap_memory_def serialize_memory_element_def memory_open_tag_def)

lemma memory_section_cost:
  fixes ms :: "'v scored_memory list"
  assumes "\<And>m :: 'v scored_memory. length (wrap_memory n m) = length (wrap_memory n' m)"
  shows "est policy (len_opt (format_memories ms n)) \<le> selection_cost policy n' ms"
proof (cases "ms = []")
  case False
  have "est policy (len_opt (format_memories ms n)) = est policy (length (py_join NL (map (wrap_memory n) (locked_order ms))))"
    using False by (simp add: len_opt_def format_memories_def emit_ordered_memory_blocks_def emitted_order_locked)
  also have "\<dots> \<le> sum_list (map (\<lambda>m. est policy (length (wrap_memory n m))) (locked_order ms)) + int (length ms - 1) * est policy 1"
    using est_join [of policy "map (wrap_memory n) (locked_order ms)"] by (simp add: comp_def length_locked_order)
  also have "sum_list (map (\<lambda>m. est policy (length (wrap_memory n m))) (locked_order ms))
      = sum_list (map (\<lambda>m. est policy (length (wrap_memory n m))) ms)"
    unfolding sum_mset_sum_list [symmetric] by (simp add: mset_locked_order)
  also have "\<dots> \<le> sum_list (map (full_cost policy n') ms)"
    by (rule sum_list_mono) (simp add: full_cost_def assms)
  finally show ?thesis by (simp add: selection_cost_def)
qed (simp add: len_opt_def format_memories_def selection_cost_def)

lemma length_py_strip: "length (py_strip s) \<le> length s"
  unfolding py_strip_def py_lstrip_def by (metis length_dropWhile_le length_rev order_trans)

lemma directive_section_length:
  assumes "length (escape_attr n) = length n'"
  shows "len_opt (format_directive d n) \<le> length (case d of Some d \<Rightarrow> rd_content d | None \<Rightarrow> [])
    + length (directive_safety_overhead_text (py_strip (case d of Some d \<Rightarrow> rd_content d | None \<Rightarrow> []) \<noteq> []) n')"
proof (cases d)
  case (Some dir)
  then show ?thesis
    using assms length_py_strip [of "rd_content dir"]
    by (simp add: len_opt_def format_directive_def directive_safety_overhead_text_def DIRECTIVE_SAFETY_PREFIX_def
        DIRECTIVE_SAFETY_SUFFIX_def memory_open_tag_for_estimate_def memory_open_tag_def MEMORY_TAG_def Let_def)
qed (simp add: len_opt_def format_directive_def)

lemma join_drop_length:
  "length (py_join NL (concat (map (\<lambda>x. if P x then [] else [f x]) xs))) \<le> length (py_join NL (map g xs))"
  if "\<And>x. length (f x) \<le> length (g x)"
proof -
  have "sum_list (map length (concat (map (\<lambda>x. if P x then [] else [f x]) xs))) \<le> sum_list (map length (map g xs))"
    using that by (induction xs) (auto intro: add_mono order_trans)
  moreover have "length (concat (map (\<lambda>x. if P x then [] else [f x]) xs)) \<le> length (map g xs)"
    by (induction xs) auto
  ultimately show ?thesis by (simp add: length_py_join)
qed

lemma history_section_length: "len_opt (format_history msgs) \<le> length (concat_messages msgs)"
proof -
  have "length (py_join NL (history_lines msgs)) \<le> length (concat_messages msgs)"
    unfolding history_lines_def concat_messages_def Let_def
    by (rule join_drop_length) (simp add: length_py_strip)
  then show ?thesis by (simp add: len_opt_def format_history_def Let_def)
qed

lemma tools_section_length: "len_opt (format_tools ts) = length (format_tools_text ts)"
  by (simp add: len_opt_def format_tools_def format_tools_text_def Let_def)

lemma history_section_present: "format_history msgs \<noteq> None \<Longrightarrow> msgs \<noteq> []"
  by (auto simp: format_history_def history_lines_def Let_def)

lemma tools_section_present: "format_tools ts \<noteq> None \<longleftrightarrow> format_tools_text ts \<noteq> []"
proof -
  have "py_join NL (filter (\<lambda>s. py_strip s \<noteq> []) ts) \<noteq> []" if some: "filter (\<lambda>s. py_strip s \<noteq> []) ts \<noteq> []"
  proof -
    obtain x xs where x: "filter (\<lambda>s. py_strip s \<noteq> []) ts = x # xs" using some by (meson neq_Nil_conv)
    then have "x \<in> set (filter (\<lambda>s. py_strip s \<noteq> []) ts)" by simp
    then have "py_strip x \<noteq> []" by simp
    then have "x \<noteq> []" using length_py_strip [of x] by auto
    then show ?thesis by (simp add: x py_join_Cons)
  qed
  then show ?thesis by (auto simp: format_tools_def format_tools_text_def Let_def)
qed

lemma directive_section_present:
  "format_directive d n \<noteq> None \<longleftrightarrow> py_strip (case d of Some d \<Rightarrow> rd_content d | None \<Rightarrow> []) \<noteq> []"
  by (auto simp: format_directive_def py_strip_def py_lstrip_def Let_def split: option.split)

lemma joined_length:
  "length (py_join (NL @ NL) (opt_list a @ opt_list b @ opt_list c @ opt_list d)) =
     len_opt a + len_opt b + len_opt c + len_opt d
     + 2 * (length (opt_list a @ opt_list b @ opt_list c @ opt_list d) - 1)"
  by (simp add: length_py_join opt_list_def len_opt_def split: option.split)

lemma assembled_length:
  assumes "length (escape_attr n) = length n'"
  defines "text d \<equiv> (case d of Some d \<Rightarrow> rd_content d | None \<Rightarrow> [])"
  shows "length (py_join (NL @ NL) (opt_list (format_directive d n) @ opt_list (format_history msgs)
      @ opt_list mem @ opt_list (format_tools ts)))
    \<le> length (text d) + length (formatter_fixed_overhead_text (py_strip (text d) \<noteq> []) (msgs \<noteq> []) (format_tools_text ts \<noteq> []) n')
      + length (concat_messages msgs) + len_opt mem + length (format_tools_text ts)"
proof -
  let ?dir = "format_directive d n" and ?his = "format_history msgs" and ?too = "format_tools ts"
  define j where "j a b c = min MAX_SECTION_JOINS (length (filter (\<lambda>b. b) [a, b, True, c]) - 1)" for a b c
  have joins: "length (opt_list ?dir @ opt_list ?his @ opt_list mem @ opt_list ?too) - 1
      \<le> j (?dir \<noteq> None) (msgs \<noteq> []) (?too \<noteq> None)"
    using history_section_present [of msgs]
    by (cases ?dir; cases ?his; cases mem; cases ?too; simp add: opt_list_def MAX_SECTION_JOINS_def j_def)
  have "length (formatter_fixed_overhead_text a b c n') = length (directive_safety_overhead_text a n') + 2 * j a b c" for a b c
    by (simp add: formatter_fixed_overhead_text_def length_concat map_replicate_const sum_list_replicate Let_def j_def)
  then have overhead: "length (formatter_fixed_overhead_text (py_strip (text d) \<noteq> []) (msgs \<noteq> []) (format_tools_text ts \<noteq> []) n')
      = length (directive_safety_overhead_text (py_strip (text d) \<noteq> []) n') + 2 * j (?dir \<noteq> None) (msgs \<noteq> []) (?too \<noteq> None)"
    unfolding text_def directive_section_present tools_section_present by simp
  show ?thesis
    unfolding joined_length overhead
    using mult_le_mono2 [OF joins, of 2] directive_section_length [OF assms(1), of d, folded text_def]
      history_section_length [of msgs] tools_section_length [of ts] by linarith
qed

section \<open>The assembled text fits\<close>

lemma score_candidates_distinct:
  assumes "score_candidates r options level = Inr scored"
  shows "distinct (map memory_id scored)"
proof (cases "level = L2")
  case False
  then obtain all where s: "score_retrieval_hits (rs_hot_memories r @ rs_cold_memories r) = Inr all"
    and "scored = all \<or> scored = take (nat (ao_max_memories options)) all"
    using assms by (auto simp: score_candidates_def split: if_splits)
  moreover have "distinct (map memory_id all)"
    by (rule score_retrieval_hits_Inr [OF s])
  ultimately show ?thesis by (auto simp: take_map [symmetric] simp del: distinct_map)
qed (use assms in \<open>simp add: score_candidates_def\<close>)

lemma apply_available_fields:
  "tb_context_window (apply_available_tokens b a) = tb_context_window b"
  "tb_response_reserve (apply_available_tokens b a) = tb_response_reserve b"
  "tb_safety_buffer (apply_available_tokens b a) = tb_safety_buffer b"
  "tb_directive_tokens (apply_available_tokens b a) = tb_directive_tokens b"
  "tb_messages_tokens (apply_available_tokens b a) = tb_messages_tokens b"
  "tb_tool_schemas_tokens (apply_available_tokens b a) = tb_tool_schemas_tokens b"
  "tb_formatter_overhead_tokens (apply_available_tokens b a) = tb_formatter_overhead_tokens b"
  "tb_usable_budget (apply_available_tokens b a) \<le> tb_usable_budget b"
  by (simp_all add: apply_available_tokens_def)

lemma nonce_lengths:
  "formatter_ok k \<Longrightarrow> int (length rnd) = k \<Longrightarrow>
   length (escape_attr (token_urlsafe rnd)) = length (representative_nonce k)"
  by (simp add: escape_token length_representative)

text \<open>The memory section of a packed selection fits the memory budget.\<close>

lemma packed_section_fits:
  fixes scored :: "'v :: {linorder, plus, zero, uminus} scored_memory list"
  assumes "supported policy" "distinct (map memory_id scored)" "pack_scored settings scored usable policy = Inr packed"
    and "formatter_ok (cs_formatter_nonce_bytes settings)" "int (length rnd) = cs_formatter_nonce_bytes settings"
  shows "est policy (len_opt (format_memories (pm_memories packed) (token_urlsafe rnd))) \<le> max 0 usable"
proof -
  let ?rep = "representative_nonce (cs_formatter_nonce_bytes settings)"
  have wrap: "length (wrap_memory (token_urlsafe rnd) m) = length (wrap_memory ?rep m)" for m :: "'v scored_memory"
    by (intro length_wrap_memory) (simp add: escape_representative nonce_lengths [OF assms(4,5)])
  have "selection_cost policy ?rep (pm_memories packed) \<le> max 0 usable"
    using pack_scored_sound [OF assms(1,2), of settings usable] assms(3) by auto
  then show ?thesis
    using memory_section_cost [OF wrap, of policy "pm_memories packed"] by linarith
qed

text \<open>The successful runs of \<open>pack_and_format\<close>, step by step.\<close>

lemma pack_and_format_Inr:
  assumes "pack_and_format cat settings rnd req r level = Inr res"
  obtains b scored cap policy packed where
    "calculate cat \<lparr>bq_model = ar_model req, bq_messages = ar_recent_messages req,
       bq_directive = (case rs_directive r of Some d \<Rightarrow> rd_content d | None \<Rightarrow> []), bq_tool_schemas = ar_tool_schemas req,
       bq_nonce_bytes = cs_formatter_nonce_bytes settings\<rparr> = Inr b"
    "as_budget res = apply_available_tokens b (ar_available_tokens req)"
    "score_candidates r (ar_options req) level = Inr scored"
    "for_model cat (ar_model req) = Inr cap" "family_policy cat (cap_tokenizer_family cap) = Inr policy"
    "pack_scored settings scored (tb_usable_budget (as_budget res)) policy = Inr packed" "as_packed res = packed"
    "fc_assembled_context (as_formatted res) = py_join (NL @ NL)
       (opt_list (format_directive (rs_directive r) (token_urlsafe rnd)) @ opt_list (format_history (ar_recent_messages req))
        @ opt_list (format_memories (pm_memories packed) (token_urlsafe rnd)) @ opt_list (format_tools (ar_tool_schemas req)))"
    "as_memories_used res = memories_used scored packed policy"
  using assms unfolding pack_and_format_def
  by (auto simp: Let_def format_def split: if_splits)

text \<open>
  C8. What is assembled fits the window. When memories are packed with a nonce of the configured
  size, the estimate of the whole assembled text, with every tag, escape, separator and safety
  sentence, is at most what the window leaves after the response reserve and the safety buffer,
  whenever any memory budget was left; in general memories never push the text beyond what the
  prompt parts alone were estimated at. The caller's cap on the memory budget is respected.
\<close>

theorem assembled_context_fits:
  fixes r :: "'v :: linordered_field retrieval_result"
  assumes "pack_and_format cat settings rnd req r level = Inr res"
    and "for_model cat (ar_model req) = Inr cap" and "family_policy cat (cap_tokenizer_family cap) = Inr policy"
    and "formatter_ok (cs_formatter_nonce_bytes settings)" and "int (length rnd) = cs_formatter_nonce_bytes settings"
  shows "\<exists>t. estimate_tokens (fc_assembled_context (as_formatted res)) policy = Inr (t, tp_estimate_kind policy) \<and>
    t \<le> max (tb_context_window (as_budget res) - tb_response_reserve (as_budget res) - tb_safety_buffer (as_budget res))
         (tb_directive_tokens (as_budget res) + tb_messages_tokens (as_budget res)
          + tb_tool_schemas_tokens (as_budget res) + tb_formatter_overhead_tokens (as_budget res)) \<and>
    (0 < tb_usable_budget (as_budget res) \<longrightarrow>
       t \<le> tb_context_window (as_budget res) - tb_response_reserve (as_budget res) - tb_safety_buffer (as_budget res)) \<and>
    (0 < ar_available_tokens req \<longrightarrow> tb_usable_budget (as_budget res) \<le> ar_available_tokens req)"
proof -
  obtain b scored cap' policy' packed where
    calc: "calculate cat \<lparr>bq_model = ar_model req, bq_messages = ar_recent_messages req,
       bq_directive = (case rs_directive r of Some d \<Rightarrow> rd_content d | None \<Rightarrow> []), bq_tool_schemas = ar_tool_schemas req,
       bq_nonce_bytes = cs_formatter_nonce_bytes settings\<rparr> = Inr b"
    and budget: "as_budget res = apply_available_tokens b (ar_available_tokens req)"
    and scored: "score_candidates r (ar_options req) level = Inr scored"
    and pol: "for_model cat (ar_model req) = Inr cap'" "family_policy cat (cap_tokenizer_family cap') = Inr policy'"
    and packed: "pack_scored settings scored (tb_usable_budget (as_budget res)) policy' = Inr packed" "as_packed res = packed"
    and ctx: "fc_assembled_context (as_formatted res) = py_join (NL @ NL)
       (opt_list (format_directive (rs_directive r) (token_urlsafe rnd)) @ opt_list (format_history (ar_recent_messages req))
        @ opt_list (format_memories (pm_memories packed) (token_urlsafe rnd)) @ opt_list (format_tools (ar_tool_schemas req)))"
    and "as_memories_used res = memories_used scored packed policy'"
    by (rule pack_and_format_Inr [OF assms(1)])
  let ?rep = "representative_nonce (cs_formatter_nonce_bytes settings)"
  let ?dir = "case rs_directive r of Some d \<Rightarrow> rd_content d | None \<Rightarrow> []"
  have [simp]: "policy' = policy" using pol assms(2,3) by simp
  from calc have sup: "supported policy" and parts: "tb_directive_tokens b = est policy (length ?dir)"
    "tb_messages_tokens b = est policy (length (concat_messages (ar_recent_messages req)))"
    "tb_tool_schemas_tokens b = est policy (length (format_tools_text (ar_tool_schemas req)))"
    "tb_formatter_overhead_tokens b = est policy (length (formatter_fixed_overhead_text (py_strip ?dir \<noteq> [])
       (ar_recent_messages req \<noteq> []) (format_tools_text (ar_tool_schemas req) \<noteq> []) ?rep))"
    "tb_usable_budget b = max (tb_context_window b - tb_response_reserve b - tb_safety_buffer b
       - tb_directive_tokens b - tb_messages_tokens b - tb_tool_schemas_tokens b - tb_formatter_overhead_tokens b) 0"
    using assms(2,3) by (auto elim!: calculate_Inr)
  note nonce = nonce_lengths [OF assms(4,5)]
  have mem: "est policy (len_opt (format_memories (pm_memories packed) (token_urlsafe rnd))) \<le> max 0 (tb_usable_budget (as_budget res))"
    using packed(1) by (intro packed_section_fits [OF sup score_candidates_distinct [OF scored] _ assms(4,5)]) simp
  let ?mem = "len_opt (format_memories (pm_memories packed) (token_urlsafe rnd))"
  let ?over = "length (formatter_fixed_overhead_text (py_strip ?dir \<noteq> []) (ar_recent_messages req \<noteq> [])
    (format_tools_text (ar_tool_schemas req) \<noteq> []) ?rep)"
  define t where "t = est policy (length (fc_assembled_context (as_formatted res)))"
  have "t \<le> est policy (sum_list [length ?dir, ?over, length (concat_messages (ar_recent_messages req)), ?mem,
      length (format_tools_text (ar_tool_schemas req))])"
    unfolding t_def ctx using assembled_length [OF nonce, of "rs_directive r" "ar_recent_messages req"
      "format_memories (pm_memories packed) (token_urlsafe rnd)" "ar_tool_schemas req"]
    by (intro est_mono) (simp only: sum_list.Cons sum_list.Nil add_0_right ac_simps)
  also have "\<dots> \<le> tb_directive_tokens b + tb_formatter_overhead_tokens b + tb_messages_tokens b
      + max 0 (tb_usable_budget (as_budget res)) + tb_tool_schemas_tokens b"
    using est_sum [of policy "[length ?dir, ?over, length (concat_messages (ar_recent_messages req)), ?mem,
      length (format_tools_text (ar_tool_schemas req))]"] mem by (simp add: parts(1-4))
  finally have t: "t \<le> tb_directive_tokens b + tb_formatter_overhead_tokens b + tb_messages_tokens b
      + max 0 (tb_usable_budget (as_budget res)) + tb_tool_schemas_tokens b" .
  have le: "tb_usable_budget (as_budget res) \<le> tb_usable_budget b" by (simp add: budget apply_available_fields)
  moreover have "estimate_tokens (fc_assembled_context (as_formatted res)) policy = Inr (t, tp_estimate_kind policy)"
    by (simp add: estimate_tokens_eq sup t_def)
  moreover have "0 < ar_available_tokens req \<longrightarrow> tb_usable_budget (as_budget res) \<le> ar_available_tokens req"
    by (auto simp: budget apply_available_tokens_def)
  ultimately show ?thesis
    using t parts(5) by (intro exI [of _ t]) (auto simp: budget apply_available_fields)
qed


section \<open>When assembly returns\<close>

lemma score_candidates_total:
  assumes "\<forall>h\<in>set (rs_hot_memories r) \<union> set (rs_cold_memories r). in_unit h"
  shows "\<exists>scored. score_candidates r options level = Inr scored"
proof -
  obtain scored where "score_retrieval_hits (rs_hot_memories r @ rs_cold_memories r) = Inr scored"
    using score_retrieval_hits_total [of "rs_hot_memories r @ rs_cold_memories r"] assms by auto
  then show ?thesis by (simp add: score_candidates_def)
qed

lemma pack_and_format_total:
  fixes r :: "'v :: linordered_field retrieval_result"
  assumes "for_model cat (ar_model req) = Inr cap" and "family_policy cat (cap_tokenizer_family cap) = Inr policy"
    and "supported policy" and "rnd \<noteq> []" and "score_candidates r (ar_options req) level = Inr scored"
  shows "\<exists>res. pack_and_format cat settings rnd req r level = Inr res"
proof -
  obtain b where "calculate cat \<lparr>bq_model = ar_model req, bq_messages = ar_recent_messages req,
      bq_directive = (case rs_directive r of Some d \<Rightarrow> rd_content d | None \<Rightarrow> []), bq_tool_schemas = ar_tool_schemas req,
      bq_nonce_bytes = cs_formatter_nonce_bytes settings\<rparr> = Inr b"
    using calculate_total [OF _ assms(2,3)] assms(1) by fastforce
  moreover obtain pm where "pack_scored settings scored (tb_usable_budget (apply_available_tokens b (ar_available_tokens req))) policy = Inr pm"
    using pack_scored_sound [OF assms(3) score_candidates_distinct [OF assms(5)]] by blast
  moreover have "token_urlsafe rnd \<noteq> []"
    using length_token_urlsafe [of rnd] assms(4) by (cases rnd) auto
  ultimately show ?thesis
    using assms(1,2,5) by (simp add: pack_and_format_def Let_def format_def)
qed

lemma level_L2_no_hits:
  assumes "usable_branch rq (rs_hot_outcome r) (rs_hot_memories r)" "usable_branch rq (rs_cold_outcome r) (rs_cold_memories r)"
    and "fst (classify_degradation (apply_skip_options r options) options) = L2"
  shows "rs_hot_memories (apply_skip_options r options) = [] \<and> rs_cold_memories (apply_skip_options r options) = []"
  using assms by (auto simp: classify_degradation_def apply_skip_options_def source_usable_def usable_branch_def
      Let_def split: if_splits)

lemma assemble_run:
  "assemble cat settings env rnd req =
     sum_bind (retrieve cat env \<lparr>rr_org_id = ar_org_id req, rr_agent_id = ar_agent_id req, rr_query = ar_query req,
       rr_model = ar_model req, rr_recent_messages = ar_recent_messages req\<rparr>) (\<lambda>r.
     pack_and_format cat settings rnd req (apply_skip_options r (ar_options req))
       (fst (classify_degradation (apply_skip_options r (ar_options req)) (ar_options req))))"
  by (simp add: assemble_def Let_def split_beta)

text \<open>
  C32. Assembly for a known model fails only on a similarity outside \<open>[0, 1]\<close>. The memory client
  accepts any finite similarity and scoring raises on one outside the unit interval, so a single
  such hit, from a branch that was not skipped, makes the whole assembly raise instead of
  degrading; with all similarities in range it returns, whatever else went wrong.
\<close>

theorem assembly_returns_iff_similarities:
  fixes r :: "'v :: linordered_field retrieval_result"
  assumes "for_model cat (ar_model req) = Inr cap" and "family_policy cat (cap_tokenizer_family cap) = Inr policy"
    and "supported policy" and "rnd \<noteq> []"
    and "retrieve cat env \<lparr>rr_org_id = ar_org_id req, rr_agent_id = ar_agent_id req, rr_query = ar_query req,
       rr_model = ar_model req, rr_recent_messages = ar_recent_messages req\<rparr> = Inr r"
    and "hits = rs_hot_memories (apply_skip_options r (ar_options req)) @ rs_cold_memories (apply_skip_options r (ar_options req))"
  shows "(\<exists>res. assemble cat settings env rnd req = Inr res) \<longleftrightarrow> (\<forall>h\<in>set hits. 0 \<le> mh_similarity h \<and> mh_similarity h \<le> 1)"
proof -
  let ?r = "apply_skip_options r (ar_options req)"
  let ?level = "fst (classify_degradation ?r (ar_options req))"
  note branches = retrieve_Inr [OF assms(5)]
  have run: "assemble cat settings env rnd req = pack_and_format cat settings rnd req ?r ?level"
    using assms(5) by (simp add: assemble_run)
  have unit: "in_unit h \<longleftrightarrow> 0 \<le> mh_similarity h \<and> mh_similarity h \<le> 1" if "h \<in> set hits" for h
    using that branches unfolding assms(6)
    by (auto simp: usable_branch_def in_unit_def apply_skip_options_def split: if_splits)
  show ?thesis
  proof
    assume "\<exists>res. assemble cat settings env rnd req = Inr res"
    then obtain scored where s: "score_candidates ?r (ar_options req) ?level = Inr scored"
      unfolding run by (blast elim: pack_and_format_Inr)
    show "\<forall>h\<in>set hits. 0 \<le> mh_similarity h \<and> mh_similarity h \<le> 1"
    proof (cases "?level = L2")
      case True
      then show ?thesis using level_L2_no_hits [OF branches(1,2)] by (simp add: assms(6))
    next
      case False
      then have "\<exists>all. score_retrieval_hits hits = Inr all"
        using s by (auto simp: score_candidates_def assms(6))
      then show ?thesis using score_retrieval_hits_total [of hits] unit by blast
    qed
  next
    assume "\<forall>h\<in>set hits. 0 \<le> mh_similarity h \<and> mh_similarity h \<le> 1"
    then have "\<forall>h\<in>set hits. in_unit h" using unit by blast
    then have "\<exists>scored. score_candidates ?r (ar_options req) ?level = Inr scored"
      by (intro score_candidates_total) (simp add: assms(6))
    then obtain scored where "score_candidates ?r (ar_options req) ?level = Inr scored" ..
    then show "\<exists>res. assemble cat settings env rnd req = Inr res"
      unfolding run by (rule pack_and_format_total [OF assms(1-4)])
  qed
qed

section \<open>Whose memories are assembled\<close>

lemma assemble_Inr:
  assumes "assemble cat settings env rnd req = Inr res"
  obtains r scored policy where
    "retrieve cat env \<lparr>rr_org_id = ar_org_id req, rr_agent_id = ar_agent_id req, rr_query = ar_query req,
       rr_model = ar_model req, rr_recent_messages = ar_recent_messages req\<rparr> = Inr r"
    "as_retrieval res = apply_skip_options r (ar_options req)"
    "score_candidates (as_retrieval res) (ar_options req)
       (fst (classify_degradation (as_retrieval res) (ar_options req))) = Inr scored"
    "supported policy" "pack_scored settings scored (tb_usable_budget (as_budget res)) policy = Inr (as_packed res)"
    "as_memories_used res = memories_used scored (as_packed res) policy"
proof -
  obtain r where r: "retrieve cat env \<lparr>rr_org_id = ar_org_id req, rr_agent_id = ar_agent_id req, rr_query = ar_query req,
      rr_model = ar_model req, rr_recent_messages = ar_recent_messages req\<rparr> = Inr r"
    and run: "pack_and_format cat settings rnd req (apply_skip_options r (ar_options req))
      (fst (classify_degradation (apply_skip_options r (ar_options req)) (ar_options req))) = Inr res"
    using assms by (auto simp: assemble_run)
  have "as_retrieval res = apply_skip_options r (ar_options req)"
    using run by (auto simp: pack_and_format_def Let_def)
  from run show thesis
  proof (rule pack_and_format_Inr)
    fix b scored cap policy packed
    assume "calculate cat \<lparr>bq_model = ar_model req, bq_messages = ar_recent_messages req,
        bq_directive = (case rs_directive (apply_skip_options r (ar_options req)) of Some d \<Rightarrow> rd_content d | None \<Rightarrow> []),
        bq_tool_schemas = ar_tool_schemas req, bq_nonce_bytes = cs_formatter_nonce_bytes settings\<rparr> = Inr b"
      and "for_model cat (ar_model req) = Inr cap" "family_policy cat (cap_tokenizer_family cap) = Inr policy"
    then have "supported policy" by (auto elim!: calculate_Inr)
    moreover assume "score_candidates (apply_skip_options r (ar_options req)) (ar_options req)
        (fst (classify_degradation (apply_skip_options r (ar_options req)) (ar_options req))) = Inr scored"
      "pack_scored settings scored (tb_usable_budget (as_budget res)) policy = Inr packed" "as_packed res = packed"
      "as_memories_used res = memories_used scored packed policy"
    ultimately show thesis
      using that [OF r] \<open>as_retrieval res = apply_skip_options r (ar_options req)\<close> by metis
  qed
qed

lemma score_candidates_hits:
  assumes "score_candidates r options level = Inr scored" "m \<in> set scored"
  obtains h where "h \<in> set (rs_hot_memories r) \<union> set (rs_cold_memories r)"
    "sm_hit m = h\<lparr>mh_conflict_groups := mh_conflict_groups (sm_hit m)\<rparr>"
proof -
  obtain all where all: "score_retrieval_hits (rs_hot_memories r @ rs_cold_memories r) = Inr all" and "m \<in> set all"
    using assms by (auto simp: score_candidates_def split: if_splits dest: in_set_takeD)
  then have "\<exists>h\<in>set (rs_hot_memories r @ rs_cold_memories r). sm_hit m = h\<lparr>mh_conflict_groups := mh_conflict_groups (sm_hit m)\<rparr>"
    using scored_candidates_sound [OF all] by blast
  then show thesis using that by auto
qed

lemma assembled_sound:
  fixes res :: "'v :: linordered_field assembly_result"
  assumes "assemble cat settings env rnd req = Inr res"
  shows "(\<forall>m\<in>set (pm_memories (as_packed res)).
      mh_org_id (sm_hit m) = uuid_str (ar_org_id req) \<and> mh_agent_id (sm_hit m) = uuid_str (ar_agent_id req)) \<and>
    distinct (map memory_id (pm_memories (as_packed res))) \<and>
    (\<forall>a\<in>set (rs_hot_memories (as_retrieval res) @ rs_cold_memories (as_retrieval res)).
     \<forall>b\<in>set (rs_hot_memories (as_retrieval res) @ rs_cold_memories (as_retrieval res)).
       mh_memory_id a \<noteq> mh_memory_id b \<and> hit_groups a \<inter> hit_groups b \<noteq> {} \<longrightarrow>
       \<not> (mh_memory_id a \<in> memory_id ` set (pm_memories (as_packed res)) \<and>
          mh_memory_id b \<in> memory_id ` set (pm_memories (as_packed res))))"
  (is "?own \<and> ?dist \<and> ?conf")
proof -
  obtain r scored policy where r: "retrieve cat env \<lparr>rr_org_id = ar_org_id req, rr_agent_id = ar_agent_id req,
      rr_query = ar_query req, rr_model = ar_model req, rr_recent_messages = ar_recent_messages req\<rparr> = Inr r"
    and skip: "as_retrieval res = apply_skip_options r (ar_options req)"
    and scored: "score_candidates (as_retrieval res) (ar_options req)
      (fst (classify_degradation (as_retrieval res) (ar_options req))) = Inr scored"
    and policy: "supported policy"
    and packed: "pack_scored settings scored (tb_usable_budget (as_budget res)) policy = Inr (as_packed res)"
    and "as_memories_used res = memories_used scored (as_packed res) policy"
    by (rule assemble_Inr [OF assms])
  have sub: "set (pm_memories (as_packed res)) \<subseteq> set scored" and dist: ?dist
    using pack_scored_sound [OF policy score_candidates_distinct [OF scored], of settings "tb_usable_budget (as_budget res)"] packed
    by auto
  have own: "own_hit \<lparr>rr_org_id = ar_org_id req, rr_agent_id = ar_agent_id req, rr_query = ar_query req,
      rr_model = ar_model req, rr_recent_messages = ar_recent_messages req\<rparr> h"
    if "h \<in> set (rs_hot_memories (as_retrieval res)) \<union> set (rs_cold_memories (as_retrieval res))" for h
    using that retrieve_Inr(1,2) [OF r] by (auto simp: skip apply_skip_options_def usable_branch_def split: if_splits)
  have ?own
  proof
    fix m assume "m \<in> set (pm_memories (as_packed res))"
    with sub have "m \<in> set scored" by blast
    with scored obtain h where "h \<in> set (rs_hot_memories (as_retrieval res)) \<union> set (rs_cold_memories (as_retrieval res))"
      and m: "sm_hit m = h\<lparr>mh_conflict_groups := mh_conflict_groups (sm_hit m)\<rparr>"
      by (rule score_candidates_hits)
    then have "mh_org_id h = uuid_str (ar_org_id req)" "mh_agent_id h = uuid_str (ar_agent_id req)"
      using own [of h] by (auto simp: own_hit_def)
    then show "mh_org_id (sm_hit m) = uuid_str (ar_org_id req) \<and> mh_agent_id (sm_hit m) = uuid_str (ar_agent_id req)"
      by (subst (1 2) m) simp
  qed
  moreover have ?conf
  proof (cases "scored = []")
    case True
    then show ?thesis using sub by simp
  next
    case False
    then obtain all where all: "score_retrieval_hits (rs_hot_memories (as_retrieval res) @ rs_cold_memories (as_retrieval res)) = Inr all"
      and "set scored \<subseteq> set all"
      using scored by (auto simp: score_candidates_def split: if_splits dest: in_set_takeD)
    then have "memory_id ` set (pm_memories (as_packed res)) \<subseteq> memory_id ` set all"
      using sub by (intro image_mono) simp
    then show ?thesis
      using scored_candidates_sound [OF all, THEN conjunct1] by (meson subset_iff)
  qed
  ultimately show ?thesis using dist by blast
qed


lemma assembled_own_hits:
  "assemble cat settings env rnd req = Inr res \<Longrightarrow> \<forall>m\<in>set (pm_memories (as_packed res)).
     mh_org_id (sm_hit m) = uuid_str (ar_org_id req) \<and> mh_agent_id (sm_hit m) = uuid_str (ar_agent_id req)"
  using assembled_sound [THEN conjunct1] .

text \<open>
  C37. Only the requester's memories reach the prompt, and never both sides of a conflict. Every
  packed memory has the organisation and agent of the request, no memory is packed twice, and of
  two retrieved hits with different identifiers and a common conflict group at most one is packed.
\<close>

theorem assembled_memories_own_tenant:
  fixes res :: "'v :: linordered_field assembly_result"
  assumes "assemble cat settings env rnd req = Inr res"
  shows "(\<forall>m\<in>set (pm_memories (as_packed res)).
      mh_org_id (sm_hit m) = uuid_str (ar_org_id req) \<and> mh_agent_id (sm_hit m) = uuid_str (ar_agent_id req)) \<and>
    distinct (map memory_id (pm_memories (as_packed res))) \<and>
    (\<forall>a\<in>set (rs_hot_memories (as_retrieval res) @ rs_cold_memories (as_retrieval res)).
     \<forall>b\<in>set (rs_hot_memories (as_retrieval res) @ rs_cold_memories (as_retrieval res)).
       mh_memory_id a \<noteq> mh_memory_id b \<and> hit_groups a \<inter> hit_groups b \<noteq> {} \<longrightarrow>
       \<not> (mh_memory_id a \<in> memory_id ` set (pm_memories (as_packed res)) \<and>
          mh_memory_id b \<in> memory_id ` set (pm_memories (as_packed res))))"
  using assms by (rule assembled_sound)

lemma image_restrict: "I \<subseteq> f ` S \<Longrightarrow> f ` {u \<in> S. f u \<in> I} = I"
  by auto

text \<open>
  The report of an assembly tells the truth: every scored candidate has exactly one record, it
  is marked included exactly if its memory is in the prompt, every memory in the prompt has a
  record, and the reported count is the number of memory blocks.
\<close>

theorem memories_used_report:
  fixes res :: "'v :: linordered_field assembly_result"
  assumes "assemble cat settings env rnd req = Inr res"
  shows "(\<forall>u\<in>set (as_memories_used res).
      mu_exclusion u = ''included'' \<longleftrightarrow> mu_memory_id u \<in> memory_id ` set (pm_memories (as_packed res))) \<and>
    memory_id ` set (pm_memories (as_packed res)) \<subseteq> mu_memory_id ` set (as_memories_used res) \<and>
    distinct (map mu_memory_id (as_memories_used res)) \<and>
    fc_memories_included (as_formatted res) = int (card (mu_memory_id ` {u \<in> set (as_memories_used res). mu_exclusion u = ''included''}))"
proof -
  obtain r scored policy where r: "retrieve cat env \<lparr>rr_org_id = ar_org_id req, rr_agent_id = ar_agent_id req,
      rr_query = ar_query req, rr_model = ar_model req, rr_recent_messages = ar_recent_messages req\<rparr> = Inr r"
    and "as_retrieval res = apply_skip_options r (ar_options req)"
    and scored: "score_candidates (as_retrieval res) (ar_options req)
      (fst (classify_degradation (as_retrieval res) (ar_options req))) = Inr scored"
    and policy: "supported policy"
    and packed: "pack_scored settings scored (tb_usable_budget (as_budget res)) policy = Inr (as_packed res)"
    and used: "as_memories_used res = memories_used scored (as_packed res) policy"
    by (rule assemble_Inr [OF assms])
  let ?ids = "memory_id ` set (pm_memories (as_packed res))"
  note d = score_candidates_distinct [OF scored]
  have sub: "set (pm_memories (as_packed res)) \<subseteq> set scored" and dist: "distinct (map memory_id (pm_memories (as_packed res)))"
    using pack_scored_sound [OF policy d, of settings "tb_usable_budget (as_budget res)"] packed by auto
  have ids: "map mu_memory_id (as_memories_used res) = map memory_id scored"
    by (simp add: used memories_used_def memory_used_def Let_def)
  have incl: "mu_exclusion u = ''included'' \<longleftrightarrow> mu_memory_id u \<in> ?ids" if "u \<in> set (as_memories_used res)" for u
    using that by (auto simp: used memories_used_def memory_used_def Let_def split: if_splits)
  have all: "?ids \<subseteq> mu_memory_id ` set (as_memories_used res)"
    using sub arg_cong [OF ids, of set] by auto
  have "{u \<in> set (as_memories_used res). mu_exclusion u = ''included''} = {u \<in> set (as_memories_used res). mu_memory_id u \<in> ?ids}"
    using incl by blast
  then have "mu_memory_id ` {u \<in> set (as_memories_used res). mu_exclusion u = ''included''} = ?ids"
    using image_restrict [OF all] by simp
  moreover have "fc_memories_included (as_formatted res) = int (length (pm_memories (as_packed res)))"
    using assms by (auto simp: assemble_run pack_and_format_def Let_def format_def split: if_splits)
  moreover have "card ?ids = length (pm_memories (as_packed res))"
    using dist by (metis distinct_card length_map list.set_map)
  ultimately have "fc_memories_included (as_formatted res)
      = int (card (mu_memory_id ` {u \<in> set (as_memories_used res). mu_exclusion u = ''included''}))"
    by simp
  moreover have "distinct (map mu_memory_id (as_memories_used res))" using d by (simp only: ids)
  ultimately show ?thesis using incl all by blast
qed

section \<open>An example\<close>

definition sample_settings :: context_settings where
  "sample_settings = \<lparr>cs_packer_dp_cell_ceiling = 437570, cs_packer_max_consecutive_skips = 5, cs_formatter_nonce_bytes = 16\<rparr>"

definition sample_assemble :: assemble_request where
  "sample_assemble = \<lparr>ar_org_id = 1, ar_agent_id = 2, ar_query = [], ar_model = ''m'', ar_recent_messages = [],
     ar_session_id = [], ar_directive_version_id = [], ar_request_id = [], ar_trace_id = [], ar_span_id = [],
     ar_available_tokens = 100, ar_options = \<lparr>ao_skip_cold_memories = False, ao_skip_hot_memories = False, ao_max_memories = 0\<rparr>,
     ar_tool_schemas = []\<rparr>"

abbreviation sample_bytes :: "nat list" where "sample_bytes \<equiv> replicate 16 7"

abbreviation sample_request :: retrieval_request where
  "sample_request \<equiv> \<lparr>rr_org_id = ar_org_id sample_assemble, rr_agent_id = ar_agent_id sample_assemble,
     rr_query = ar_query sample_assemble, rr_model = ar_model sample_assemble,
     rr_recent_messages = ar_recent_messages sample_assemble\<rparr>"

lemma sample_model:
  "for_model demo_catalog (ar_model sample_assemble) = Inr demo_model" "supported demo_policy"
  by (simp_all add: for_model_def demo_catalog_def sample_assemble_def py_strip_def py_lstrip_def py_isspace_def
      supported_def demo_policy_def)

lemma sample_retrieve:
  "\<exists>r. retrieve demo_catalog (sample_env 1) sample_request = Inr r \<and> rs_cold_memories r = [] \<and>
     map mh_similarity (rs_hot_memories r) = [1]"
proof -
  let ?q = "\<lparr>bq_model = rr_model sample_request, bq_messages = rr_recent_messages sample_request,
      bq_directive = [], bq_tool_schemas = [], bq_nonce_bytes = 16\<rparr>"
  have "for_model demo_catalog (bq_model ?q) = Inr demo_model" using sample_model(1) by simp
  from calculate_total [OF this demo_catalog_lookup(2) sample_model(2)]
  obtain b where "calculate demo_catalog ?q = Inr b" ..
  moreover have "execute (sample_page []) = Inr []"
    by (simp add: execute_def send_def sample_page_def results_list_def json_object_def json_get_def)
  ultimately show ?thesis
    using sample_execute [of 1]
    by (simp add: retrieve_def gather_branches_def merge_results_def result_for_task_def memory_branch_def sample_env_def
        success_memories_def foreign_hit_def sample_assemble_def)
qed

text \<open>The sample assembly returns, with one memory retrieved.\<close>

lemma sample_hits_unit:
  assumes "rs_cold_memories r = []" "map mh_similarity (rs_hot_memories r) = [1 :: rat]"
  shows "\<forall>h\<in>set (rs_hot_memories (apply_skip_options r (ar_options sample_assemble))
      @ rs_cold_memories (apply_skip_options r (ar_options sample_assemble))). 0 \<le> mh_similarity h \<and> mh_similarity h \<le> 1"
  using assms by (auto simp: apply_skip_options_def sample_assemble_def map_eq_Cons_conv)

theorem assembly_returns_iff_similarities_witness:
  "\<exists>res. assemble demo_catalog sample_settings (sample_env 1) sample_bytes sample_assemble = Inr res"
proof -
  obtain r where "retrieve demo_catalog (sample_env 1) sample_request = Inr r \<and> rs_cold_memories r = [] \<and>
      map mh_similarity (rs_hot_memories r) = [1]"
    using sample_retrieve ..
  then have r: "retrieve demo_catalog (sample_env 1) sample_request = Inr r" "rs_cold_memories r = []"
    "map mh_similarity (rs_hot_memories r) = [1]" by simp_all
  have "sample_bytes \<noteq> []" by simp
  from assembly_returns_iff_similarities [OF sample_model(1) demo_catalog_lookup(2) sample_model(2) this r(1) refl]
  show ?thesis using sample_hits_unit [OF r(2,3)] by (rule iffD2)
qed

lemma sample_assembly: "\<exists>res. assemble demo_catalog sample_settings (sample_env 1) sample_bytes sample_assemble = Inr res"
proof -
  obtain r where "retrieve demo_catalog (sample_env 1) sample_request = Inr r \<and> rs_cold_memories r = [] \<and>
      map mh_similarity (rs_hot_memories r) = [1]"
    using sample_retrieve ..
  then have r: "retrieve demo_catalog (sample_env 1) sample_request = Inr r" "rs_cold_memories r = []"
    "map mh_similarity (rs_hot_memories r) = [1]" by simp_all
  let ?r = "apply_skip_options r (ar_options sample_assemble)"
  have "\<forall>h\<in>set (rs_hot_memories ?r) \<union> set (rs_cold_memories ?r). in_unit h"
    using sample_hits_unit [OF r(2,3)] retrieve_Inr(1,2) [OF r(1)]
    by (auto simp: usable_branch_def in_unit_def apply_skip_options_def sample_assemble_def)
  from score_candidates_total [OF this]
  obtain scored where "score_candidates ?r (ar_options sample_assemble)
      (fst (classify_degradation ?r (ar_options sample_assemble))) = Inr scored" by blast
  from pack_and_format_total [OF sample_model(1) demo_catalog_lookup(2) sample_model(2) _ this, of sample_bytes sample_settings]
  show ?thesis using r(1) by (simp add: assemble_run)
qed

theorem assembled_memories_own_tenant_witness:
  "\<exists>res. assemble demo_catalog sample_settings (sample_env 1) sample_bytes sample_assemble = Inr res \<and>
     (\<forall>m\<in>set (pm_memories (as_packed res)). mh_org_id (sm_hit m) = uuid_str 1)"
proof -
  obtain res where res: "assemble demo_catalog sample_settings (sample_env 1) sample_bytes sample_assemble = Inr res"
    using sample_assembly ..
  from assembled_memories_own_tenant [OF this, THEN conjunct1] res show ?thesis
    by (auto simp: sample_assemble_def)
qed

theorem memories_used_report_witness:
  "\<exists>res. assemble demo_catalog sample_settings (sample_env 1) sample_bytes sample_assemble = Inr res \<and>
     distinct (map mu_memory_id (as_memories_used res))"
proof -
  obtain res where res: "assemble demo_catalog sample_settings (sample_env 1) sample_bytes sample_assemble = Inr res"
    using sample_assembly ..
  with memories_used_report [OF this] show ?thesis by blast
qed

theorem assembled_context_fits_witness:
  "\<exists>r level (res :: rat assembly_result) t.
     pack_and_format demo_catalog sample_settings sample_bytes sample_assemble r level = Inr res \<and>
     estimate_tokens (fc_assembled_context (as_formatted res)) demo_policy = Inr (t, tp_estimate_kind demo_policy) \<and>
     tb_usable_budget (as_budget res) \<le> 100"
proof -
  obtain res where "assemble demo_catalog sample_settings (sample_env 1) sample_bytes sample_assemble = Inr res"
    using sample_assembly ..
  then obtain r level where run: "pack_and_format demo_catalog sample_settings sample_bytes sample_assemble r level = Inr res"
    unfolding assemble_run by (simp only: sum_bind_Inr) blast
  have "formatter_ok (cs_formatter_nonce_bytes sample_settings)"
    "int (length sample_bytes) = cs_formatter_nonce_bytes sample_settings" "0 < ar_available_tokens sample_assemble"
    by (simp_all add: sample_settings_def formatter_ok_def MAX_NONCE_BYTES_def sample_assemble_def)
  with assembled_context_fits [OF run sample_model(1) demo_catalog_lookup(2)] run show ?thesis
    by (auto simp: sample_assemble_def)
qed

end
