(* ===== verification/Context_Server.thy ===== *)
theory Context_Server
  imports Assembly_Guarantees
begin

text \<open>
  The gRPC boundary of the context service: caller authentication (\<open>services/context/app/grpc_auth.py\<close>),
  the verified principal (\<open>principal.py\<close>), request validation, the bind guard and the unary
  \<open>AssembleContext\<close> handler (\<open>server.py\<close>). A metadata key or value is its text, or unusable (bytes
  that do not decode, or another type). Instants are integers of nanoseconds; protobuf fields have
  their declared types.
\<close>

section \<open>Outcomes\<close>

datatype status_code = UNAUTHENTICATED | PERMISSION_DENIED | INVALID_ARGUMENT | DEADLINE_EXCEEDED | UNIMPLEMENTED

text \<open>A call aborts with a status, fails with an uncaught exception, or responds.\<close>

datatype rpc_failure = Aborted status_code string | Uncaught py_error

section \<open>Caller authentication\<close>

definition CALLER_AUTH_HEADER :: string where "CALLER_AUTH_HEADER = ''x-ibex-context-service-token''"
definition SERVICE_TOKEN_MIN_CHARS :: nat where "SERVICE_TOKEN_MIN_CHARS = 32"
definition SERVICE_TOKEN_MAX_CHARS :: nat where "SERVICE_TOKEN_MAX_CHARS = 512"
definition UNAUTHENTICATED_DETAILS :: string where "UNAUTHENTICATED_DETAILS = ''caller authentication required''"

datatype meta_text = Meta_text string | Meta_unusable

type_synonym call_metadata = "(meta_text \<times> meta_text) list option"

definition token_char :: "char \<Rightarrow> bool" where
  "token_char c = (let n = of_char c :: nat in
     65 \<le> n \<and> n \<le> 90 \<or> 97 \<le> n \<and> n \<le> 122 \<or> 48 \<le> n \<and> n \<le> 57 \<or> c = CHR ''_'' \<or> c = CHR ''-'')"

definition validate_service_token :: "string \<Rightarrow> py_error + string" where
  "validate_service_token v =
     (if v = [] then Inl (ValueError ''IBEX_CONTEXT_GRPC_SERVICE_TOKEN is required'')
      else if \<not> (list_all token_char v \<and> SERVICE_TOKEN_MIN_CHARS \<le> length v \<and> length v \<le> SERVICE_TOKEN_MAX_CHARS)
      then Inl (ValueError ''IBEX_CONTEXT_GRPC_SERVICE_TOKEN must be 32-512 characters of [A-Za-z0-9_-]'')
      else Inr v)"

definition tokens_match :: "string option \<Rightarrow> string \<Rightarrow> bool" where
  "tokens_match presented expected = (case presented of
     None \<Rightarrow> False
   | Some p \<Rightarrow> if expected = [] then False else p = expected)"

definition normalized_key :: "meta_text \<Rightarrow> string option" where
  "normalized_key key = (case key of Meta_text s \<Rightarrow> Some (py_lower s) | Meta_unusable \<Rightarrow> None)"

definition token_values :: "(meta_text \<times> meta_text) list \<Rightarrow> meta_text list" where
  "token_values entries = map snd (filter (\<lambda>(key, _). normalized_key key = Some CALLER_AUTH_HEADER) entries)"

definition validated_token :: "meta_text \<Rightarrow> string \<times> string option" where
  "validated_token v = (case v of
     Meta_unusable \<Rightarrow> (''invalid'', None)
   | Meta_text text \<Rightarrow>
       if \<not> (SERVICE_TOKEN_MIN_CHARS \<le> utf8_length text \<and> utf8_length text \<le> SERVICE_TOKEN_MAX_CHARS)
       then (''invalid'', None) else ([], Some text))"

definition presented_token :: "call_metadata \<Rightarrow> string \<times> string option" where
  "presented_token metadata = (case metadata of
     None \<Rightarrow> (''invalid'', None)
   | Some entries \<Rightarrow> (case token_values entries of
       [] \<Rightarrow> (''missing'', None)
     | [v] \<Rightarrow> validated_token v
     | _ \<Rightarrow> (''duplicate'', None)))"

definition require_service_token :: "call_metadata \<Rightarrow> string \<Rightarrow> rpc_failure + unit" where
  "require_service_token metadata expected =
     (let (reason, presented) = presented_token metadata;
          reason = (if reason = [] \<and> \<not> tokens_match presented expected then ''mismatch'' else reason)
      in if reason = [] then Inr () else Inl (Aborted UNAUTHENTICATED UNAUTHENTICATED_DETAILS))"

section \<open>The verified principal\<close>

record timestamp =
  ts_seconds :: int
  ts_nanos :: int

record principal_context =
  pc_authority :: string
  pc_org_id :: string
  pc_agent_id :: string
  pc_principal_id :: string
  pc_request_id :: string
  pc_trace_id :: string
  pc_issued_at :: "timestamp option"
  pc_expires_at :: "timestamp option"

record proto_options =
  po_skip_cold_memories :: bool
  po_skip_hot_memories :: bool
  po_max_memories :: int

record proto_request =
  pr_principal_context :: "principal_context option"
  pr_org_id :: string
  pr_agent_id :: string
  pr_model :: string
  pr_query :: string
  pr_recent_messages :: "message list"
  pr_session_id :: string
  pr_directive_version_id :: string
  pr_request_id :: string
  pr_trace_id :: string
  pr_span_id :: string
  pr_available_tokens :: int
  pr_options :: "proto_options option"

datatype principal_error = PrincipalMissing string | PrincipalInvalid string | PrincipalMismatch string

record verified_principal =
  vp_org_id :: nat
  vp_agent_id :: nat
  vp_request_id :: string
  vp_trace_id :: string

definition NANOS :: int where "NANOS = 1000000000"
definition MAX_PRINCIPAL_SKEW :: int where "MAX_PRINCIPAL_SKEW = 30 * NANOS"
definition MAX_PRINCIPAL_ID_CHARS :: nat where "MAX_PRINCIPAL_ID_CHARS = 256"
definition MAX_CORRELATION_CHARS :: nat where "MAX_CORRELATION_CHARS = 128"

definition canonical_uuid :: "string \<Rightarrow> string \<Rightarrow> principal_error + nat" where
  "canonical_uuid raw label = (case uuid_of raw of
     None \<Rightarrow> Inl (PrincipalInvalid (label @ '' must be a canonical UUID''))
   | Some parsed \<Rightarrow> if uuid_str parsed \<noteq> raw then Inl (PrincipalInvalid (label @ '' must be a canonical lowercase UUID''))
       else Inr parsed)"

definition timestamp_nanos :: "timestamp option \<Rightarrow> string \<Rightarrow> principal_error + int option" where
  "timestamp_nanos ts name = (case ts of
     None \<Rightarrow> Inr None
   | Some t \<Rightarrow> if \<not> (0 \<le> ts_nanos t \<and> ts_nanos t \<le> 999999999)
       then Inl (PrincipalInvalid (name @ '' nanos must be in 0..999999999''))
       else Inr (Some (ts_seconds t * NANOS + ts_nanos t)))"

definition require_issued_at :: "principal_context \<Rightarrow> int \<Rightarrow> principal_error + unit" where
  "require_issued_at prin current =
     sum_bind (timestamp_nanos (pc_issued_at prin) ''issued_at'') (\<lambda>issued. case issued of
       None \<Rightarrow> Inl (PrincipalInvalid ''issued_at is required'')
     | Some t \<Rightarrow> sum_guard (\<not> MAX_PRINCIPAL_SKEW < \<bar>current - t\<bar>)
         (PrincipalInvalid ''issued_at is outside the +/-30s window''))"

definition require_not_expired :: "principal_context \<Rightarrow> int \<Rightarrow> principal_error + unit" where
  "require_not_expired prin current =
     sum_bind (timestamp_nanos (pc_expires_at prin) ''expires_at'') (\<lambda>expires. case expires of
       None \<Rightarrow> Inr ()
     | Some t \<Rightarrow> sum_guard (\<not> MAX_PRINCIPAL_SKEW < current - t) (PrincipalInvalid ''principal context is expired''))"

definition require_principal_id :: "string \<Rightarrow> principal_error + unit" where
  "require_principal_id pid =
     (if pid = [] \<or> pid \<noteq> py_strip pid then Inl (PrincipalInvalid ''principal_id must be a bounded non-empty string'')
      else sum_guard (\<not> MAX_PRINCIPAL_ID_CHARS < length pid) (PrincipalInvalid ''principal_id must be a bounded non-empty string''))"

definition correlation :: "string \<Rightarrow> principal_error + string" where
  "correlation raw =
     (if MAX_CORRELATION_CHARS < length raw then Inl (PrincipalInvalid ''principal correlation id exceeds 128 characters'')
      else Inr raw)"

definition verify_principal :: "proto_request \<Rightarrow> int \<Rightarrow> principal_error + verified_principal" where
  "verify_principal request now = (case pr_principal_context request of
     None \<Rightarrow> Inl (PrincipalMissing ''principal_context is required'')
   | Some prin \<Rightarrow>
       sum_bind (sum_guard (pc_authority prin = ''AuthService'')
         (PrincipalInvalid ''principal authority must be AuthService'')) (\<lambda>_.
       sum_bind (canonical_uuid (pc_org_id prin) ''org_id'') (\<lambda>org_id.
       sum_bind (canonical_uuid (pc_agent_id prin) ''agent_id'') (\<lambda>agent_id.
       sum_bind (require_principal_id (pc_principal_id prin)) (\<lambda>_.
       sum_bind (require_issued_at prin now) (\<lambda>_.
       sum_bind (require_not_expired prin now) (\<lambda>_.
       sum_bind (correlation (pc_request_id prin)) (\<lambda>request_id.
       sum_bind (correlation (pc_trace_id prin)) (\<lambda>trace_id.
       Inr \<lparr>vp_org_id = org_id, vp_agent_id = agent_id, vp_request_id = request_id, vp_trace_id = trace_id\<rparr>)))))))))"

definition bind_selectors :: "proto_request \<Rightarrow> verified_principal \<Rightarrow> principal_error + unit" where
  "bind_selectors request verified =
     (if pr_org_id request \<noteq> uuid_str (vp_org_id verified)
      then Inl (PrincipalMismatch ''request org_id does not match verified principal'')
      else if pr_agent_id request \<noteq> uuid_str (vp_agent_id verified)
      then Inl (PrincipalMismatch ''request agent_id does not match verified principal'')
      else Inr ())"

definition principal_abort :: "principal_error \<Rightarrow> rpc_failure" where
  "principal_abort exc = (case exc of
     PrincipalMismatch _ \<Rightarrow> Aborted PERMISSION_DENIED ''request tenant does not match verified principal''
   | PrincipalMissing _ \<Rightarrow> Aborted UNAUTHENTICATED ''verified principal context required''
   | PrincipalInvalid _ \<Rightarrow> Aborted UNAUTHENTICATED ''principal context is invalid or expired'')"

definition require_principal :: "proto_request \<Rightarrow> int \<Rightarrow> rpc_failure + verified_principal" where
  "require_principal request now =
     map_sum principal_abort id (sum_bind (verify_principal request now) (\<lambda>verified.
       sum_bind (bind_selectors request verified) (\<lambda>_. Inr verified)))"

section \<open>Request validation\<close>

definition bounded_text :: "string \<Rightarrow> string \<Rightarrow> nat \<Rightarrow> bool \<Rightarrow> string + string" where
  "bounded_text raw label max_chars required =
     (let text = (if required then py_strip raw else raw) in
      if required \<and> text = [] then Inl (label @ '' is required'')
      else if max_chars < length text then Inl (label @ '' exceeds '' @ py_str_nat max_chars @ '' characters'')
      else Inr text)"

definition messages_from_proto :: "message list \<Rightarrow> string + message list" where
  "messages_from_proto raw = sum_mapM (\<lambda>item.
     sum_bind (bounded_text (msg_role item) ''message.role'' 64 False) (\<lambda>role.
     sum_bind (bounded_text (msg_content item) ''message.content'' 32768 False) (\<lambda>body.
     Inr \<lparr>msg_role = role, msg_content = body\<rparr>))) raw"

definition optional_uuid :: "string \<Rightarrow> string \<Rightarrow> string + string" where
  "optional_uuid raw label = (let text = py_strip raw in
     if text = [] then Inr []
     else case uuid_of text of Some u \<Rightarrow> Inr (uuid_str u) | None \<Rightarrow> Inl (label @ '' must be a UUID''))"

definition is_w3c_hex :: "string \<Rightarrow> nat \<Rightarrow> bool" where
  "is_w3c_hex text n \<longleftrightarrow> length text = n \<and> list_all (\<lambda>c. c \<in> set hex_alphabet) text"

definition optional_w3c_hex_id :: "string \<Rightarrow> string \<Rightarrow> nat \<Rightarrow> string + string" where
  "optional_w3c_hex_id raw label n = (let text = py_lower (py_strip raw) in
     if text = [] then Inr []
     else if \<not> is_w3c_hex text n then Inl (label @ '' must be a hexadecimal W3C id'')
     else if text = replicate n (CHR ''0'') then Inl (label @ '' must be nonzero'')
     else Inr text)"

definition available_tokens_from_proto :: "int \<Rightarrow> string + int" where
  "available_tokens_from_proto raw =
     (if raw < 0 then Inl ''available_tokens must be >= 0''
      else if 10000000 < raw then Inl ''available_tokens exceeds 10000000''
      else Inr raw)"

definition MAX_ASSEMBLY_OPTION_MEMORIES :: int where "MAX_ASSEMBLY_OPTION_MEMORIES = 100"

definition options_from_proto :: "proto_options option \<Rightarrow> string + assembly_options" where
  "options_from_proto options_msg = (case options_msg of
     None \<Rightarrow> Inr \<lparr>ao_skip_cold_memories = False, ao_skip_hot_memories = False, ao_max_memories = 0\<rparr>
   | Some opts \<Rightarrow>
       if po_max_memories opts < 0 \<or> MAX_ASSEMBLY_OPTION_MEMORIES < po_max_memories opts
       then Inl ''max_memories must be in 0..100''
       else Inr \<lparr>ao_skip_cold_memories = po_skip_cold_memories opts, ao_skip_hot_memories = po_skip_hot_memories opts,
         ao_max_memories = po_max_memories opts\<rparr>)"

definition request_from_proto :: "proto_request \<Rightarrow> verified_principal \<Rightarrow> string + assemble_request" where
  "request_from_proto request verified =
     sum_bind (bounded_text (pr_model request) ''model'' 256 True) (\<lambda>model.
     sum_bind (bounded_text (pr_query request) ''query'' 8192 False) (\<lambda>query.
     sum_bind (sum_guard (\<not> 100 < length (pr_recent_messages request)) ''recent_messages exceeds 100 items'') (\<lambda>_.
     sum_bind (messages_from_proto (pr_recent_messages request)) (\<lambda>msgs.
     sum_bind (optional_uuid (pr_session_id request) ''session_id'') (\<lambda>session_id.
     sum_bind (optional_uuid (pr_directive_version_id request) ''directive_version_id'') (\<lambda>directive_version_id.
     sum_bind (optional_uuid (pr_request_id request) ''request_id'') (\<lambda>request_id.
     sum_bind (optional_w3c_hex_id (pr_trace_id request) ''trace_id'' 32) (\<lambda>trace_id.
     sum_bind (optional_w3c_hex_id (pr_span_id request) ''span_id'' 16) (\<lambda>span_id.
     sum_bind (available_tokens_from_proto (pr_available_tokens request)) (\<lambda>available.
     sum_bind (options_from_proto (pr_options request)) (\<lambda>options.
     Inr \<lparr>ar_org_id = vp_org_id verified, ar_agent_id = vp_agent_id verified, ar_query = query, ar_model = model,
       ar_recent_messages = msgs, ar_session_id = session_id, ar_directive_version_id = directive_version_id,
       ar_request_id = request_id, ar_trace_id = trace_id, ar_span_id = span_id, ar_available_tokens = available,
       ar_options = options, ar_tool_schemas = []\<rparr>)))))))))))"

section \<open>The handler\<close>

record 'v assemble_response =
  rp_assembled_context :: string
  rp_tokens_used :: int
  rp_memories_included :: int
  rp_memories_used :: "'v memory_used_record list"
  rp_directive_tokens :: int
  rp_history_tokens :: int
  rp_memory_tokens :: int
  rp_request_id :: string
  rp_trace_id :: string
  rp_span_id :: string
  rp_score_schema :: string

definition response_to_proto :: "'v assembly_result \<Rightarrow> 'v assemble_response" where
  "response_to_proto res =
     \<lparr>rp_assembled_context = fc_assembled_context (as_formatted res), rp_tokens_used = as_tokens_used res,
      rp_memories_included = fc_memories_included (as_formatted res), rp_memories_used = as_memories_used res,
      rp_directive_tokens = tb_directive_tokens (as_budget res), rp_history_tokens = tb_messages_tokens (as_budget res),
      rp_memory_tokens = pm_total_tokens (as_packed res), rp_request_id = as_request_id res,
      rp_trace_id = as_trace_id res, rp_span_id = as_span_id res, rp_score_schema = as_score_schema res\<rparr>"

text \<open>A call: its metadata, the clock, whether it is cancelled before, during or after the assembly.\<close>

record 'v rpc_call =
  rc_metadata :: call_metadata
  rc_request :: proto_request
  rc_now :: int
  rc_cancelled_before :: bool
  rc_cancelled_during :: bool
  rc_cancelled_after :: bool
  rc_retrieval :: "'v retrieval_env"
  rc_random :: "nat list"

record servicer =
  sv_catalog :: capability_catalog
  sv_settings :: context_settings
  sv_service_token :: string

definition abort_if_cancelled :: "bool \<Rightarrow> rpc_failure + unit" where
  "abort_if_cancelled cancelled = sum_guard (\<not> cancelled) (Aborted DEADLINE_EXCEEDED ''cancelled'')"

definition assemble_or_deadline ::
  "servicer \<Rightarrow> 'v :: linordered_field rpc_call \<Rightarrow> assemble_request \<Rightarrow> rpc_failure + 'v assembly_result" where
  "assemble_or_deadline sv call domain =
     (if rc_cancelled_during call then Inl (Aborted DEADLINE_EXCEEDED ''deadline exceeded'')
      else map_sum Uncaught id (assemble (sv_catalog sv) (sv_settings sv) (rc_retrieval call) (rc_random call) domain))"

definition assemble_context :: "servicer \<Rightarrow> 'v :: linordered_field rpc_call \<Rightarrow> rpc_failure + 'v assemble_response" where
  "assemble_context sv call =
     sum_bind (abort_if_cancelled (rc_cancelled_before call)) (\<lambda>_.
     sum_bind (require_service_token (rc_metadata call) (sv_service_token sv)) (\<lambda>_.
     sum_bind (require_principal (rc_request call) (rc_now call)) (\<lambda>verified.
     sum_bind (map_sum (Aborted INVALID_ARGUMENT) id (request_from_proto (rc_request call) verified)) (\<lambda>domain.
     sum_bind (assemble_or_deadline sv call domain) (\<lambda>result.
     sum_bind (abort_if_cancelled (rc_cancelled_after call)) (\<lambda>_.
     Inr (response_to_proto result)))))))"

text \<open>The other two methods authenticate the caller and answer that they are not implemented.\<close>

definition unimplemented_rpc :: "string \<Rightarrow> servicer \<Rightarrow> call_metadata \<Rightarrow> rpc_failure + unit" where
  "unimplemented_rpc method sv metadata =
     sum_bind (require_service_token metadata (sv_service_token sv)) (\<lambda>_. Inl (Aborted UNIMPLEMENTED method))"

text \<open>The registered handler: the servicer's method behind the token guard.\<close>

definition guarded_assemble ::
  "string \<Rightarrow> servicer \<Rightarrow> 'v :: linordered_field rpc_call \<Rightarrow> rpc_failure + 'v assemble_response" where
  "guarded_assemble expected sv call =
     sum_bind (require_service_token (rc_metadata call) expected) (\<lambda>_. assemble_context sv call)"


section \<open>The bind guard\<close>

definition rpartition :: "char \<Rightarrow> string \<Rightarrow> (string \<times> string) option" where
  "rpartition c s = (let tail = rev (takeWhile (\<lambda>x. x \<noteq> c) (rev s)) in
     if length tail = length s then None else Some (take (length s - length tail - 1) s, tail))"

definition split_host_and_port_text :: "string \<Rightarrow> string + string \<times> string" where
  "split_host_and_port_text addr =
     (if addr = [] then Inl ''IBEX_CONTEXT_GRPC_ADDR must be host:port''
      else if addr \<noteq> py_strip addr then Inl ''IBEX_CONTEXT_GRPC_ADDR must not have leading or trailing whitespace''
      else case rpartition (CHR '':'') addr of
          None \<Rightarrow> Inl ''IBEX_CONTEXT_GRPC_ADDR must be host:port''
        | Some (host, port_text) \<Rightarrow>
            if host = [] then Inl ''IBEX_CONTEXT_GRPC_ADDR must be host:port'' else Inr (host, port_text))"

definition ascii_digit :: "char \<Rightarrow> bool" where
  "ascii_digit c = (let n = of_char c :: nat in 48 \<le> n \<and> n \<le> 57)"

definition decimal_value :: "string \<Rightarrow> nat" where
  "decimal_value s = foldl (\<lambda>a c. a * 10 + (of_char c - 48)) 0 s"

text \<open>\<open>int\<close> raises \<open>ValueError\<close> for more decimal digits, leading zeros included, than the interpreter's default limit.\<close>

definition INT_MAX_STR_DIGITS :: nat where "INT_MAX_STR_DIGITS = 4300"

definition parse_bind_port :: "string \<Rightarrow> string + nat" where
  "parse_bind_port port_text =
     (if port_text = [] \<or> \<not> list_all ascii_digit port_text
      then Inl ''IBEX_CONTEXT_GRPC_ADDR must end in a numeric port''
      else if INT_MAX_STR_DIGITS < length port_text then Inl ''Exceeds the limit for integer string conversion''
      else let port = decimal_value port_text in
        if \<not> port \<le> 65535 then Inl ''IBEX_CONTEXT_GRPC_ADDR port out of range'' else Inr port)"

definition normalized_host :: "string \<Rightarrow> string + string" where
  "normalized_host host =
     (let starts = (take 1 host = ''[''); ends = (take 1 (rev host) = '']'') in
      if starts \<noteq> ends then Inl ''IBEX_CONTEXT_GRPC_ADDR has a malformed IPv6 bracket''
      else if \<not> starts \<and> CHR '':'' \<in> set host then Inl ''IBEX_CONTEXT_GRPC_ADDR IPv6 literals must be bracketed''
      else Inr (py_lower (strip_chars ''[]'' host)))"

definition split_host_port :: "string \<Rightarrow> string + string \<times> nat" where
  "split_host_port addr =
     sum_bind (split_host_and_port_text addr) (\<lambda>(host, port_text).
     sum_bind (parse_bind_port port_text) (\<lambda>port.
     sum_bind (normalized_host host) (\<lambda>host. Inr (host, port))))"

definition LOOPBACK_HOSTS :: "string list" where "LOOPBACK_HOSTS = [''127.0.0.1'', ''::1'']"

definition require_loopback_bind :: "string \<Rightarrow> string + unit" where
  "require_loopback_bind addr = sum_bind (split_host_port addr) (\<lambda>(host, _).
     sum_guard (host \<in> set LOOPBACK_HOSTS) ''IBEX_CONTEXT_GRPC_ADDR must be a loopback IP literal'')"

definition startup_service_token :: "string \<Rightarrow> string \<Rightarrow> py_error + string" where
  "startup_service_token grpc_service_token memory_api_token =
     sum_bind (validate_service_token grpc_service_token) (\<lambda>token.
     if memory_api_token \<noteq> [] \<and> token = memory_api_token
     then Inl (ValueError ''IBEX_CONTEXT_GRPC_SERVICE_TOKEN must differ from IBEX_CONTEXT_MEMORY_API_TOKEN'')
     else Inr token)"

section \<open>Guarantees\<close>

lemma presented_token_Some:
  "presented_token metadata = ([], Some p) \<longleftrightarrow>
     (\<exists>entries. metadata = Some entries \<and> token_values entries = [Meta_text p] \<and>
        SERVICE_TOKEN_MIN_CHARS \<le> utf8_length p \<and> utf8_length p \<le> SERVICE_TOKEN_MAX_CHARS)"
  by (auto simp: presented_token_def validated_token_def split: option.splits list.splits meta_text.splits if_splits)

lemma require_service_token_Inr:
  "require_service_token metadata expected = Inr u \<longleftrightarrow>
     (\<exists>entries. metadata = Some entries \<and> token_values entries = [Meta_text expected] \<and> expected \<noteq> [] \<and>
        SERVICE_TOKEN_MIN_CHARS \<le> utf8_length expected \<and> utf8_length expected \<le> SERVICE_TOKEN_MAX_CHARS)"
proof -
  have "require_service_token metadata expected = Inr u \<longleftrightarrow>
      presented_token metadata = ([], Some expected) \<and> expected \<noteq> []"
    by (auto simp: require_service_token_def tokens_match_def split: prod.split option.split)
  then show ?thesis by (auto simp: presented_token_Some)
qed

lemma canonical_uuid_Inr: "canonical_uuid raw label = Inr u \<longleftrightarrow> uuid_of raw = Some u \<and> uuid_str u = raw"
  by (auto simp: canonical_uuid_def split: option.split)

lemma require_principal_Inr:
  assumes "require_principal request now = Inr verified"
  obtains prin issued where "pr_principal_context request = Some prin" "pc_authority prin = ''AuthService''"
    "pc_org_id prin = uuid_str (vp_org_id verified)" "pc_agent_id prin = uuid_str (vp_agent_id verified)"
    "pr_org_id request = pc_org_id prin" "pr_agent_id request = pc_agent_id prin"
    "pc_issued_at prin = Some issued" "\<bar>now - (ts_seconds issued * NANOS + ts_nanos issued)\<bar> \<le> 30 * NANOS"
  using assms unfolding require_principal_def
  by (auto simp: verify_principal_def bind_selectors_def canonical_uuid_Inr require_issued_at_def timestamp_nanos_def
      MAX_PRINCIPAL_SKEW_def map_sum_def split: option.splits sum.splits if_splits)

lemma map_sum_Inr: "map_sum f id m = Inr a \<longleftrightarrow> m = Inr a"
  by (cases m) auto

lemma request_from_proto_ids:
  "request_from_proto request verified = Inr domain \<Longrightarrow>
   ar_org_id domain = vp_org_id verified \<and> ar_agent_id domain = vp_agent_id verified"
  by (auto simp: request_from_proto_def)

lemma assembled_own:
  "assemble cat settings env rnd req = Inr res \<Longrightarrow> m \<in> set (pm_memories (as_packed res)) \<Longrightarrow>
   mh_org_id (sm_hit m) = uuid_str (ar_org_id req) \<and> mh_agent_id (sm_hit m) = uuid_str (ar_agent_id req)"
  by (rule bspec [OF assembled_own_hits])

text \<open>
  C6. A response is for the authenticated caller's verified tenant only. If the registered handler
  responds, the call carried the configured token exactly once, the principal was asserted by the
  auth service within thirty seconds, the request's selectors are the principal's, and the text
  sent is an assembly whose every memory belongs to that organisation and agent.
\<close>

theorem rpc_response_isolated:
  fixes call :: "'v :: linordered_field rpc_call"
  assumes "guarded_assemble token sv call = Inr resp"
  shows "(\<exists>entries. rc_metadata call = Some entries \<and> token_values entries = [Meta_text (sv_service_token sv)]) \<and>
    token = sv_service_token sv \<and>
    (\<exists>prin issued. pr_principal_context (rc_request call) = Some prin \<and> pc_authority prin = ''AuthService'' \<and>
       pr_org_id (rc_request call) = pc_org_id prin \<and> pr_agent_id (rc_request call) = pc_agent_id prin \<and>
       pc_issued_at prin = Some issued \<and> \<bar>rc_now call - (ts_seconds issued * NANOS + ts_nanos issued)\<bar> \<le> 30 * NANOS) \<and>
    (\<exists>domain res. assemble (sv_catalog sv) (sv_settings sv) (rc_retrieval call) (rc_random call) domain = Inr res \<and>
       resp = response_to_proto res \<and>
       (\<forall>m\<in>set (pm_memories (as_packed res)). mh_org_id (sm_hit m) = pr_org_id (rc_request call) \<and>
          mh_agent_id (sm_hit m) = pr_agent_id (rc_request call)))"
proof -
  from assms have t: "require_service_token (rc_metadata call) token = Inr ()"
    "require_service_token (rc_metadata call) (sv_service_token sv) = Inr ()"
    by (auto simp: guarded_assemble_def assemble_context_def)
  from assms obtain verified domain res where p: "require_principal (rc_request call) (rc_now call) = Inr verified"
    and d: "request_from_proto (rc_request call) verified = Inr domain"
    and a: "assemble (sv_catalog sv) (sv_settings sv) (rc_retrieval call) (rc_random call) domain = Inr res"
    and resp: "resp = response_to_proto res"
    by (auto simp: guarded_assemble_def assemble_context_def assemble_or_deadline_def map_sum_Inr split: if_splits)
  from p obtain prin issued where prin: "pr_principal_context (rc_request call) = Some prin" "pc_authority prin = ''AuthService''"
    "pc_org_id prin = uuid_str (vp_org_id verified)" "pc_agent_id prin = uuid_str (vp_agent_id verified)"
    "pr_org_id (rc_request call) = pc_org_id prin" "pr_agent_id (rc_request call) = pc_agent_id prin"
    "pc_issued_at prin = Some issued" "\<bar>rc_now call - (ts_seconds issued * NANOS + ts_nanos issued)\<bar> \<le> 30 * NANOS"
    by (rule require_principal_Inr)
  have own: "\<forall>m\<in>set (pm_memories (as_packed res)). mh_org_id (sm_hit m) = pr_org_id (rc_request call) \<and>
      mh_agent_id (sm_hit m) = pr_agent_id (rc_request call)"
    using assembled_own [OF a] request_from_proto_ids [OF d] prin(3-6) by simp
  from t have "\<exists>entries. rc_metadata call = Some entries \<and> token_values entries = [Meta_text (sv_service_token sv)]"
    "token = sv_service_token sv"
    by (auto simp: require_service_token_Inr)
  with prin own a resp show ?thesis by blast
qed


definition sample_token :: string where "sample_token = replicate 32 (CHR ''t'')"

definition sample_principal :: principal_context where
  "sample_principal = \<lparr>pc_authority = ''AuthService'', pc_org_id = uuid_str 1, pc_agent_id = uuid_str 2,
     pc_principal_id = ''p'', pc_request_id = [], pc_trace_id = [],
     pc_issued_at = Some \<lparr>ts_seconds = 1000, ts_nanos = 0\<rparr>, pc_expires_at = None\<rparr>"

definition sample_proto :: proto_request where
  "sample_proto = \<lparr>pr_principal_context = Some sample_principal, pr_org_id = uuid_str 1, pr_agent_id = uuid_str 2,
     pr_model = '' m '', pr_query = [], pr_recent_messages = [], pr_session_id = [], pr_directive_version_id = [],
     pr_request_id = [], pr_trace_id = [], pr_span_id = [], pr_available_tokens = 100, pr_options = None\<rparr>"

definition sample_call :: "rat rpc_call" where
  "sample_call = \<lparr>rc_metadata = Some [(Meta_text CALLER_AUTH_HEADER, Meta_text sample_token)],
     rc_request = sample_proto, rc_now = 1010 * NANOS, rc_cancelled_before = False, rc_cancelled_during = False,
     rc_cancelled_after = False, rc_retrieval = sample_env 1, rc_random = sample_bytes\<rparr>"

definition sample_servicer :: servicer where
  "sample_servicer = \<lparr>sv_catalog = demo_catalog, sv_settings = sample_settings, sv_service_token = sample_token\<rparr>"

lemma sample_fields:
  "sv_catalog sample_servicer = demo_catalog" "sv_settings sample_servicer = sample_settings"
  "sv_service_token sample_servicer = sample_token" "rc_retrieval sample_call = sample_env 1"
  "rc_random sample_call = sample_bytes" "pr_org_id (rc_request sample_call) = uuid_str 1"
  "pr_agent_id (rc_request sample_call) = uuid_str 2" "rc_cancelled_before sample_call = False"
  "rc_cancelled_after sample_call = False"
  by (simp_all add: sample_servicer_def sample_call_def sample_proto_def)

lemma sample_token_ok: "require_service_token (rc_metadata sample_call) sample_token = Inr ()"
  unfolding require_service_token_Inr
  by (simp add: sample_call_def token_values_def normalized_key_def py_lower_def CALLER_AUTH_HEADER_def
      sample_token_def utf8_length_def SERVICE_TOKEN_MIN_CHARS_def SERVICE_TOKEN_MAX_CHARS_def sum_list_replicate)

lemma sample_principal_ok:
  "require_principal (rc_request sample_call) (rc_now sample_call)
     = Inr \<lparr>vp_org_id = 1, vp_agent_id = 2, vp_request_id = [], vp_trace_id = []\<rparr>"
  by (simp add: require_principal_def verify_principal_def sample_call_def sample_proto_def sample_principal_def
      canonical_uuid_def uuid_of_str require_principal_id_def py_strip_def py_lstrip_def py_isspace_def
      MAX_PRINCIPAL_ID_CHARS_def require_issued_at_def timestamp_nanos_def NANOS_def MAX_PRINCIPAL_SKEW_def
      require_not_expired_def correlation_def bind_selectors_def sum_guard_def)

lemma sample_domain:
  "request_from_proto (rc_request sample_call) \<lparr>vp_org_id = 1, vp_agent_id = 2, vp_request_id = [], vp_trace_id = []\<rparr>
     = Inr sample_assemble"
  by (simp add: request_from_proto_def sample_call_def sample_proto_def bounded_text_def py_strip_def py_lstrip_def
      py_isspace_def messages_from_proto_def optional_uuid_def optional_w3c_hex_id_def py_lower_def
      available_tokens_from_proto_def options_from_proto_def sample_assemble_def sum_guard_def)

theorem rpc_response_isolated_witness:
  "\<exists>resp. guarded_assemble sample_token sample_servicer sample_call = Inr resp \<and>
     (\<exists>domain res. assemble demo_catalog sample_settings (sample_env 1) sample_bytes domain = Inr res \<and>
        resp = response_to_proto res \<and>
        (\<forall>m\<in>set (pm_memories (as_packed res)). mh_org_id (sm_hit m) = uuid_str 1 \<and> mh_agent_id (sm_hit m) = uuid_str 2))"
proof -
  obtain res where "assemble demo_catalog sample_settings (sample_env 1) sample_bytes sample_assemble = Inr res"
    using sample_assembly ..
  then have "assemble_or_deadline sample_servicer sample_call sample_assemble = Inr res"
    by (simp add: assemble_or_deadline_def sample_servicer_def sample_call_def)
  then have r: "guarded_assemble sample_token sample_servicer sample_call = Inr (response_to_proto res)"
    by (simp add: guarded_assemble_def assemble_context_def abort_if_cancelled_def sample_fields sample_token_ok
        sample_principal_ok sample_domain del: One_nat_def)
  from rpc_response_isolated [OF this, THEN conjunct2, THEN conjunct2, THEN conjunct2]
  have "\<exists>domain res'. assemble demo_catalog sample_settings (sample_env 1) sample_bytes domain = Inr res' \<and>
      response_to_proto res = response_to_proto res' \<and>
      (\<forall>m\<in>set (pm_memories (as_packed res')). mh_org_id (sm_hit m) = uuid_str 1 \<and> mh_agent_id (sm_hit m) = uuid_str 2)"
    unfolding sample_fields .
  with r show ?thesis by (intro exI [of _ "response_to_proto res"] conjI)
qed

section \<open>Which addresses the guard accepts\<close>

lemma rpartition_Some:
  "rpartition c s = Some (a, b) \<longleftrightarrow> s = a @ c # b \<and> c \<notin> set b"
proof
  assume r: "rpartition c s = Some (a, b)"
  define t where "t = rev (takeWhile (\<lambda>x. x \<noteq> c) (rev s))"
  define d where "d = dropWhile (\<lambda>x. x \<noteq> c) (rev s)"
  have "rev s = rev t @ d" by (simp add: t_def d_def)
  then have s: "s = rev d @ t" by (metis rev_append rev_rev_ident)
  have b: "length t \<noteq> length s" "b = t" "a = take (length s - length t - 1) s"
    using r by (auto simp: rpartition_def t_def Let_def split: if_splits)
  then have "d \<noteq> []" using s by auto
  then obtain d' where "d = c # d'" using hd_dropWhile [of "\<lambda>x. x \<noteq> c" "rev s"] by (cases d) (auto simp: d_def)
  then have "s = rev d' @ c # t" using s by simp
  moreover have "c \<notin> set t" by (auto simp: t_def dest: set_takeWhileD)
  ultimately show "s = a @ c # b \<and> c \<notin> set b" using b by simp
next
  assume "s = a @ c # b \<and> c \<notin> set b"
  then have s: "s = a @ c # b" "c \<notin> set b" by auto
  have "takeWhile (\<lambda>x. x \<noteq> c) (rev b @ c # rev a) = rev b"
    by (subst takeWhile_append2) (use s(2) in auto)
  then show "rpartition c s = Some (a, b)" by (simp add: rpartition_def s(1) Let_def)
qed

lemma py_lower_char:
  assumes "of_char d < (64 :: nat)"
  shows "(let n = of_char c :: nat in if (65 \<le> n \<and> n \<le> 90) \<or> (192 \<le> n \<and> n \<le> 222 \<and> n \<noteq> 215)
     then char_of (n + 32) else c) = d \<longleftrightarrow> c = d"
proof -
  have "of_char (char_of (n + 32) :: char) = n + 32" if "n \<le> 222" for n :: nat
    using that by simp
  then show ?thesis using assms by (fastforce simp: Let_def)
qed

lemma py_lower_digits: "\<forall>c\<in>set t. of_char c < (64 :: nat) \<Longrightarrow> py_lower s = t \<longleftrightarrow> s = t"
proof (induction t arbitrary: s)
  case (Cons d t)
  then show ?case by (cases s) (simp_all add: py_lower_def py_lower_char)
qed (simp add: py_lower_def)

lemma py_lower_loopback: "py_lower h \<in> set LOOPBACK_HOSTS \<longleftrightarrow> h \<in> set LOOPBACK_HOSTS"
proof -
  have "py_lower h = ''127.0.0.1'' \<longleftrightarrow> h = ''127.0.0.1''" "py_lower h = ''::1'' \<longleftrightarrow> h = ''::1''"
    by (rule py_lower_digits, simp)+
  then show ?thesis by (simp add: LOOPBACK_HOSTS_def)
qed

lemma set_strip_chars: "set s \<subseteq> set cs \<union> set (strip_chars cs s)" "set (strip_chars cs s) \<subseteq> set s"
proof -
  have d: "set xs \<subseteq> set cs \<union> set (dropWhile (\<lambda>c. c \<in> set cs) xs)" for xs :: string
    using takeWhile_dropWhile_id [of "\<lambda>c. c \<in> set cs" xs] by (metis (no_types, lifting) Un_iff set_append set_takeWhileD subsetI)
  show "set s \<subseteq> set cs \<union> set (strip_chars cs s)"
    using d [of s] d [of "rev (dropWhile (\<lambda>c. c \<in> set cs) s)"] by (auto simp: strip_chars_def)
  show "set (strip_chars cs s) \<subseteq> set s" by (auto simp: strip_chars_def dest!: set_dropWhileD)
qed

lemma py_strip_plain: "\<forall>c\<in>set s. \<not> py_isspace c \<Longrightarrow> py_strip s = s"
proof -
  assume s: "\<forall>c\<in>set s. \<not> py_isspace c"
  have "dropWhile py_isspace xs = xs" if "\<forall>c\<in>set xs. \<not> py_isspace c" for xs :: string
    using that by (cases xs) auto
  from this [of s] this [of "rev s"] show ?thesis using s by (simp add: py_strip_def py_lstrip_def)
qed

lemma normalized_host_loopback:
  "(\<exists>h. normalized_host host = Inr h \<and> h \<in> set LOOPBACK_HOSTS) \<longleftrightarrow>
     (take 1 host = ''['' \<longleftrightarrow> take 1 (rev host) = '']'') \<and>
     (strip_chars ''[]'' host = ''127.0.0.1'' \<or> strip_chars ''[]'' host = ''::1'' \<and> take 1 host = ''['')"
proof -
  have "CHR '':'' \<in> set host \<longleftrightarrow> CHR '':'' \<in> set (strip_chars ''[]'' host)"
    using set_strip_chars [of host "''[]''"] set_strip_chars(2) [of "''[]''" host] by auto
  then show ?thesis
    by (auto simp: normalized_host_def py_lower_loopback Let_def) (auto simp: LOOPBACK_HOSTS_def)
qed

text \<open>
  C38. The bind guard accepts exactly the addresses \<open>host:port\<close> that satisfy four conditions: the
  port is one to 4300 ASCII digits of value at most 65535; the host starts with an opening bracket
  exactly if it ends with a closing one; with every leading and trailing bracket stripped it is
  \<open>127.0.0.1\<close> or \<open>::1\<close>; and \<open>::1\<close> is bracketed. No host name, wildcard or routable address passes,
  although repeated and inverted brackets do.
\<close>

theorem loopback_bind_exact:
  "require_loopback_bind addr = Inr () \<longleftrightarrow>
     (\<exists>host port. addr = host @ '':'' @ port \<and> port \<noteq> [] \<and> length port \<le> 4300 \<and> list_all ascii_digit port \<and>
        decimal_value port \<le> 65535 \<and> (take 1 host = ''['' \<longleftrightarrow> take 1 (rev host) = '']'') \<and>
        (strip_chars ''[]'' host = ''127.0.0.1'' \<or> strip_chars ''[]'' host = ''::1'' \<and> take 1 host = ''[''))"
  (is "_ \<longleftrightarrow> (\<exists>host port. ?P host port)")
proof
  assume "require_loopback_bind addr = Inr ()"
  then obtain host port h where "addr = py_strip addr" "rpartition (CHR '':'') addr = Some (host, port)" "port \<noteq> []" "length port \<le> 4300"
    "list_all ascii_digit port" "decimal_value port \<le> 65535" "normalized_host host = Inr h" "h \<in> set LOOPBACK_HOSTS"
    by (auto simp: require_loopback_bind_def split_host_port_def split_host_and_port_text_def parse_bind_port_def Let_def
        INT_MAX_STR_DIGITS_def split: option.splits if_splits)
  then show "\<exists>host port. ?P host port"
    using normalized_host_loopback [of host] by (intro exI [of _ host] exI [of _ port]) (auto simp: rpartition_Some)
next
  assume "\<exists>host port. ?P host port"
  then obtain host port where p: "?P host port" by blast
  then have addr: "addr = host @ '':'' @ port" "port \<noteq> []" "list_all ascii_digit port" "decimal_value port \<le> 65535"
      "length port \<le> 4300"
    and "\<exists>h. normalized_host host = Inr h \<and> h \<in> set LOOPBACK_HOSTS"
    unfolding normalized_host_loopback by blast+
  then obtain h where h: "normalized_host host = Inr h" "h \<in> set LOOPBACK_HOSTS" by auto
  from p have stripped: "strip_chars ''[]'' host = ''127.0.0.1'' \<or> strip_chars ''[]'' host = ''::1''" by blast
  have digits: "\<forall>c\<in>set port. \<not> py_isspace c \<and> c \<noteq> CHR '':''"
    using addr(3) by (auto simp: list_all_iff ascii_digit_def py_isspace_def Let_def)
  have "\<not> py_isspace c" if "c \<in> set host" for c
    using that stripped set_strip_chars(1) [of host "''[]''", THEN subsetD, OF that] by (auto simp: py_isspace_def)
  then have "py_strip addr = addr"
    using digits by (intro py_strip_plain) (auto simp: addr(1) py_isspace_def)
  moreover have "host \<noteq> []" "addr \<noteq> []" using stripped addr(1) by (auto simp: strip_chars_def)
  moreover have "rpartition (CHR '':'') addr = Some (host, port)"
    unfolding rpartition_Some using digits addr(1) by auto
  ultimately show "require_loopback_bind addr = Inr ()"
    using addr(2-5) h by (simp add: require_loopback_bind_def split_host_port_def split_host_and_port_text_def
        parse_bind_port_def INT_MAX_STR_DIGITS_def)
qed

end
