(* ===== verification/Spec2Isabelle.thy ===== *)
theory Spec2Isabelle
  imports Budget_Guarantees Rate_Limit Auth_Breaker Proxy_Postgres Chat_Retry Context_Server
begin

text \<open>
  A verification library for the Ibex harness, a proxy that puts memory, policy and budgets between agents and
  language-model providers. All paths are below \<open>src/\<close>.

  \<^bold>\<open>The program.\<close> The proxy (\<open>services/proxy\<close>, Go) receives chat completions, claims an idempotency key and a budget
  hold, asks the context service for memories to put into the prompt, calls a provider or a fallback and
  settles. The worker (\<open>services/worker\<close>, Python) spends from the same budgets in the background. The context
  service (\<open>services/context\<close>, Python) assembles prompts from directives and memories under a token budget. The MCP
  services (\<open>services/mcp-operator\<close>, \<open>services/mcp-memory\<close>) serve tools behind a rate limiter and a breaker for
  the authentication service. The parts meet in PostgreSQL, which holds the tables \<open>ibex_core.idempotency_ledger\<close> and
  \<open>ibex_core.budget_reservations\<close>, and in Redis.

  \<^bold>\<open>Common ground.\<close> \<open>Ibex_Prelude\<close> has the error monad, transactions on an explicit state that roll back
  when they fail (locales \<open>transactional\<close>, \<open>transactional_inv\<close>), SQL statements on tables as lists of rows, and the generic lemmas.
  \<open>Py_Strings\<close> has the Python string methods, \<open>Go_Values\<close> Go's 64-bit integers and strings. Identifiers are natural numbers, strings
  are lists of characters, one per code point in a text and one per byte in a body, times are integers.

  \<^bold>\<open>Idempotency ledger\<close> (\<open>packages/ibex_idempotency/src/ibex_idempotency/ledger.py\<close>). \<open>Idempotency_Ledger\<close> models the table, each statement
  and \<open>claim\<close>, \<open>finalize\<close>, \<open>release\<close>, and shows that a claim implements an abstract entry, its token and recorded response included. \<open>Idempotency_System\<close> interleaves
  clients statement by statement: a stale owner is fenced, a key has one live owner, is finalized once and replays the same response.
  \<open>Proxy_Keys\<close> is the proxy's ledger on the same table (\<open>packages/idempotency/ledger.go\<close>): the two ledgers decide alike up to their limits on the key, and finalized rows outlive
  every command of either.

  \<^bold>\<open>Budgets of the worker\<close> (\<open>services/worker/app/budget_pricing.py\<close>, \<open>budget_ledger.py\<close>). \<open>Budget_Pricing\<close> has the rate card with Python's
  shell patterns, \<open>Budget_Ledger\<close> the tables and operations, \<open>Budget_Effects\<close> the interface \<open>budget_client\<close>: every committed
  operation is one of a few effects, and effects keep the invariant, the cap and the versions. \<open>Budget_System\<close> interprets it
  for the worker; \<open>Budget_Guarantees\<close> states the cap, fencing, settlement at the frozen rates, idempotence and the sweep.

  \<^bold>\<open>Budgets of the proxy\<close> (\<open>packages/billing/estimate.go\<close>, \<open>packages/budgetledger/ledger.go\<close>). \<open>Go_Pricing\<close> has \<open>EstimateCost\<close> with
  Go's \<open>path.Match\<close> and shows that it agrees with the worker's prices; \<open>Proxy_Ledger\<close> has the ledger in 64-bit arithmetic;
  \<open>Shared_Budget\<close> specifies a claim row by row and outcome by outcome and shows that the code implements it, where the arithmetic wraps, that the proxy is a \<open>budget_client\<close>, and that worker and proxy
  together (locale \<open>two_clients\<close>) keep the cap in every interleaving.

  \<^bold>\<open>The chat handler of the proxy\<close> (\<open>services/proxy/internal/http\<close>). \<open>Go_Provider\<close> has the provider's errors, their classification
  and injection (\<open>packages/provider\<close>, \<open>packages/apierror\<close>, \<open>packages/injection\<close>); \<open>Proxy_Runtime\<close> the state in which the handler runs:
  the interfaces it is wired to as functions of a clock, the reservation objects in a heap, the ledger as a record of
  operations, the log of every call that leaves the process, and weakest preconditions. \<open>Proxy_Idempotency\<close> is
  \<open>chat/idempotency.go\<close>, \<open>Proxy_Admission\<close> \<open>budget_admission.go\<close>, \<open>Proxy_Response\<close> and \<open>Proxy_Chat\<close> are \<open>chat_provider.go\<close>,
  \<open>chat_context_assemble.go\<close>, \<open>chat_fallback.go\<close>, \<open>stream_forward.go\<close> and \<open>serve\<close> of \<open>router.go\<close>. A monitor in \<open>Proxy_Holds\<close> follows the hold of a
  request through the log; \<open>Proxy_Lifecycle\<close> shows that every call to a provider is covered and every hold settled; \<open>Proxy_Tracking\<close>
  shows that the ledger moves only by logged calls; \<open>Proxy_Postgres\<close> puts both together for every ledger that keeps
  the contract \<open>hold_store\<close> and interprets it with the database ledger beside the other clients of the table, which may claim, settle and sweep
  the same key. \<open>Proxy_Replies\<close> has monitors that ignore
  the budget (locale \<open>budget_blind\<close>) for the response, the idempotency key and the calls to providers. \<open>Chat_Retry\<close> reads the log of a request as calls of the
  idempotency ledger and shows that a retry is answered with the recorded response.

  \<^bold>\<open>The context service\<close> (\<open>services/context/app\<close>). \<open>Context_Packer\<close> and \<open>Packer_Guarantees\<close>: the knapsack packer of \<open>packer.py\<close>, its bound and the
  optimality of its table. \<open>Context_Budget\<close>: \<open>budget.py\<close> with the floating-point products. \<open>Context_Formatter\<close>: \<open>formatter.py\<close>, and that the
  memory section can be read back. \<open>Context_Pipeline\<close>: scores and conflicts. \<open>Context_Retrieval\<close>: the parallel branches and the decoding of
  the answers they get. \<open>Context_Assembly\<close> and \<open>Assembly_Guarantees\<close>: \<open>assemble.py\<close>, the bound on the whole text and tenant isolation.
  \<open>Context_Server\<close>: the gRPC boundary with its token, principal and bind guard.

  \<^bold>\<open>The MCP services.\<close> \<open>Rate_Limit\<close>: \<open>ratelimit.py\<close> with its Lua script. \<open>Auth_Breaker\<close>: both copies of \<open>auth_breaker.py\<close> with
  overlapping calls (locales \<open>breaker_variant\<close>, \<open>recovering_breaker\<close>).

  \<^bold>\<open>Bounds.\<close> All functions are total. Recursion is structural or has a measure; the one fuel argument, of the reader
  of formatted memories, is the length of the text, and a block is longer than one character. The fallback walk is a recursion on the
  truncated chain. Integers of Go are reduced to 64 bits where the code adds them; columns are checked at their width.
  Scores are of any ordered type, which covers floating-point scores where only the order matters; where sums matter
  they are exact.

  \<^bold>\<open>Assumptions.\<close> A transaction is atomic: claims of an organisation run under its advisory lock and settlements under
  the lock of their row. Hashes, random bytes, generated identifiers, clocks, JSON decoding and what remote services answer are parameters or
  parts of an environment, and a property that needs something of them says so: \<open>Proxy_Postgres\<close> assumes that transactions of the request do not fail,
  that no row has the nil id and that the other clients keep rows and raise versions, as the worker and the proxy do; \<open>Shared_Budget\<close> that sums of the proxy
  fit 64 bits; \<open>Proxy_Keys\<close> that keys and hashes are trimmed and keys at most 256 bytes; \<open>Chat_Retry\<close> that the commit of the first request goes through;
  \<open>Rate_Limit\<close> that the offset between the callers' clocks and that of Redis varies by at most 30 seconds. The clock of \<open>Context_Server\<close>, a float of seconds
  in the code, is an integer of nanoseconds, and integers of JSON become scores exactly. The ranges that the settings of \<open>services/context/app/config.py\<close> enforce are not
  checked again.

  \<^bold>\<open>Not modelled.\<close> Sockets, routers, middleware, metrics, logs, tracing and process lifecycle, because they are I/O around the modelled
  decisions. Of the chat path: the upstream HTTP clients of \<open>packages/provider\<close>, the policy and directive stores, credential
  resolution, the stream accumulator and the response pipeline, whose answers are arbitrary here; session checkpoints, usage facts and
  evidence, which follow the response and are logged as one event; the responses route. The services \<open>api\<close>, \<open>auth\<close>, \<open>memory\<close>, \<open>embedder\<close>,
  \<open>relay\<close> and \<open>console\<close> are CRUD over databases, cryptography, vector search and a user interface, with no state the
  modelled parts share except through the tables above. Of the worker, only budgets. Generated code, migrations, deployment files and
  the documentation site are not programs of the system.
\<close>

end
